(* ===== verification/Gateway_Prelude.thy ===== *)
theory Gateway_Prelude
  imports Main "HOL-Library.Word" "HOL-Library.List_Lexorder" "HOL-Library.Char_ord"
begin

text \<open>
  Shared vocabulary of the room gateway development: the result type of fallible Rust code, the
  types of identifiers and instants, sorted association lists (Rust's \<open>BTreeMap\<close>), tables of rows,
  and the generic lemmas on lists that the components use.  Nothing here models a particular source
  file.

  A fallible Rust function returns \<open>'e + 'a\<close> with \<open>Inl\<close> for the error; \<open>rbind\<close> is the \<open>?\<close> operator.
\<close>

named_theorems wire_simps \<open>JSON accessors on constructed values\<close>
named_theorems store_defs \<open>definitions of the table operations\<close>
named_theorems result_simps \<open>inversion of results built with rbind\<close>

type_synonym uuid = "128 word"
type_synonym timestamp = int \<comment> \<open>nanoseconds since the Unix epoch, the resolution of chrono\<close>
type_synonym duration = int

abbreviation seconds :: "int \<Rightarrow> duration" where
  "seconds n \<equiv> n * 1000000000"

abbreviation millis :: "int \<Rightarrow> duration" where
  "millis n \<equiv> n * 1000000"

subsection \<open>Results\<close>

fun rbind :: "'e + 'a \<Rightarrow> ('a \<Rightarrow> 'e + 'b) \<Rightarrow> 'e + 'b" where
  "rbind (Inl e) f = Inl e"
| "rbind (Inr x) f = f x"

definition ok_or :: "'e \<Rightarrow> 'a option \<Rightarrow> 'e + 'a" where
  "ok_or e x = (case x of None \<Rightarrow> Inl e | Some y \<Rightarrow> Inr y)"

definition ensure :: "'e \<Rightarrow> bool \<Rightarrow> 'e + unit" where
  "ensure e b = (if b then Inr () else Inl e)"

definition map_err :: "('e \<Rightarrow> 'f) \<Rightarrow> 'e + 'a \<Rightarrow> 'f + 'a" where
  "map_err f r = (case r of Inl e \<Rightarrow> Inl (f e) | Inr x \<Rightarrow> Inr x)"

definition is_ok :: "'e + 'a \<Rightarrow> bool" where
  "is_ok r = (case r of Inl _ \<Rightarrow> False | Inr _ \<Rightarrow> True)"

fun traverse :: "('a \<Rightarrow> 'e + 'b) \<Rightarrow> 'a list \<Rightarrow> 'e + 'b list" where
  "traverse f [] = Inr []"
| "traverse f (x # xs) = rbind (f x) (\<lambda>y. rbind (traverse f xs) (\<lambda>ys. Inr (y # ys)))"

lemma rbind_Inr_iff [result_simps]: "rbind m f = Inr y \<longleftrightarrow> (\<exists>x. m = Inr x \<and> f x = Inr y)"
  by (cases m) auto

lemma rbind_Inl_iff [result_simps]:
  "rbind m f = Inl e \<longleftrightarrow> m = Inl e \<or> (\<exists>x. m = Inr x \<and> f x = Inl e)"
  by (cases m) auto

lemma ok_or_Inr_iff [result_simps]: "ok_or e x = Inr y \<longleftrightarrow> x = Some y"
  by (simp add: ok_or_def split: option.splits)

lemma ok_or_Inl_iff [result_simps]: "ok_or e x = Inl e' \<longleftrightarrow> x = None \<and> e' = e"
  by (auto simp: ok_or_def split: option.splits)

lemma ok_or_simps [simp]: "ok_or e None = Inl e" "ok_or e (Some y) = Inr y"
  by (simp_all add: ok_or_def)

lemma ensure_Inr_iff [result_simps]: "ensure e b = Inr u \<longleftrightarrow> b"
  by (simp add: ensure_def)

lemma ensure_Inl_iff [result_simps]: "ensure e b = Inl e' \<longleftrightarrow> \<not> b \<and> e' = e"
  by (auto simp: ensure_def)

lemma ensure_simps [simp]: "ensure e True = Inr ()" "ensure e False = Inl e"
  by (simp_all add: ensure_def)

lemma map_err_Inr_iff [result_simps]: "map_err f r = Inr y \<longleftrightarrow> r = Inr y"
  by (cases r) (simp_all add: map_err_def)

lemma map_err_simps [simp]: "map_err f (Inl e) = Inl (f e)" "map_err f (Inr x) = Inr x"
  by (simp_all add: map_err_def)

lemma is_ok_simps [simp]: "is_ok (Inr x)" "\<not> is_ok (Inl e)"
  by (simp_all add: is_ok_def)

lemma traverse_Inr_iff:
  "traverse f xs = Inr ys \<longleftrightarrow> list_all2 (\<lambda>x y. f x = Inr y) xs ys"
  by (induction xs arbitrary: ys) (auto simp: result_simps list_all2_Cons1)

subsection \<open>Ordered maps as sorted association lists\<close>

fun upd :: "'k::linorder \<Rightarrow> 'v \<Rightarrow> ('k \<times> 'v) list \<Rightarrow> ('k \<times> 'v) list" where
  "upd k v [] = [(k, v)]"
| "upd k v ((a, b) # ps) =
     (if k < a then (k, v) # (a, b) # ps
      else if k = a then (k, v) # ps
      else (a, b) # upd k v ps)"

definition del :: "'k \<Rightarrow> ('k \<times> 'v) list \<Rightarrow> ('k \<times> 'v) list" where
  "del k ps = filter (\<lambda>p. fst p \<noteq> k) ps"

abbreviation ordered :: "('k::linorder \<times> 'v) list \<Rightarrow> bool" where
  "ordered ps \<equiv> sorted_wrt (<) (map fst ps)"

lemma map_of_upd [simp]: "map_of (upd k v ps) = (map_of ps)(k \<mapsto> v)"
  by (induction k v ps rule: upd.induct) (auto simp: fun_eq_iff)

lemma keys_upd: "fst ` set (upd k v ps) = insert k (fst ` set ps)"
  by (induction k v ps rule: upd.induct) auto

lemma ordered_upd: "ordered ps \<Longrightarrow> ordered (upd k v ps)"
proof (induction k v ps rule: upd.induct)
  case (2 k v a b ps)
  then show ?case
    using keys_upd [of k v ps] by (auto simp: not_less)
qed simp

lemma map_of_del: "map_of (del k ps) = (map_of ps)(k := None)"
  by (induction ps) (auto simp: del_def fun_eq_iff)

lemma ordered_del: "ordered ps \<Longrightarrow> ordered (del k ps)"
  by (induction ps) (auto simp: del_def)

lemma ordered_distinct: "ordered ps \<Longrightarrow> distinct (map fst ps)"
  by (induction ps) auto

lemma ordered_map_of_eqI:
  assumes "ordered ps" "ordered qs" "map_of ps = map_of qs"
  shows "ps = qs"
  using assms
proof (induction ps arbitrary: qs)
  case Nil
  then show ?case by (cases qs) (auto simp: fun_eq_iff split: if_splits)
next
  case (Cons p ps)
  obtain k v where p: "p = (k, v)" by fastforce
  from Cons.prems(3) p have kq: "map_of qs k = Some v" by (metis map_of_Cons_code(2))
  then obtain k' v' qs' where qs: "qs = (k', v') # qs'" by (cases qs) auto
  have "k' = k"
  proof (rule ccontr)
    assume ne: "k' \<noteq> k"
    with kq qs have "(k, v) \<in> set qs'" by (auto dest: map_of_SomeD)
    with Cons.prems(2) qs have lt: "k' < k" by force
    from Cons.prems(3) have "map_of (p # ps) k' = map_of qs k'" by (rule fun_cong)
    with qs have "map_of (p # ps) k' = Some v'" by simp
    with ne p have "(k', v') \<in> set ps" by (auto dest: map_of_SomeD split: if_splits)
    with Cons.prems(1) p have "k < k'" by force
    with lt show False by simp
  qed
  with kq qs have v': "v' = v" by simp
  have nk: "map_of ps k = None" "map_of qs' k = None"
    using Cons.prems(1,2) p qs \<open>k' = k\<close> by (auto simp: map_of_eq_None_iff)
  have "map_of ps = map_of qs'"
  proof
    fix x
    from Cons.prems(3) have "map_of (p # ps) x = map_of qs x" by (rule fun_cong)
    with nk p qs \<open>k' = k\<close> show "map_of ps x = map_of qs' x"
      by (cases "x = k") auto
  qed
  with Cons.IH [of qs'] Cons.prems(1,2) p qs \<open>k' = k\<close> v' show ?case by simp
qed

subsection \<open>Lists\<close>

definition max_key :: "('a \<Rightarrow> int) \<Rightarrow> 'a list \<Rightarrow> int" where
  "max_key f xs = foldr max (map f xs) 0" \<comment> \<open>SQL's \<open>COALESCE(MAX(f), 0)\<close> for positive \<open>f\<close>\<close>

lemma max_key_simps [simp]: "max_key f [] = 0" "max_key f (x # xs) = max (f x) (max_key f xs)"
  by (simp_all add: max_key_def)

lemma max_key_nonneg: "0 \<le> max_key f xs"
  by (induction xs) auto

lemma max_key_append [simp]: "max_key f (xs @ ys) = max (max_key f xs) (max_key f ys)"
  by (induction xs) (auto simp: max.assoc max_absorb2 max_key_nonneg)

lemma max_key_ge: "x \<in> set xs \<Longrightarrow> f x \<le> max_key f xs"
  by (induction xs) auto

lemma find_Some_in: "find P xs = Some x \<Longrightarrow> x \<in> set xs \<and> P x"
  by (induction xs) (auto split: if_splits)

lemma find_None_all: "find P xs = None \<longleftrightarrow> (\<forall>x \<in> set xs. \<not> P x)"
  by (induction xs) auto

lemma list_all2_rightD: "list_all2 P xs ys \<Longrightarrow> y \<in> set ys \<Longrightarrow> \<exists>x \<in> set xs. P x y"
  by (induction rule: list_all2_induct) auto

lemma distinct_map_inj: "distinct (map f xs) \<Longrightarrow> x \<in> set xs \<Longrightarrow> y \<in> set xs \<Longrightarrow> f x = f y \<Longrightarrow> x = y"
  by (simp add: distinct_map inj_on_def)

end
