(* ===== verification/Rust_Text.thy ===== *)
theory Rust_Text
  imports Gateway_Prelude
begin

text \<open>
  The operations of Rust's \<open>str\<close> that the gateway calls.  A Rust string is a UTF-8 byte sequence, and
  an HOL \<open>char\<close> is a byte, so a Rust string is the \<open>string\<close> of its bytes: \<open>len\<close> is \<open>length\<close>,
  comparison is bytewise, and \<open>chars().count()\<close> counts the bytes that start a character.  White space
  is the Unicode property \<open>White_Space\<close>, matched on its UTF-8 encodings, as \<open>char::is_whitespace\<close> does.
\<close>

abbreviation byte :: "char \<Rightarrow> nat" where
  "byte c \<equiv> of_char c"

definition is_continuation :: "char \<Rightarrow> bool" where
  "is_continuation c \<longleftrightarrow> 128 \<le> byte c \<and> byte c < 192"

definition char_count :: "string \<Rightarrow> nat" where
  "char_count s = length (filter (\<lambda>c. \<not> is_continuation c) s)"

fun chars_take :: "nat \<Rightarrow> string \<Rightarrow> string" where
  "chars_take n [] = []"
| "chars_take n (c # cs) =
     (if is_continuation c then c # chars_take n cs
      else if n = 0 then [] else c # chars_take (n - 1) cs)"

definition is_ascii_ws :: "char \<Rightarrow> bool" where
  "is_ascii_ws c \<longleftrightarrow> (9 \<le> byte c \<and> byte c \<le> 13) \<or> byte c = 32"

definition is_ws2 :: "char \<Rightarrow> char \<Rightarrow> bool" where
  "is_ws2 a b \<longleftrightarrow> byte a = 194 \<and> (byte b = 133 \<or> byte b = 160)" \<comment> \<open>U+0085, U+00A0\<close>

definition is_ws3 :: "char \<Rightarrow> char \<Rightarrow> char \<Rightarrow> bool" where
  "is_ws3 a b c \<longleftrightarrow>
     (byte a = 225 \<and> byte b = 154 \<and> byte c = 128) \<comment> \<open>U+1680\<close> \<or>
     (byte a = 226 \<and> byte b = 128 \<and>
        ((128 \<le> byte c \<and> byte c \<le> 138) \<or> byte c = 168 \<or> byte c = 169 \<or> byte c = 175))
        \<comment> \<open>U+2000 to U+200A, U+2028, U+2029, U+202F\<close> \<or>
     (byte a = 226 \<and> byte b = 129 \<and> byte c = 159) \<comment> \<open>U+205F\<close> \<or>
     (byte a = 227 \<and> byte b = 128 \<and> byte c = 128) \<comment> \<open>U+3000\<close>"

fun ws_len :: "string \<Rightarrow> nat" where
  "ws_len (a # b # c # _) =
     (if is_ascii_ws a then 1 else if is_ws2 a b then 2 else if is_ws3 a b c then 3 else 0)"
| "ws_len [a, b] = (if is_ascii_ws a then 1 else if is_ws2 a b then 2 else 0)"
| "ws_len [a] = (if is_ascii_ws a then 1 else 0)"
| "ws_len [] = 0"

fun ws_len_back :: "string \<Rightarrow> nat" where
  \<comment> \<open>the same on a reversed string\<close>
  "ws_len_back (c # b # a # _) =
     (if is_ascii_ws c then 1 else if is_ws2 b c then 2 else if is_ws3 a b c then 3 else 0)"
| "ws_len_back [b, a] = (if is_ascii_ws b then 1 else if is_ws2 a b then 2 else 0)"
| "ws_len_back [a] = (if is_ascii_ws a then 1 else 0)"
| "ws_len_back [] = 0"

function trim_front :: "(string \<Rightarrow> nat) \<Rightarrow> string \<Rightarrow> string" where
  "trim_front f s = (if f s = 0 \<or> s = [] then s else trim_front f (drop (f s) s))"
  by pat_completeness auto
termination
  by (relation "measure (\<lambda>(f, s). length s)") auto

declare trim_front.simps [simp del]

definition trim_start :: "string \<Rightarrow> string" where
  "trim_start s = trim_front ws_len s"

definition trim_end :: "string \<Rightarrow> string" where
  "trim_end s = rev (trim_front ws_len_back (rev s))"

definition trim :: "string \<Rightarrow> string" where
  "trim s = trim_end (trim_start s)"

function contains_ws :: "string \<Rightarrow> bool" where
  \<comment> \<open>\<open>s.contains(char::is_whitespace)\<close>\<close>
  "contains_ws s = (case s of [] \<Rightarrow> False | c # cs \<Rightarrow> 0 < ws_len s \<or> contains_ws cs)"
  by pat_completeness auto
termination
  by (relation "measure length") auto

declare contains_ws.simps [simp del]

fun split_char :: "char \<Rightarrow> string \<Rightarrow> string list" where
  "split_char d [] = [[]]"
| "split_char d (c # cs) =
     (if c = d then [] # split_char d cs
      else case split_char d cs of [] \<Rightarrow> [[c]] | p # ps \<Rightarrow> (c # p) # ps)"

fun split_once :: "char \<Rightarrow> string \<Rightarrow> (string \<times> string) option" where
  "split_once d [] = None"
| "split_once d (c # cs) =
     (if c = d then Some ([], cs)
      else map_option (\<lambda>(a, b). (c # a, b)) (split_once d cs))"

definition starts_with :: "string \<Rightarrow> string \<Rightarrow> bool" where
  "starts_with p s \<longleftrightarrow> take (length p) s = p"

definition strip_prefix :: "string \<Rightarrow> string \<Rightarrow> string option" where
  "strip_prefix p s = (if starts_with p s then Some (drop (length p) s) else None)"

fun remove_first :: "string \<Rightarrow> string \<Rightarrow> string" where
  \<comment> \<open>\<open>s.replacen(p, "", 1)\<close>\<close>
  "remove_first p [] = []"
| "remove_first p (c # cs) =
     (if starts_with p (c # cs) then drop (length p) (c # cs) else c # remove_first p cs)"

abbreviation newline :: char where "newline \<equiv> CHR 0x0A"
abbreviation carriage :: char where "carriage \<equiv> CHR 0x0D"

fun split_inclusive :: "char \<Rightarrow> string \<Rightarrow> string list" where
  "split_inclusive d [] = []"
| "split_inclusive d (c # cs) =
     (if c = d then [c] # split_inclusive d cs
      else case split_inclusive d cs of [] \<Rightarrow> [[c]] | p # ps \<Rightarrow> (c # p) # ps)"

definition strip_eol :: "string \<Rightarrow> string" where
  "strip_eol l =
     (if l \<noteq> [] \<and> last l = newline then
        (let l' = butlast l in if l' \<noteq> [] \<and> last l' = carriage then butlast l' else l')
      else l)"

definition str_lines :: "string \<Rightarrow> string list" where
  "str_lines s = map strip_eol (split_inclusive newline s)"

definition is_ascii_upper :: "char \<Rightarrow> bool" where
  "is_ascii_upper c \<longleftrightarrow> 65 \<le> byte c \<and> byte c \<le> 90"

definition is_ascii_alphanumeric :: "char \<Rightarrow> bool" where
  "is_ascii_alphanumeric c \<longleftrightarrow>
     (48 \<le> byte c \<and> byte c \<le> 57) \<or> (65 \<le> byte c \<and> byte c \<le> 90) \<or> (97 \<le> byte c \<and> byte c \<le> 122)"

definition ascii_lower_char :: "char \<Rightarrow> char" where
  "ascii_lower_char c = (if is_ascii_upper c then char_of (byte c + 32) else c)"

definition to_ascii_lowercase :: "string \<Rightarrow> string" where
  "to_ascii_lowercase s = map ascii_lower_char s"

definition eq_ignore_ascii_case :: "string \<Rightarrow> string \<Rightarrow> bool" where
  "eq_ignore_ascii_case a b \<longleftrightarrow> to_ascii_lowercase a = to_ascii_lowercase b"

subsection \<open>Counting and taking characters\<close>

lemma char_count_append [simp]: "char_count (a @ b) = char_count a + char_count b"
  by (simp add: char_count_def)

lemma char_count_chars_take: "char_count (chars_take n s) \<le> n"
  by (induction n s rule: chars_take.induct) (auto simp: char_count_def)

lemma chars_take_prefix: "\<exists>t. s = chars_take n s @ t"
  by (induction n s rule: chars_take.induct) auto

lemma chars_take_all: "char_count s \<le> n \<Longrightarrow> chars_take n s = s"
  by (induction n s rule: chars_take.induct) (auto simp: char_count_def split: if_splits)

lemma chars_take_nonempty: "s \<noteq> [] \<Longrightarrow> 0 < n \<Longrightarrow> chars_take n s \<noteq> []"
  by (cases s) auto

subsection \<open>Trimming\<close>

lemma trim_front_fix: "f s = 0 \<Longrightarrow> trim_front f s = s"
  by (subst trim_front.simps) simp

lemma trim_front_stop: "f (trim_front f s) = 0 \<or> trim_front f s = []"
proof (induction f s rule: trim_front.induct)
  case (1 f s)
  then show ?case by (subst (1 2) trim_front.simps) auto
qed

lemma trim_front_suffix: "\<exists>t. s = t @ trim_front f s"
proof (induction f s rule: trim_front.induct)
  case (1 f s)
  show ?case
  proof (cases "f s = 0 \<or> s = []")
    case True
    then show ?thesis by (subst trim_front.simps) simp
  next
    case False
    with 1 obtain t where "drop (f s) s = t @ trim_front f (drop (f s) s)" by blast
    then have "s = (take (f s) s @ t) @ trim_front f (drop (f s) s)"
      by (metis append.assoc append_take_drop_id)
    with False show ?thesis by (subst trim_front.simps) (metis)
  qed
qed

lemma ws_len_Nil [simp]: "ws_len [] = 0" "ws_len_back [] = 0"
  by simp_all

lemma trim_start_clean: "ws_len (trim_start s) = 0"
  using trim_front_stop [of ws_len s] by (auto simp: trim_start_def)

lemma trim_end_clean: "ws_len_back (rev (trim_end s)) = 0"
  using trim_front_stop [of ws_len_back "rev s"] by (auto simp: trim_end_def)

lemma trim_start_id: "ws_len s = 0 \<Longrightarrow> trim_start s = s"
  by (simp add: trim_start_def trim_front_fix)

lemma trim_end_id: "ws_len_back (rev s) = 0 \<Longrightarrow> trim_end s = s"
  by (simp add: trim_end_def trim_front_fix)

lemma trim_end_prefix: "\<exists>t. s = trim_end s @ t"
proof -
  from trim_front_suffix [of "rev s" ws_len_back] obtain t
    where "rev s = t @ trim_front ws_len_back (rev s)" ..
  then have "rev (rev s) = trim_end s @ rev t"
    unfolding trim_end_def by (metis rev_append)
  then show ?thesis by auto
qed

definition trimmed :: "string \<Rightarrow> bool" where
  "trimmed s \<longleftrightarrow> ws_len s = 0 \<and> ws_len_back (rev s) = 0"

lemma trim_trimmed_id: "trimmed s \<Longrightarrow> trim s = s"
  by (simp add: trim_def trimmed_def trim_start_id trim_end_id)

lemma trim_start_append_space: "trim_start (CHR 0x20 # s) = trim_start s"
proof -
  have "ws_len (CHR 0x20 # s) = 1"
    by (cases s rule: ws_len.cases) (auto simp: is_ascii_ws_def)
  then show ?thesis
    by (simp add: trim_start_def trim_front.simps [of ws_len "CHR 0x20 # s"])
qed

lemma trim_end_append_space: "trim_end (s @ [CHR 0x20]) = trim_end s"
proof -
  have "ws_len_back (CHR 0x20 # rev s) = 1"
    by (cases "rev s" rule: ws_len_back.cases) (auto simp: is_ascii_ws_def)
  then show ?thesis
    by (simp add: trim_end_def trim_front.simps [of ws_len_back "CHR 0x20 # rev s"])
qed

lemma ws_len_append_pos: "0 < ws_len a \<Longrightarrow> ws_len (a @ b) = ws_len a"
  by (cases a rule: ws_len.cases; cases b rule: ws_len.cases) (auto split: if_splits)

lemma trim_end_keeps_clean_start: "ws_len s = 0 \<Longrightarrow> ws_len (trim_end s) = 0"
  using trim_end_prefix [of s] by (metis neq0_conv ws_len_append_pos)

lemma trimmed_trim: "trimmed (trim s)"
  by (simp add: trim_def trimmed_def trim_end_clean trim_end_keeps_clean_start trim_start_clean)

lemma trim_idem [simp]: "trim (trim s) = trim s"
  by (rule trim_trimmed_id) (rule trimmed_trim)

subsection \<open>Splitting\<close>

lemma split_char_nonempty [simp]: "split_char d s \<noteq> []"
  by (induction s) (auto split: list.splits)

lemma split_char_none: "d \<notin> set s \<Longrightarrow> split_char d s = [s]"
  by (induction s) auto

lemma split_char_append: "d \<notin> set a \<Longrightarrow> split_char d (a @ d # b) = a # split_char d b"
  by (induction a) auto

lemma split_char_parts: "p \<in> set (split_char d s) \<Longrightarrow> d \<notin> set p"
  by (induction s arbitrary: p) (auto split: if_splits list.splits)

lemma split_once_append: "d \<notin> set a \<Longrightarrow> split_once d (a @ d # b) = Some (a, b)"
  by (induction a) auto

lemma split_once_Some: "split_once d s = Some (a, b) \<Longrightarrow> s = a @ d # b \<and> d \<notin> set a"
  by (induction s arbitrary: a b) (auto split: if_splits)

lemma split_once_None: "split_once d s = None \<longleftrightarrow> d \<notin> set s"
  by (induction s) auto

lemma starts_with_append [simp]: "starts_with p (p @ s)"
  by (simp add: starts_with_def)

lemma strip_prefix_append [simp]: "strip_prefix p (p @ s) = Some s"
  by (simp add: strip_prefix_def)

lemma strip_prefix_Some: "strip_prefix p s = Some r \<Longrightarrow> s = p @ r"
  by (auto simp: strip_prefix_def starts_with_def split: if_splits) (metis append_take_drop_id)

lemma remove_first_append: "p \<noteq> [] \<Longrightarrow> remove_first p (p @ s) = s"
  by (cases p) (auto simp: starts_with_def)

lemma split_inclusive_append:
  "d \<notin> set a \<Longrightarrow> split_inclusive d (a @ d # b) = (a @ [d]) # split_inclusive d b"
  by (induction a) auto

lemma strip_eol_line:
  assumes "newline \<notin> set a" "carriage \<notin> set a"
  shows "strip_eol (a @ [newline]) = a"
proof (cases "a = []")
  case True
  then show ?thesis by (simp add: strip_eol_def)
next
  case False
  then have "last a \<in> set a" by simp
  with assms(2) have "last a \<noteq> carriage" by metis
  then show ?thesis by (simp add: strip_eol_def)
qed

lemma str_lines_Nil [simp]: "str_lines [] = []"
  by (simp add: str_lines_def)

lemma str_lines_line:
  "newline \<notin> set a \<Longrightarrow> carriage \<notin> set a \<Longrightarrow> str_lines (a @ newline # b) = a # str_lines b"
  by (simp add: str_lines_def split_inclusive_append strip_eol_line)

end
