(* ===== verification/Json_Value.thy ===== *)
theory Json_Value
  imports Rust_Text
begin

text \<open>
  JSON values as \<open>serde_json::Value\<close> holds them.  The crate is built without \<open>preserve_order\<close>, so an
  object is a \<open>BTreeMap\<close>: here an association list with strictly increasing keys, and equality of
  values is equality of the terms.  An integer is its value (the parser keeps it in the range of
  \<open>i64\<close> or \<open>u64\<close>), any other number is its IEEE bit pattern.  \<open>jobj\<close> is the \<open>json!({...})\<close> macro,
  \<open>jget\<close> is \<open>Value::get\<close>, \<open>jidx\<close> is indexing with a string (null when absent), \<open>jset\<close> is assignment
  through such an index.
\<close>

datatype json =
    JNull
  | JBool bool
  | JInt int
  | JFloat "64 word"
  | JStr string
  | JArr "json list"
  | JObj "(string \<times> json) list"

definition i64_min :: int where "i64_min = - 9223372036854775808"
definition i64_max :: int where "i64_max = 9223372036854775807"
definition u64_max :: int where "u64_max = 18446744073709551615"

fun as_str :: "json \<Rightarrow> string option" where
  "as_str (JStr s) = Some s"
| "as_str _ = None"

fun as_array :: "json \<Rightarrow> json list option" where
  "as_array (JArr vs) = Some vs"
| "as_array _ = None"

fun as_object :: "json \<Rightarrow> (string \<times> json) list option" where
  "as_object (JObj fs) = Some fs"
| "as_object _ = None"

fun as_i64 :: "json \<Rightarrow> int option" where
  "as_i64 (JInt n) = (if i64_min \<le> n \<and> n \<le> i64_max then Some n else None)"
| "as_i64 _ = None"

fun as_u64 :: "json \<Rightarrow> int option" where
  "as_u64 (JInt n) = (if 0 \<le> n \<and> n \<le> u64_max then Some n else None)"
| "as_u64 _ = None"

fun is_null :: "json \<Rightarrow> bool" where
  "is_null JNull = True"
| "is_null _ = False"

fun jget :: "json \<Rightarrow> string \<Rightarrow> json option" where
  "jget (JObj fs) k = map_of fs k"
| "jget _ k = None"

definition jidx :: "json \<Rightarrow> string \<Rightarrow> json" where
  "jidx v k = (case jget v k of None \<Rightarrow> JNull | Some x \<Rightarrow> x)"

definition jget_str :: "json \<Rightarrow> string \<Rightarrow> string option" where
  "jget_str v k = Option.bind (jget v k) as_str"

definition jget_array :: "json \<Rightarrow> string \<Rightarrow> json list option" where
  "jget_array v k = Option.bind (jget v k) as_array"

fun jset :: "json \<Rightarrow> string \<Rightarrow> json \<Rightarrow> json" where
  "jset (JObj fs) k x = JObj (upd k x fs)"
| "jset JNull k x = JObj [(k, x)]"
| "jset v k x = v" \<comment> \<open>the crate panics here; no caller indexes a scalar\<close>

definition jobj :: "(string \<times> json) list \<Rightarrow> json" where
  "jobj kvs = JObj (fold (\<lambda>(k, v) m. upd k v m) kvs [])"

fun jopt :: "('a \<Rightarrow> json) \<Rightarrow> 'a option \<Rightarrow> json" where
  "jopt f None = JNull"
| "jopt f (Some x) = f x"

fun wf_json :: "json \<Rightarrow> bool" where
  "wf_json (JArr vs) = (\<forall>v \<in> set vs. wf_json v)"
| "wf_json (JObj fs) = (ordered fs \<and> (\<forall>f \<in> set fs. wf_json (snd f)))"
| "wf_json _ = True"

subsection \<open>Reading fields\<close>

definition opt_field :: "(json \<Rightarrow> 'a option) \<Rightarrow> json \<Rightarrow> string \<Rightarrow> 'a option option" where
  \<comment> \<open>serde's \<open>Option<T>\<close> field: absent and null are \<open>None\<close>, a value of another type is an error\<close>
  "opt_field f v k =
     (case jget v k of None \<Rightarrow> Some None
      | Some x \<Rightarrow> if is_null x then Some None else map_option Some (f x))"

definition req_field :: "(json \<Rightarrow> 'a option) \<Rightarrow> json \<Rightarrow> string \<Rightarrow> 'a option" where
  "req_field f v k = Option.bind (jget v k) f"

definition default_field :: "(json \<Rightarrow> 'a option) \<Rightarrow> 'a \<Rightarrow> json \<Rightarrow> string \<Rightarrow> 'a option" where
  \<comment> \<open>a field with \<open>#[serde(default)]\<close>\<close>
  "default_field f d v k = (case jget v k of None \<Rightarrow> Some d | Some x \<Rightarrow> f x)"

definition only_keys :: "string list \<Rightarrow> json \<Rightarrow> bool" where
  \<comment> \<open>\<open>deny_unknown_fields\<close>\<close>
  "only_keys ks v = (case v of JObj fs \<Rightarrow> list_all (\<lambda>f. fst f \<in> set ks) fs | _ \<Rightarrow> False)"

fun opt_all :: "('a \<Rightarrow> 'b option) \<Rightarrow> 'a list \<Rightarrow> 'b list option" where
  \<comment> \<open>a \<open>Vec\<close> whose elements are all read\<close>
  "opt_all f [] = Some []"
| "opt_all f (x # xs) = Option.bind (f x) (\<lambda>y. map_option (\<lambda>ys. y # ys) (opt_all f xs))"

definition de_vec :: "(json \<Rightarrow> 'a option) \<Rightarrow> json \<Rightarrow> 'a list option" where
  "de_vec f v = Option.bind (as_array v) (opt_all f)"

fun exact :: "json \<Rightarrow> bool" where
  \<comment> \<open>no floating-point number occurs in the value\<close>
  "exact (JFloat w) = False"
| "exact (JArr vs) = (\<forall>v \<in> set vs. exact v)"
| "exact (JObj fs) = (\<forall>f \<in> set fs. exact (snd f))"
| "exact _ = True"

fun has_nul :: "json \<Rightarrow> bool" where
  \<comment> \<open>a string or key of the value contains U+0000\<close>
  "has_nul (JStr s) = (CHR 0x00 \<in> set s)"
| "has_nul (JArr vs) = (\<exists>v \<in> set vs. has_nul v)"
| "has_nul (JObj fs) = (\<exists>f \<in> set fs. CHR 0x00 \<in> set (fst f) \<or> has_nul (snd f))"
| "has_nul _ = False"

subsection \<open>Accessors on constructed values\<close>

lemma map_of_fold_upd:
  "map_of (fold (\<lambda>(k, v) m. upd k v m) kvs m0) k =
     (case map_of (rev kvs) k of None \<Rightarrow> map_of m0 k | Some v \<Rightarrow> Some v)"
proof (induction kvs arbitrary: m0)
  case (Cons p kvs)
  obtain a b where "p = (a, b)" by fastforce
  with Cons [of "upd a b m0"] show ?case by (simp add: map_add_def split: option.split)
qed simp

lemma jget_jobj [simp, wire_simps]: "jget (jobj kvs) k = map_of (rev kvs) k"
  by (simp add: jobj_def map_of_fold_upd split: option.splits)

lemma as_object_jobj [simp]: "as_str (jobj kvs) = None" "as_array (jobj kvs) = None"
  "is_null (jobj kvs) = False"
  by (simp_all add: jobj_def)

lemma as_object_jobj_Some: "\<exists>fs. as_object (jobj kvs) = Some fs \<and> map_of fs = map_of (rev kvs)"
  by (auto simp: jobj_def fun_eq_iff map_of_fold_upd split: option.splits)

lemma jget_jset [simp, wire_simps]:
  "jget (jset (jobj kvs) k x) k' = (if k' = k then Some x else jget (jobj kvs) k')"
  by (simp add: jobj_def)

lemma jset_is_object: "as_object v = Some fs \<Longrightarrow> jget (jset v k x) k' = (if k' = k then Some x else jget v k')"
  by (cases v) auto

lemma jset_jobj: "jset (jobj kvs) k x = jobj (kvs @ [(k, x)])"
  by (simp add: jobj_def)

lemma jidx_jobj [wire_simps]: "jidx (jobj kvs) k = (case map_of (rev kvs) k of None \<Rightarrow> JNull | Some x \<Rightarrow> x)"
  by (simp add: jidx_def)

lemma jidx_jset [wire_simps]: "jidx (jset (jobj kvs) k x) k' = (if k' = k then x else jidx (jobj kvs) k')"
  by (simp add: jidx_def)

lemma jget_str_jobj [wire_simps]: "jget_str (jobj kvs) k = Option.bind (map_of (rev kvs) k) as_str"
  by (simp add: jget_str_def)

lemma jget_array_jobj [wire_simps]: "jget_array (jobj kvs) k = Option.bind (map_of (rev kvs) k) as_array"
  by (simp add: jget_array_def)

lemma jobj_inject_key: "jobj kvs = jobj kvs' \<Longrightarrow> map_of (rev kvs) k = map_of (rev kvs') k"
  by (metis jget_jobj)

lemma ordered_fold_upd: "ordered m0 \<Longrightarrow> ordered (fold (\<lambda>(k, v) m. upd k v m) kvs m0)"
  by (induction kvs arbitrary: m0) (auto simp: ordered_upd)

lemma set_upd: "set (upd k v ps) \<subseteq> insert (k, v) (set ps)"
  by (induction k v ps rule: upd.induct) auto

lemma set_fold_upd: "set (fold (\<lambda>(k, v) m. upd k v m) kvs m0) \<subseteq> set kvs \<union> set m0"
proof (induction kvs arbitrary: m0)
  case (Cons p kvs)
  obtain k v where p: "p = (k, v)" by fastforce
  from Cons [of "upd k v m0"] set_upd [of k v m0] p show ?case by auto
qed simp

lemma wf_jobj:
  assumes "\<forall>f \<in> set kvs. wf_json (snd f)"
  shows "wf_json (jobj kvs)"
proof -
  let ?fs = "fold (\<lambda>(k, v) m. upd k v m) kvs []"
  have "set ?fs \<subseteq> set kvs" using set_fold_upd [of kvs "[]"] by simp
  with assms have "\<forall>f \<in> set ?fs. wf_json (snd f)" by blast
  then show ?thesis unfolding jobj_def by (simp only: wf_json.simps) (simp add: ordered_fold_upd)
qed

lemma keys_fold_upd: "fst ` set (fold (\<lambda>(k, v) m. upd k v m) kvs m0) = fst ` set kvs \<union> fst ` set m0"
proof (induction kvs arbitrary: m0)
  case (Cons p kvs)
  obtain k v where p: "p = (k, v)" by fastforce
  from Cons [of "upd k v m0"] keys_upd [of k v m0] p show ?case by auto
qed simp

lemma only_keys_jobj: "only_keys ks (jobj kvs) \<longleftrightarrow> fst ` set kvs \<subseteq> set ks"
  using keys_fold_upd [of kvs "[]"]
  by (simp add: only_keys_def jobj_def list_all_iff) (metis (no_types, lifting) image_subset_iff)

lemma opt_all_map: "(\<And>x. x \<in> set xs \<Longrightarrow> f (g x) = Some (h x)) \<Longrightarrow> opt_all f (map g xs) = Some (map h xs)"
  by (induction xs) auto

lemma exact_jobj: "(\<forall>f \<in> set kvs. exact (snd f)) \<Longrightarrow> exact (jobj kvs)"
  using set_fold_upd [of kvs "[]"] unfolding jobj_def by (simp only: exact.simps) auto

lemma exact_jset: "exact v \<Longrightarrow> exact x \<Longrightarrow> exact (jset v k x)"
proof (cases v)
  case (JObj fs)
  assume "exact v" "exact x"
  with JObj set_upd [of k x fs] show ?thesis by (auto dest!: subsetD)
qed simp_all

lemma exact_jopt: "(\<And>x. exact (f x)) \<Longrightarrow> exact (jopt f v)"
  by (cases v) simp_all

text \<open>Objects built from the same bindings are equal, whatever the order they were written in.\<close>

lemma jobj_eqI:
  assumes "map_of (rev kvs) = map_of (rev kvs')"
  shows "jobj kvs = jobj kvs'"
proof -
  have "map_of (fold (\<lambda>(k, v) m. upd k v m) kvs []) = map_of (fold (\<lambda>(k, v) m. upd k v m) kvs' [])"
    by (rule ext) (simp only: map_of_fold_upd assms)
  then show ?thesis
    unfolding jobj_def by (simp only: json.inject) (rule ordered_map_of_eqI; simp add: ordered_fold_upd)
qed

text \<open>Objects written with the same distinct keys are equal only if their values are.\<close>

lemma jobj_inject:
  assumes "map fst kvs = map fst kvs'" "distinct (map fst kvs)"
  shows "jobj kvs = jobj kvs' \<longleftrightarrow> map snd kvs = map snd kvs'"
proof
  assume eq: "jobj kvs = jobj kvs'"
  have len: "length kvs = length kvs'" using assms(1) by (metis length_map)
  show "map snd kvs = map snd kvs'"
  proof (rule nth_equalityI)
    fix i assume i: "i < length (map snd kvs)"
    have d: "distinct (map fst (rev kvs))" "distinct (map fst (rev kvs'))"
      using assms by (metis distinct_rev rev_map)+
    have k: "fst (kvs ! i) = fst (kvs' ! i)"
      using i len assms(1) by (metis length_map nth_map)
    have "(fst (kvs ! i), snd (kvs ! i)) \<in> set (rev kvs)" "(fst (kvs' ! i), snd (kvs' ! i)) \<in> set (rev kvs')"
      using i len by simp_all
    then have "map_of (rev kvs) (fst (kvs ! i)) = Some (snd (kvs ! i))"
      "map_of (rev kvs') (fst (kvs' ! i)) = Some (snd (kvs' ! i))"
      by (simp_all only: map_of_is_SomeI [OF d(1)] map_of_is_SomeI [OF d(2)])
    with k jobj_inject_key [OF eq, of "fst (kvs ! i)"] i len show "map snd kvs ! i = map snd kvs' ! i" by simp
  qed (simp add: len)
next
  assume "map snd kvs = map snd kvs'"
  with assms(1) have "kvs = kvs'" by (metis zip_map_fst_snd)
  then show "jobj kvs = jobj kvs'" by simp
qed

end
