(* ===== verification/Externals.thy ===== *)
theory Externals
  imports Json_Value
begin

text \<open>
  The crates the gateway calls, as one record of functions that every definition using them takes as
  its first argument: \<open>uuid\<close> (text form and parser), \<open>chrono\<close> (RFC 3339 text, range-checked
  construction), \<open>sqlx\<close> with PostgreSQL (the value of an instant after a round trip through a
  \<open>TIMESTAMPTZ\<close> column, of a document through a \<open>JSONB\<close> column), \<open>serde_json\<close> (parser and printer), \<open>jsonschema\<close> applied to the pinned
  contracts, \<open>sha2\<close>, \<open>unicode-normalization\<close> and \<open>url\<close>.  What a property needs of them is a locale
  below; each is interpreted on an executable implementation, which the witnesses use.
\<close>

record url_parts =
  url_scheme :: string
  url_username :: string
  url_password :: "string option"
  url_fragment :: "string option"
  url_host :: "string option"
  url_port_or_default :: "nat option"

record ext =
  uuid_text :: "uuid \<Rightarrow> string"
  uuid_parse :: "string \<Rightarrow> uuid option"
  time_text :: "timestamp \<Rightarrow> string"
  time_parse :: "string \<Rightarrow> timestamp option" \<comment> \<open>\<open>DateTime::parse_from_rfc3339\<close>\<close>
  time_de :: "string \<Rightarrow> timestamp option" \<comment> \<open>serde's reader for \<open>DateTime<Utc>\<close>\<close>
  from_timestamp :: "int \<Rightarrow> timestamp option"
  pg_time :: "timestamp \<Rightarrow> timestamp"
  jsonb :: "json \<Rightarrow> json option"
  jsonb_text :: "json \<Rightarrow> string" \<comment> \<open>how PostgreSQL prints a document\<close>
  json_parse :: "string \<Rightarrow> json option"
  json_text :: "json \<Rightarrow> string"
  rpc_schema :: "json \<Rightarrow> bool"
  event_schema :: "json \<Rightarrow> bool"
  profile_schema :: "string \<Rightarrow> (json \<Rightarrow> bool) option"
  sha256_hex :: "string \<Rightarrow> string"
  nfkd :: "string \<Rightarrow> string"
  url_parse :: "string \<Rightarrow> url_parts option"

abbreviation juuid :: "ext \<Rightarrow> uuid \<Rightarrow> json" where
  "juuid E u \<equiv> JStr (uuid_text E u)"

abbreviation jtime :: "ext \<Rightarrow> timestamp \<Rightarrow> json" where
  "jtime E t \<equiv> JStr (time_text E t)"

abbreviation juuids :: "ext \<Rightarrow> uuid list \<Rightarrow> json" where
  "juuids E us \<equiv> JArr (map (juuid E) us)"

definition parse_uuid_json :: "ext \<Rightarrow> json \<Rightarrow> uuid option" where
  \<comment> \<open>\<open>value.as_str().and_then(|id| Uuid::parse_str(id).ok())\<close>\<close>
  "parse_uuid_json E v = Option.bind (as_str v) (uuid_parse E)"

definition uuid_prefix8 :: "ext \<Rightarrow> uuid \<Rightarrow> string" where
  \<comment> \<open>\<open>&id.to_string()[..8]\<close>\<close>
  "uuid_prefix8 E u = take 8 (uuid_text E u)"

subsection \<open>What the gateway relies on\<close>

text \<open>The hyphenated lower-case form: 36 bytes, and parsing it gives the identifier back.\<close>

locale uuid_format =
  fixes to_text :: "uuid \<Rightarrow> string" and parse :: "string \<Rightarrow> uuid option"
  assumes parse_to_text: "parse (to_text u) = Some u"
    and length_to_text: "length (to_text u) = 36"
    and to_text_chars: "set (to_text u) \<subseteq> set ''0123456789abcdef-''"
begin

lemma to_text_inject: "to_text u = to_text v \<longleftrightarrow> u = v"
  by (metis option.inject parse_to_text)

lemma parse_map_to_text: "map parse (map to_text us) = map Some us"
  by (simp add: parse_to_text)

end

text \<open>The serialised form of an instant is read back as that instant.\<close>

locale time_format =
  fixes to_text :: "timestamp \<Rightarrow> string" and de :: "string \<Rightarrow> timestamp option"
  assumes de_to_text: "de (to_text t) = Some t"
begin

lemma time_text_inject: "to_text s = to_text t \<longleftrightarrow> s = t"
  by (metis de_to_text option.inject)

end

text \<open>
  A column of type \<open>TIMESTAMPTZ\<close> keeps microseconds: storing is idempotent, monotone and leaves the
  microsecond count of an instant from 2000 onwards as it is.
\<close>

definition timestamp_micros :: "timestamp \<Rightarrow> int" where
  "timestamp_micros t = t div 1000"

definition year_2000 :: timestamp where
  "year_2000 = seconds 946684800"

locale column_time =
  fixes store :: "timestamp \<Rightarrow> timestamp"
  assumes store_idem: "store (store t) = store t"
    and store_mono: "s \<le> t \<Longrightarrow> store s \<le> store t"
    and store_micros: "year_2000 \<le> t \<Longrightarrow> timestamp_micros (store t) = timestamp_micros t"

text \<open>
  A column of type \<open>JSONB\<close> refuses a value with U+0000 in it and may rewrite the notation of a
  floating-point number; every other value is read back as it was written.
\<close>

locale jsonb_column =
  fixes store :: "json \<Rightarrow> json option"
  assumes store_exact: "exact v \<Longrightarrow> store v = Some w \<Longrightarrow> w = v"
    and store_accepts: "exact v \<Longrightarrow> \<not> has_nul v \<Longrightarrow> store v = Some v"

locale timestamp_range =
  fixes make :: "int \<Rightarrow> timestamp option"
  assumes make_value: "make s = Some t \<Longrightarrow> t = seconds s"

subsection \<open>An executable implementation\<close>

definition hex_digit :: "nat \<Rightarrow> char" where
  "hex_digit n = ''0123456789abcdef'' ! n"

definition hex_value :: "char \<Rightarrow> nat option" where
  "hex_value c =
     (if 48 \<le> byte c \<and> byte c \<le> 57 then Some (byte c - 48)
      else if 97 \<le> byte c \<and> byte c \<le> 102 then Some (byte c - 87) else None)"

fun hex_text :: "nat \<Rightarrow> nat \<Rightarrow> string" where
  "hex_text 0 x = []"
| "hex_text (Suc n) x = hex_text n (x div 16) @ [hex_digit (x mod 16)]"

fun hex_read :: "nat \<Rightarrow> string \<Rightarrow> nat option" where
  "hex_read acc [] = Some acc"
| "hex_read acc (c # cs) =
     (case hex_value c of None \<Rightarrow> None | Some d \<Rightarrow> hex_read (16 * acc + d) cs)"

definition hyphenate :: "string \<Rightarrow> string" where
  "hyphenate s = take 8 s @ ''-'' @ take 4 (drop 8 s) @ ''-'' @ take 4 (drop 12 s) @ ''-'' @
     take 4 (drop 16 s) @ ''-'' @ drop 20 s"

definition unhyphenate :: "string \<Rightarrow> string option" where
  "unhyphenate s =
     (let t = take 8 s @ take 4 (drop 9 s) @ take 4 (drop 14 s) @ take 4 (drop 19 s) @ drop 24 s
      in if length s = 36 \<and> hyphenate t = s then Some t else None)"

definition hyphenated_text :: "uuid \<Rightarrow> string" where
  "hyphenated_text u = hyphenate (hex_text 32 (unat u))"

definition hyphenated_parse :: "string \<Rightarrow> uuid option" where
  "hyphenated_parse s = map_option word_of_nat (Option.bind (unhyphenate s) (hex_read 0))"

definition store_micros :: "timestamp \<Rightarrow> timestamp" where
  "store_micros t = (t div 1000) * 1000"

definition make_seconds :: "int \<Rightarrow> timestamp option" where
  "make_seconds s = (if - 8334601228800 \<le> s \<and> s \<le> 8210266876799 then Some (seconds s) else None)"

definition store_jsonb :: "json \<Rightarrow> json option" where
  "store_jsonb v = (if has_nul v then None else Some v)"

lemma length_hex_text [simp]: "length (hex_text n x) = n"
  by (induction n x rule: hex_text.induct) auto

lemma hex_value_digit: "n < 16 \<Longrightarrow> hex_value (hex_digit n) = Some n"
proof -
  have "\<forall>n \<in> set [0..<16]. hex_value (hex_digit n) = Some n" by code_simp
  then show "n < 16 \<Longrightarrow> ?thesis" by simp
qed

lemma hex_read_append: "hex_read acc (a @ b) = Option.bind (hex_read acc a) (\<lambda>v. hex_read v b)"
  by (induction acc a rule: hex_read.induct) (auto split: option.splits)

lemma hex_read_text: "hex_read acc (hex_text n x) = Some (acc * 16 ^ n + x mod 16 ^ n)"
proof (induction n arbitrary: x)
  case (Suc n)
  have "x mod 16 ^ Suc n = 16 * (x div 16 mod 16 ^ n) + x mod 16"
    by (metis mod_mult2_eq mult.commute power_Suc add.commute)
  with Suc show ?case by (simp add: hex_read_append hex_value_digit algebra_simps)
qed simp

lemma hex_digit_chars: "n < 16 \<Longrightarrow> hex_digit n \<in> set ''0123456789abcdef''"
  unfolding hex_digit_def by (rule nth_mem) simp

lemma hex_text_chars: "set (hex_text n x) \<subseteq> set ''0123456789abcdef''"
  by (induction n x rule: hex_text.induct) (use hex_digit_chars in auto)

lemma length_hyphenate: "length s = 32 \<Longrightarrow> length (hyphenate s) = 36"
  by (simp add: hyphenate_def)

lemma set_hyphenate: "set (hyphenate s) \<subseteq> insert (CHR ''-'') (set s)"
  unfolding hyphenate_def by (auto dest: in_set_takeD in_set_dropD)

lemma unhyphenate_hyphenate:
  assumes "length s = 32"
  shows "unhyphenate (hyphenate s) = Some s"
proof -
  define a b c d e where pieces: "a = take 8 s" "b = take 4 (drop 8 s)" "c = take 4 (drop 12 s)"
    "d = take 4 (drop 16 s)" "e = drop 20 s"
  have len: "length a = 8" "length b = 4" "length c = 4" "length d = 4"
    using assms by (simp_all add: pieces)
  have s: "s = a @ b @ c @ d @ e"
    using append_take_drop_id [of 8 s] append_take_drop_id [of 4 "drop 8 s"]
      append_take_drop_id [of 4 "drop 12 s"] append_take_drop_id [of 4 "drop 16 s"]
    by (simp add: pieces)
  have "hyphenate s = a @ ''-'' @ b @ ''-'' @ c @ ''-'' @ d @ ''-'' @ e"
    by (simp add: hyphenate_def pieces)
  moreover have "length (hyphenate s) = 36" using assms by (rule length_hyphenate)
  ultimately show ?thesis
    using s len by (simp add: unhyphenate_def)
qed

lemma hyphenated_roundtrip: "hyphenated_parse (hyphenated_text u) = Some u"
proof -
  have "hex_read 0 (hex_text 32 (unat u)) = Some (unat u)"
    using unsigned_less [of u, where 'a = nat] by (simp add: hex_read_text)
  then show ?thesis
    by (simp add: hyphenated_parse_def hyphenated_text_def unhyphenate_hyphenate)
qed

interpretation hyphenated: uuid_format hyphenated_text hyphenated_parse
proof
  fix u
  show "hyphenated_parse (hyphenated_text u) = Some u" by (rule hyphenated_roundtrip)
  show "length (hyphenated_text u) = 36" by (simp add: hyphenated_text_def length_hyphenate)
  show "set (hyphenated_text u) \<subseteq> set ''0123456789abcdef-''"
  proof -
    have "set (hyphenated_text u) \<subseteq> insert (CHR ''-'') (set ''0123456789abcdef'')"
      unfolding hyphenated_text_def using set_hyphenate hex_text_chars by blast
    also have "\<dots> = set ''0123456789abcdef-''" by (simp add: insert_commute)
    finally show ?thesis .
  qed
qed

interpretation micros: column_time store_micros
  by unfold_locales (auto simp: store_micros_def timestamp_micros_def zdiv_mono1)

interpretation jsonb_impl: jsonb_column store_jsonb
  by unfold_locales (auto simp: store_jsonb_def split: if_splits)

interpretation chrono_range: timestamp_range make_seconds
  by unfold_locales (auto simp: make_seconds_def split: if_splits)

text \<open>
  A complete set of library functions for the witnesses.  Instants print as decimal nanoseconds, and
  the parsers accept what the witnesses need of them.
\<close>

fun decimal :: "nat \<Rightarrow> string" where
  "decimal n = (if n < 10 then [char_of (48 + n)] else decimal (n div 10) @ [char_of (48 + n mod 10)])"

declare decimal.simps [simp del]

definition int_text :: "int \<Rightarrow> string" where
  "int_text i = (if i < 0 then CHR ''-'' # decimal (nat (- i)) else decimal (nat i))"

fun digits_read :: "nat \<Rightarrow> string \<Rightarrow> nat option" where
  "digits_read acc [] = Some acc"
| "digits_read acc (c # cs) =
     (if 48 \<le> byte c \<and> byte c \<le> 57 then digits_read (10 * acc + (byte c - 48)) cs else None)"

definition int_read :: "string \<Rightarrow> int option" where
  "int_read s =
     (case s of [] \<Rightarrow> None
      | c # cs \<Rightarrow> if c = CHR ''-'' then map_option (\<lambda>n. - int n) (digits_read 0 cs)
                 else map_option int (digits_read 0 s))"

lemma digits_read_append: "digits_read acc (a @ b) = Option.bind (digits_read acc a) (\<lambda>v. digits_read v b)"
  by (induction acc a rule: digits_read.induct) auto

lemma digit_byte: "d < 10 \<Longrightarrow> byte (char_of (48 + d)) = (48 + d :: nat)"
  by (simp add: of_char_of)

lemma digits_read_decimal: "digits_read 0 (decimal n) = Some n"
proof (induction n rule: decimal.induct)
  case (1 n)
  show ?case
  proof (cases "n < 10")
    case True
    then show ?thesis using digit_byte [of n] by (subst decimal.simps) simp
  next
    case False
    then have "digits_read 0 (decimal n) = digits_read (n div 10) [char_of (48 + n mod 10)]"
      using 1 by (subst decimal.simps) (simp add: digits_read_append)
    then show ?thesis using digit_byte [of "n mod 10"] by simp
  qed
qed

lemma decimal_head: "\<exists>c cs. decimal n = c # cs \<and> c \<noteq> CHR ''-''"
proof (induction n rule: decimal.induct)
  case (1 n)
  have head: "char_of (48 + d) \<noteq> CHR ''-''" if "d < 10" for d :: nat
  proof
    assume "char_of (48 + d) = CHR ''-''"
    then have "byte (char_of (48 + d) :: char) = (45 :: nat)" by simp
    with digit_byte [OF that] show False by simp
  qed
  show ?case
    using 1 head by (subst decimal.simps) auto
qed

lemma int_read_text: "int_read (int_text i) = Some i"
proof (cases "i < 0")
  case True
  then show ?thesis by (simp add: int_text_def int_read_def digits_read_decimal)
next
  case False
  obtain c cs where c: "decimal (nat i) = c # cs" "c \<noteq> CHR ''-''" using decimal_head by blast
  with False digits_read_decimal [of "nat i"] show ?thesis
    by (simp add: int_text_def int_read_def)
qed

interpretation decimal_time: time_format int_text int_read
  by unfold_locales (rule int_read_text)

definition sample_ext :: ext where
  "sample_ext =
     \<lparr>uuid_text = hyphenated_text, uuid_parse = hyphenated_parse,
      time_text = int_text, time_parse = int_read, time_de = int_read,
      from_timestamp = make_seconds, pg_time = store_micros,
      jsonb = store_jsonb, jsonb_text = (\<lambda>_. ''{}''), json_parse = (\<lambda>_. None), json_text = (\<lambda>_. ''{}''),
      rpc_schema = (\<lambda>_. True), event_schema = (\<lambda>_. True),
      profile_schema = (\<lambda>_. Some (\<lambda>_. True)),
      sha256_hex = (\<lambda>s. s), nfkd = (\<lambda>s. s), url_parse = (\<lambda>_. None)\<rparr>"

abbreviation uuid_ok :: "ext \<Rightarrow> bool" where
  "uuid_ok E \<equiv> uuid_format (uuid_text E) (uuid_parse E)"

abbreviation column_ok :: "ext \<Rightarrow> bool" where
  "column_ok E \<equiv> column_time (pg_time E)"

abbreviation time_ok :: "ext \<Rightarrow> bool" where
  "time_ok E \<equiv> time_format (time_text E) (time_de E)"

abbreviation jsonb_ok :: "ext \<Rightarrow> bool" where
  "jsonb_ok E \<equiv> jsonb_column (jsonb E)"

lemma sample_ext_simps [simp]:
  "uuid_text sample_ext = hyphenated_text" "uuid_parse sample_ext = hyphenated_parse"
  "time_text sample_ext = int_text" "time_parse sample_ext = int_read" "time_de sample_ext = int_read"
  "from_timestamp sample_ext = make_seconds" "pg_time sample_ext = store_micros"
  "jsonb sample_ext = store_jsonb" "json_parse sample_ext = (\<lambda>_. None)" "rpc_schema sample_ext = (\<lambda>_. True)"
  "event_schema sample_ext = (\<lambda>_. True)" "profile_schema sample_ext = (\<lambda>_. Some (\<lambda>_. True))"
  "sha256_hex sample_ext = (\<lambda>s. s)" "nfkd sample_ext = (\<lambda>s. s)" "url_parse sample_ext = (\<lambda>_. None)"
  by (simp_all add: sample_ext_def)

lemma uuid_ok_sample: "uuid_ok sample_ext"
  by (simp add: hyphenated.uuid_format_axioms)

lemma column_ok_sample: "column_ok sample_ext"
  by (simp add: micros.column_time_axioms)

lemma time_ok_sample: "time_ok sample_ext"
  by (simp add: decimal_time.time_format_axioms)

lemma jsonb_ok_sample: "jsonb_ok sample_ext"
  by (simp add: jsonb_impl.jsonb_column_axioms)

lemma parse_uuid_json_juuid: "uuid_ok E \<Longrightarrow> parse_uuid_json E (juuid E u) = Some u"
  by (simp add: parse_uuid_json_def uuid_format.parse_to_text)

lemma map_filter_parse_juuids: "uuid_ok E \<Longrightarrow> List.map_filter (parse_uuid_json E) (map (juuid E) us) = us"
  by (induction us) (simp_all add: List.map_filter_simps parse_uuid_json_juuid)

lemma uuid_prefix8_length: "uuid_ok E \<Longrightarrow> length (uuid_prefix8 E u) = 8"
  by (simp add: uuid_prefix8_def uuid_format.length_to_text)

end
