(* ===== verification/Auth.thy ===== *)
theory Auth
  imports Externals
begin

text \<open>
  \<open>src/auth.rs\<close>: roles, actors, display names, the token validator and its two entry points (room
  participants and the agent gateway's workload tokens).  The JSON Web Token crate is the record
  \<open>jwt_lib\<close>: reading a header, verifying and decoding claims under a \<open>Validation\<close>, reading a key set,
  building a decoding key.  Claims reach the gateway as the JSON that serde deserialises.
\<close>

datatype actor_role = Human | Agent

fun role_str :: "actor_role \<Rightarrow> string" where
  "role_str Human = ''human''"
| "role_str Agent = ''agent''"

record actor =
  act_id :: uuid
  act_role :: actor_role
  act_display_name :: string
  act_expires_at :: int

datatype workload_error = Unauthenticated | Forbidden_workload

datatype jwt_alg = RS256 | Other_alg

record jwt_header =
  hdr_alg :: jwt_alg
  hdr_kid :: "string option"

record jwk =
  jwk_use_signature :: bool \<comment> \<open>\<open>public_key_use == Some(Signature)\<close>\<close>
  jwk_alg_rs256 :: bool \<comment> \<open>\<open>key_algorithm == Some(RS256)\<close>\<close>
  jwk_kid :: "string option"
  jwk_material :: string

record validation =
  val_issuer :: string
  val_audience :: string
  val_required :: "string list"
  val_leeway :: int
  val_reject_expiring_in_less_than :: int
  val_nbf :: bool

record 'k jwt_lib =
  jwt_decode_header :: "string \<Rightarrow> jwt_header option"
  jwt_decode :: "'k \<Rightarrow> validation \<Rightarrow> string \<Rightarrow> json option"
  jwks_parse :: "string \<Rightarrow> jwk list option"
  jwk_decoding_key :: "jwk \<Rightarrow> 'k option"

record 'k auth_validator =
  auth_issuer :: string
  auth_audience :: string
  auth_keys :: "(string \<times> 'k) list"

record claims =
  cl_sub :: string
  cl_role :: actor_role
  cl_exp :: int
  cl_name :: "string option"
  cl_preferred_username :: "string option"

datatype workload_audience = One string | Many "string list"

record workload_claims =
  wc_aud :: workload_audience
  wc_azp :: "string option"
  wc_iat :: "int option"
  wc_exp :: int

definition AGENT_GATEWAY_CLIENT_ID :: string where
  "AGENT_GATEWAY_CLIENT_ID = ''thought-khoral-agent-gateway''"

definition AGENT_GATEWAY_AUDIENCE :: string where
  "AGENT_GATEWAY_AUDIENCE = ''thought-khoral-room-gateway''"

definition MAX_WORKLOAD_TOKEN_LIFETIME_SECONDS :: int where
  "MAX_WORKLOAD_TOKEN_LIFETIME_SECONDS = 300"

subsection \<open>Deserialisation of claims\<close>

fun decode_role :: "json \<Rightarrow> actor_role option" where
  "decode_role (JStr s) = (if s = ''human'' then Some Human else if s = ''agent'' then Some Agent else None)"
| "decode_role _ = None"

definition decode_claims :: "json \<Rightarrow> claims option" where
  "decode_claims v =
     Option.bind (req_field as_str v ''sub'') (\<lambda>sub.
     Option.bind (req_field decode_role v ''n2n_role'') (\<lambda>role.
     Option.bind (req_field as_i64 v ''exp'') (\<lambda>exp.
     Option.bind (opt_field as_str v ''name'') (\<lambda>name.
     Option.bind (opt_field as_str v ''preferred_username'') (\<lambda>user.
       Some \<lparr>cl_sub = sub, cl_role = role, cl_exp = exp, cl_name = name,
             cl_preferred_username = user\<rparr>)))))"

fun decode_audience :: "json \<Rightarrow> workload_audience option" where
  "decode_audience (JStr s) = Some (One s)"
| "decode_audience (JArr vs) = map_option Many (opt_all as_str vs)"
| "decode_audience _ = None"

definition decode_workload_claims :: "json \<Rightarrow> workload_claims option" where
  "decode_workload_claims v =
     Option.bind (req_field decode_audience v ''aud'') (\<lambda>aud.
     Option.bind (opt_field as_str v ''azp'') (\<lambda>azp.
     Option.bind (opt_field as_i64 v ''iat'') (\<lambda>iat.
     Option.bind (req_field as_i64 v ''exp'') (\<lambda>exp.
       Some \<lparr>wc_aud = aud, wc_azp = azp, wc_iat = iat, wc_exp = exp\<rparr>))))"

subsection \<open>Display names\<close>

definition display_name_for :: "ext \<Rightarrow> actor_role \<Rightarrow> uuid \<Rightarrow> string option \<Rightarrow> string option \<Rightarrow> string" where
  "display_name_for E role actor_id name preferred_username =
     (let role_label = (case role of Human \<Rightarrow> ''Human'' | Agent \<Rightarrow> ''Agent'');
          chosen = (case name of None \<Rightarrow> preferred_username | Some n \<Rightarrow> Some n)
      in case Option.bind chosen
                (\<lambda>v. let trimmed = trim v in if trimmed \<noteq> [] then Some (chars_take 128 trimmed) else None) of
           Some s \<Rightarrow> s
         | None \<Rightarrow> role_label @ '' '' @ uuid_prefix8 E actor_id)"

subsection \<open>The validator\<close>

definition usable_jwk :: "jwk \<Rightarrow> bool" where
  \<comment> \<open>a signature key for RS256 with a non-empty identifier\<close>
  "usable_jwk j \<longleftrightarrow> jwk_use_signature j \<and> jwk_alg_rs256 j \<and> jwk_kid j \<noteq> None \<and> jwk_kid j \<noteq> Some []"

fun load_keys :: "'k jwt_lib \<Rightarrow> jwk list \<Rightarrow> (string \<times> 'k) list \<Rightarrow> (string \<times> 'k) list option" where
  "load_keys L [] keys = Some keys"
| "load_keys L (jwk # jwks) keys =
     (if \<not> jwk_use_signature jwk \<or> \<not> jwk_alg_rs256 jwk then load_keys L jwks keys
      else case jwk_kid jwk of
             None \<Rightarrow> load_keys L jwks keys
           | Some kid \<Rightarrow>
               if kid = [] then load_keys L jwks keys
               else case jwk_decoding_key L jwk of
                      None \<Rightarrow> None
                    | Some key \<Rightarrow>
                        if kid \<in> fst ` set keys then None
                        else load_keys L jwks (keys @ [(kid, key)]))"

definition new_auth_validator :: "'k jwt_lib \<Rightarrow> string \<Rightarrow> string \<Rightarrow> string \<Rightarrow> 'k auth_validator option" where
  "new_auth_validator L issuer audience jwks_json =
     (if issuer = [] \<or> audience = [] then None
      else Option.bind (jwks_parse L jwks_json) (\<lambda>jwks.
           Option.bind (load_keys L jwks []) (\<lambda>keys.
             if keys = [] then None
             else Some \<lparr>auth_issuer = issuer, auth_audience = audience, auth_keys = keys\<rparr>)))"

definition bearer_token :: "string option \<Rightarrow> string option" where
  "bearer_token authorization =
     Option.bind authorization (\<lambda>header.
     Option.bind (split_once (CHR '' '') header) (\<lambda>(scheme, token).
       if \<not> eq_ignore_ascii_case scheme ''Bearer'' \<or> token = [] \<or> contains_ws token then None
       else Some token))"

definition participant_validation :: "'k auth_validator \<Rightarrow> validation" where
  "participant_validation A =
     \<lparr>val_issuer = auth_issuer A, val_audience = auth_audience A,
      val_required = [''exp'', ''iss'', ''aud'', ''sub''],
      val_leeway = 0, val_reject_expiring_in_less_than = 1, val_nbf = True\<rparr>"

definition workload_validation :: "'k auth_validator \<Rightarrow> validation" where
  "workload_validation A =
     \<lparr>val_issuer = auth_issuer A, val_audience = AGENT_GATEWAY_AUDIENCE,
      val_required = [''exp'', ''iss'', ''aud'', ''sub'', ''iat''],
      val_leeway = 0, val_reject_expiring_in_less_than = 1, val_nbf = True\<rparr>"

definition key_for :: "'k jwt_lib \<Rightarrow> 'k auth_validator \<Rightarrow> string \<Rightarrow> 'k option" where
  "key_for L A token =
     Option.bind (jwt_decode_header L token) (\<lambda>header.
       if hdr_alg header \<noteq> RS256 then None
       else Option.bind (hdr_kid header) (map_of (auth_keys A)))"

definition authenticate_access_token ::
  "ext \<Rightarrow> 'k jwt_lib \<Rightarrow> 'k auth_validator \<Rightarrow> string \<Rightarrow> actor option" where
  "authenticate_access_token E L A token =
     (if token = [] \<or> contains_ws token then None
      else Option.bind (key_for L A token) (\<lambda>key.
           Option.bind (jwt_decode L key (participant_validation A) token) (\<lambda>v.
           Option.bind (decode_claims v) (\<lambda>claims.
           Option.bind (uuid_parse E (cl_sub claims)) (\<lambda>actor_id.
             Some \<lparr>act_id = actor_id, act_role = cl_role claims,
                   act_display_name = display_name_for E (cl_role claims) actor_id (cl_name claims)
                     (cl_preferred_username claims),
                   act_expires_at = cl_exp claims\<rparr>)))))"

definition authenticate_bearer ::
  "ext \<Rightarrow> 'k jwt_lib \<Rightarrow> 'k auth_validator \<Rightarrow> string option \<Rightarrow> actor option" where
  "authenticate_bearer E L A authorization =
     Option.bind (bearer_token authorization) (authenticate_access_token E L A)"

definition i64_saturating_sub :: "int \<Rightarrow> int \<Rightarrow> int" where
  "i64_saturating_sub a b = max i64_min (min i64_max (a - b))"

definition has_expected_audience :: "workload_audience \<Rightarrow> bool" where
  "has_expected_audience aud =
     (case aud of One a \<Rightarrow> a = AGENT_GATEWAY_AUDIENCE
      | Many as \<Rightarrow> list_ex (\<lambda>a. a = AGENT_GATEWAY_AUDIENCE) as)"

definition authenticate_agent_gateway_bearer ::
  "'k jwt_lib \<Rightarrow> 'k auth_validator \<Rightarrow> int \<Rightarrow> string option \<Rightarrow> workload_error + unit" where
  \<comment> \<open>\<open>now\<close> is the value of \<open>Utc::now().timestamp()\<close>\<close>
  "authenticate_agent_gateway_bearer L A now authorization =
     rbind (ok_or Unauthenticated (bearer_token authorization)) (\<lambda>token.
     rbind (ok_or Unauthenticated (key_for L A token)) (\<lambda>key.
     rbind (ok_or Unauthenticated
              (Option.bind (jwt_decode L key (workload_validation A) token) decode_workload_claims)) (\<lambda>claims.
     rbind (ensure Unauthenticated (has_expected_audience (wc_aud claims))) (\<lambda>_.
     rbind (ensure Forbidden_workload (wc_azp claims = Some AGENT_GATEWAY_CLIENT_ID)) (\<lambda>_.
     rbind (ok_or Forbidden_workload (wc_iat claims)) (\<lambda>issued_at.
       ensure Forbidden_workload
         (\<not> (issued_at > now \<or> wc_exp claims \<le> issued_at \<or>
              i64_saturating_sub (wc_exp claims) issued_at > MAX_WORKLOAD_TOKEN_LIFETIME_SECONDS))))))))"


subsection \<open>Key sets\<close>

abbreviation jwk_entry :: "'k jwt_lib \<Rightarrow> jwk \<Rightarrow> string \<times> 'k \<Rightarrow> bool" where
  "jwk_entry L j e \<equiv> jwk_kid j = Some (fst e) \<and> jwk_decoding_key L j = Some (snd e)"

lemma load_keys_step:
  "load_keys L (j # js) keys =
     (if usable_jwk j then
        (case jwk_decoding_key L j of None \<Rightarrow> None
         | Some key \<Rightarrow> if the (jwk_kid j) \<in> fst ` set keys then None
             else load_keys L js (keys @ [(the (jwk_kid j), key)]))
      else load_keys L js keys)"
  by (auto simp: usable_jwk_def split: option.splits)

lemma load_keys_Some_iff:
  assumes "distinct (map fst keys)"
  shows "load_keys L js keys = Some keys' \<longleftrightarrow>
    (\<exists>new. keys' = keys @ new \<and> distinct (map fst keys') \<and> list_all2 (jwk_entry L) (filter usable_jwk js) new)"
  using assms
proof (induction js arbitrary: keys)
  case (Cons j js)
  show ?case
  proof (cases "usable_jwk j")
    case False
    with Cons show ?thesis by (simp add: load_keys_step del: load_keys.simps)
  next
    case True
    then obtain kid where kid: "jwk_kid j = Some kid" by (auto simp: usable_jwk_def)
    show ?thesis
    proof (cases "jwk_decoding_key L j")
      case None
      with True show ?thesis by (auto simp: load_keys_step list_all2_Cons1 simp del: load_keys.simps)
    next
      case (Some key)
      show ?thesis
      proof (cases "kid \<in> fst ` set keys")
        case True
        have "load_keys L (j # js) keys = None"
          using True \<open>usable_jwk j\<close> Some kid by (simp add: load_keys_step del: load_keys.simps)
        moreover have "\<not> distinct (map fst (keys @ new))"
          if "list_all2 (jwk_entry L) (filter usable_jwk (j # js)) new" for new
        proof -
          have "list_all2 (jwk_entry L) (j # filter usable_jwk js) new"
            using that \<open>usable_jwk j\<close> by simp
          then have "fst (hd new) = kid" "new \<noteq> []" using kid by (cases new; simp)+
          with True show ?thesis by (cases new) simp_all
        qed
        ultimately show ?thesis
          by (simp del: load_keys.simps filter.simps map_append distinct_append) blast
      next
        case False
        with Cons.prems Cons.IH [of "keys @ [(kid, key)]"] \<open>usable_jwk j\<close> Some kid show ?thesis
          by (auto simp: load_keys_step list_all2_Cons1 simp del: load_keys.simps)
      qed
    qed
  qed
qed auto

lemma key_for_Some:
  "key_for L A token = Some key \<longleftrightarrow>
     (\<exists>h kid. jwt_decode_header L token = Some h \<and> hdr_alg h = RS256 \<and> hdr_kid h = Some kid \<and>
        map_of (auth_keys A) kid = Some key)"
  by (auto simp: key_for_def Option.bind_eq_Some_conv)

lemma as_i64_range: "as_i64 v = Some n \<Longrightarrow> i64_min \<le> n \<and> n \<le> i64_max"
  by (cases v) (auto split: if_splits)

lemma decode_workload_claims_range:
  assumes "decode_workload_claims v = Some c"
  shows "i64_min \<le> wc_exp c \<and> wc_exp c \<le> i64_max"
    and "wc_iat c = Some n \<Longrightarrow> i64_min \<le> n \<and> n \<le> i64_max"
proof -
  from assms obtain iat exp where
    iat: "opt_field as_i64 v ''iat'' = Some iat" "wc_iat c = iat"
    and exp: "req_field as_i64 v ''exp'' = Some exp" "wc_exp c = exp"
    by (auto simp: decode_workload_claims_def Option.bind_eq_Some_conv)
  show "i64_min \<le> wc_exp c \<and> wc_exp c \<le> i64_max"
    using exp as_i64_range by (auto simp: req_field_def Option.bind_eq_Some_conv)
  show "i64_min \<le> n \<and> n \<le> i64_max" if "wc_iat c = Some n"
    using iat that as_i64_range by (auto simp: opt_field_def split: option.splits if_splits)
qed

lemma lifetime_saturates:
  assumes "i64_min \<le> a" "a \<le> i64_max" "i64_min \<le> b" "b \<le> i64_max" "b < a"
  shows "i64_saturating_sub a b > MAX_WORKLOAD_TOKEN_LIFETIME_SECONDS \<longleftrightarrow> a - b > 300"
  using assms
  by (auto simp: i64_saturating_sub_def MAX_WORKLOAD_TOKEN_LIFETIME_SECONDS_def i64_min_def i64_max_def)

lemma char_count_le_length: "char_count s \<le> length s"
  by (simp add: char_count_def)

lemma display_name_for_bounds:
  assumes "uuid_ok E"
  shows "display_name_for E role u name user \<noteq> []"
    and "char_count (display_name_for E role u name user) \<le> 128"
proof -
  define fallback where "fallback = (case role of Human \<Rightarrow> ''Human'' | Agent \<Rightarrow> ''Agent'') @ '' '' @ uuid_prefix8 E u"
  have fb: "fallback \<noteq> []" "length fallback \<le> 128"
    using uuid_prefix8_length [OF assms, of u] by (auto simp: fallback_def split: actor_role.split)
  have "display_name_for E role u name user = fallback \<or>
      (\<exists>s. s \<noteq> [] \<and> display_name_for E role u name user = chars_take 128 s)"
    unfolding display_name_for_def fallback_def
    by (simp add: Let_def split: option.split) (auto split: bind_splits)
  then show "display_name_for E role u name user \<noteq> []"
    and "char_count (display_name_for E role u name user) \<le> 128"
    using fb char_count_le_length [of fallback] chars_take_nonempty char_count_chars_take
    by (fastforce, fastforce)
qed

lemma lower_bearer: "to_ascii_lowercase ''Bearer'' = ''bearer''"
  by code_simp

lemma lower_space: "CHR '' '' \<in> set s \<Longrightarrow> CHR '' '' \<in> set (to_ascii_lowercase s)"
proof -
  have "ascii_lower_char (CHR '' '') = CHR '' ''" by code_simp
  then show "CHR '' '' \<in> set s \<Longrightarrow> ?thesis" unfolding to_ascii_lowercase_def set_map by (metis imageI)
qed

lemma bearer_token_Some:
  "bearer_token h = Some t \<longleftrightarrow>
     (\<exists>s. h = Some (s @ CHR '' '' # t) \<and> to_ascii_lowercase s = ''bearer'' \<and> t \<noteq> [] \<and> \<not> contains_ws t)"
  (is "?L \<longleftrightarrow> ?R")
proof
  assume ?L
  then obtain hd s where "h = Some hd" "split_once (CHR '' '') hd = Some (s, t)"
    "eq_ignore_ascii_case s ''Bearer''" "t \<noteq> []" "\<not> contains_ws t"
    by (auto simp: bearer_token_def Option.bind_eq_Some_conv split: if_splits)
  then show ?R
    using split_once_Some [of "CHR '' ''" hd s t] by (auto simp: eq_ignore_ascii_case_def lower_bearer)
next
  assume ?R
  then obtain s where s: "h = Some (s @ CHR '' '' # t)" "to_ascii_lowercase s = ''bearer''"
    "t \<noteq> []" "\<not> contains_ws t" by blast
  have "CHR '' '' \<notin> set s" using lower_space [of s] s(2) by auto
  then have "split_once (CHR '' '') (s @ CHR '' '' # t) = Some (s, t)" by (rule split_once_append)
  with s show ?L by (simp add: bearer_token_def eq_ignore_ascii_case_def lower_bearer)
qed

definition verified_workload_claims ::
  "'k jwt_lib \<Rightarrow> 'k auth_validator \<Rightarrow> string option \<Rightarrow> workload_claims option" where
  \<comment> \<open>the claims of a bearer token that verifies under a configured key\<close>
  "verified_workload_claims L A h =
     Option.bind (bearer_token h) (\<lambda>t.
     Option.bind (key_for L A t) (\<lambda>key.
     Option.bind (jwt_decode L key (workload_validation A) t) decode_workload_claims))"

subsection \<open>Properties\<close>

text \<open>
  Start-up accepts a key set exactly when issuer and audience are non-empty, the set parses, at
  least one key is a signing key for RS256 with a non-empty identifier, each such key yields a decoding
  key and their identifiers are distinct; the validator then holds exactly these keys.
\<close>

theorem new_auth_validator_iff:
  "new_auth_validator L issuer audience jwks_json = Some A \<longleftrightarrow>
     issuer \<noteq> [] \<and> audience \<noteq> [] \<and> auth_issuer A = issuer \<and> auth_audience A = audience \<and>
     auth_validator.more A = () \<and>
     (\<exists>jwks. jwks_parse L jwks_json = Some jwks \<and> filter usable_jwk jwks \<noteq> [] \<and>
        distinct (map fst (auth_keys A)) \<and>
        list_all2 (jwk_entry L) (filter usable_jwk jwks) (auth_keys A))"
proof (cases A)
  case (fields i a keys)
  have "list_all2 (jwk_entry L) xs keys \<Longrightarrow> xs \<noteq> [] \<longleftrightarrow> keys \<noteq> []" for xs
    by (auto dest: list_all2_lengthD)
  with fields show ?thesis
    by (auto simp: new_auth_validator_def Option.bind_eq_Some_conv load_keys_Some_iff split: if_splits)
qed


text \<open>
  An actor authenticated from a bearer header carries the identity and role of claims verified
  under a configured key, and a display name that is never empty and has at most 128 characters.
\<close>

theorem authenticate_bearer_actor:
  assumes "uuid_ok E" and "authenticate_bearer E L A h = Some a"
  shows "(\<exists>t kid key v c. bearer_token h = Some t \<and> (kid, key) \<in> set (auth_keys A) \<and>
      jwt_decode L key (participant_validation A) t = Some v \<and> decode_claims v = Some c \<and>
      uuid_parse E (cl_sub c) = Some (act_id a) \<and> act_role a = cl_role c \<and> act_expires_at a = cl_exp c) \<and>
    act_display_name a \<noteq> [] \<and> char_count (act_display_name a) \<le> 128"
proof -
  from assms(2) obtain t key v c where
    t: "bearer_token h = Some t" "key_for L A t = Some key"
      "jwt_decode L key (participant_validation A) t = Some v" "decode_claims v = Some c"
      "uuid_parse E (cl_sub c) = Some (act_id a)"
    and a: "act_role a = cl_role c" "act_expires_at a = cl_exp c"
      "act_display_name a = display_name_for E (cl_role c) (act_id a) (cl_name c) (cl_preferred_username c)"
    by (auto simp: authenticate_bearer_def authenticate_access_token_def Option.bind_eq_Some_conv
        split: if_splits)
  from t(2) obtain kid where "(kid, key) \<in> set (auth_keys A)"
    by (auto simp: key_for_Some dest: map_of_SomeD)
  with t a show ?thesis
    using display_name_for_bounds [OF assms(1)] by auto
qed

definition sample_jwt :: "nat jwt_lib" where
  "sample_jwt =
     \<lparr>jwt_decode_header = (\<lambda>_. Some \<lparr>hdr_alg = RS256, hdr_kid = Some ''k1''\<rparr>),
      jwt_decode = (\<lambda>_ _ _. Some (jobj [(''sub'', JStr (hyphenated_text 5)), (''n2n_role'', JStr ''human''),
        (''exp'', JInt 1700000000), (''name'', JStr ''  Maya '')])),
      jwks_parse = (\<lambda>_. Some [\<lparr>jwk_use_signature = True, jwk_alg_rs256 = True, jwk_kid = Some ''k1'', jwk_material = ''m''\<rparr>]),
      jwk_decoding_key = (\<lambda>_. Some 7)\<rparr>"

theorem authenticate_bearer_actor_witness:
  "\<exists>A a. new_auth_validator sample_jwt ''iss'' ''aud'' ''{}'' = Some A \<and>
     authenticate_bearer sample_ext sample_jwt A (Some ''bearer tok'') = Some a \<and>
     act_display_name a = ''Maya'' \<and> act_id a = 5 \<and> char_count (act_display_name a) \<le> 128"
proof -
  define A where "A = \<lparr>auth_issuer = ''iss'', auth_audience = ''aud'', auth_keys = [(''k1'', 7 :: nat)]\<rparr>"
  define a where "a = \<lparr>act_id = 5, act_role = Human, act_display_name = ''Maya'', act_expires_at = 1700000000\<rparr>"
  have A: "new_auth_validator sample_jwt ''iss'' ''aud'' ''{}'' = Some A"
    by (simp add: new_auth_validator_def sample_jwt_def A_def)
  have tok: "bearer_token (Some ''bearer tok'') = Some ''tok''" "contains_ws ''tok'' = False"
    "chars_take 128 (trim ''  Maya '') = ''Maya''" "trim ''  Maya '' = ''Maya''"
    by code_simp+
  have a: "authenticate_bearer sample_ext sample_jwt A (Some ''bearer tok'') = Some a"
    by (simp add: authenticate_bearer_def authenticate_access_token_def tok key_for_def sample_jwt_def
        A_def decode_claims_def req_field_def opt_field_def display_name_for_def a_def
        hyphenated_roundtrip i64_min_def i64_max_def Let_def)
  from authenticate_bearer_actor [OF uuid_ok_sample a] have "char_count (act_display_name a) \<le> 128" by simp
  with A a show ?thesis by (intro exI [of _ A] exI [of _ a]) (simp add: a_def)
qed

end
