(* ===== verification/Database.thy ===== *)
theory Database
  imports Auth
begin

text \<open>
  The data of the gateway: the structs of \<open>src/store.rs\<close> and the tables of \<open>migrations/*.sql\<close>.  A table
  is the list of its rows in insertion order and the database is the record of its tables.  A
  transaction is a function from a database to an error or a result with the new database; the error
  case is the rollback, which leaves the database as it was.  Every transaction that writes to a room
  first takes the room's advisory lock, so transactions are modelled as atomic steps.  Columns with a
  fixed vocabulary (\<open>state\<close>, \<open>status\<close>, \<open>skill_id\<close>) are datatypes with the printed form beside them.
  A database failure is a violated constraint, a missing row that the code requires, a value that the
  column type refuses; failures of the connection are not modelled.
\<close>

subsection \<open>Events\<close>

record new_event =
  ne_room_id :: uuid
  ne_request_id :: uuid
  ne_event_type :: string
  ne_actor_id :: uuid
  ne_actor_role :: string
  ne_actor_display_name :: "string option"
  ne_payload :: json
  ne_occurred_at :: timestamp

record room_event =
  ev_event_id :: uuid
  ev_room_id :: uuid
  ev_sequence :: int
  ev_request_id :: uuid
  ev_event_type :: string
  ev_actor_id :: uuid
  ev_actor_role :: string
  ev_actor_display_name :: "string option"
  ev_payload :: json
  ev_occurred_at :: timestamp

definition event_to_wire_value :: "ext \<Rightarrow> room_event \<Rightarrow> json" where
  "event_to_wire_value E e =
     (let actor = jobj [(''id'', juuid E (ev_actor_id e)), (''role'', JStr (ev_actor_role e))];
          actor = (case ev_actor_display_name e of None \<Rightarrow> actor
                   | Some name \<Rightarrow> jset actor ''displayName'' (JStr name))
      in jobj [(''contractVersion'', JStr ''n2n.room.v1''),
               (''requestId'', juuid E (ev_request_id e)),
               (''roomId'', juuid E (ev_room_id e)),
               (''occurredAt'', jtime E (ev_occurred_at e)),
               (''sequence'', JInt (ev_sequence e)),
               (''eventId'', juuid E (ev_event_id e)),
               (''eventType'', JStr (ev_event_type e)),
               (''actor'', actor),
               (''payload'', ev_payload e)])"

subsection \<open>Agent tasks\<close>

datatype agent_skill_id = SummarizeContext | ExtractActionItems

fun skill_str :: "agent_skill_id \<Rightarrow> string" where
  "skill_str SummarizeContext = ''summarize-context''"
| "skill_str ExtractActionItems = ''extract-action-items''"

datatype agent_task_state = Queued | Running | AwaitingExternalInput | Succeeded | Failed

record agent_task_start =
  st_id :: string
  st_contract_version :: string
  st_request_id :: uuid
  st_room_id :: uuid
  st_occurred_at :: timestamp
  st_agent_id :: uuid
  st_skill_id :: agent_skill_id
  st_input :: string

record agent_task_record =
  tk_task_id :: uuid
  tk_room_id :: uuid
  tk_request_id :: uuid
  tk_requester_id :: uuid
  tk_agent_id :: uuid
  tk_skill_id :: agent_skill_id
  tk_input :: string
  tk_context_revision :: int
  tk_state :: agent_task_state
  tk_lease_owner :: "uuid option"
  tk_lease_expires_at :: "timestamp option"
  tk_created_at :: timestamp
  tk_updated_at :: timestamp

record agent_task_lease =
  ls_task_id :: uuid
  ls_owner_id :: uuid
  ls_expires_at :: timestamp

record agent_task_context =
  cx_task :: agent_task_record
  cx_events :: "room_event list"

record agent_task_update =
  up_update_id :: uuid
  up_event_type :: string
  up_payload :: json
  up_occurred_at :: timestamp

record agent_task_start_result =
  sr_task_id :: uuid
  sr_events :: "room_event list"

record agent_task_update_result =
  ur_task_id :: uuid
  ur_events :: "room_event list"
  ur_duplicate :: bool

definition AGENT_TASK_LEASE_DURATION :: duration where
  "AGENT_TASK_LEASE_DURATION = seconds 300"

datatype store_error = InvalidEvent | InvalidAgentTask | ConflictingDuplicate | Database

subsection \<open>Tables\<close>

datatype decision_status = Draft | Active | Dismissed | Superseded

fun decision_status_str :: "decision_status \<Rightarrow> string" where
  "decision_status_str Draft = ''draft''"
| "decision_status_str Active = ''active''"
| "decision_status_str Dismissed = ''dismissed''"
| "decision_status_str Superseded = ''superseded''"

record decision_row =
  dc_decision_id :: uuid
  dc_room_id :: uuid
  dc_status :: decision_status
  dc_title :: string
  dc_summary :: string
  dc_derived_from :: "uuid option"
  dc_source_event_ids :: "uuid list"
  dc_created_at :: timestamp
  dc_updated_at :: timestamp

record request_row =
  rq_room_id :: uuid
  rq_request_id :: uuid
  rq_fingerprint :: json
  rq_event_ids :: "uuid list"

record task_update_row =
  tu_task_id :: uuid
  tu_update_id :: uuid
  tu_event_ids :: "uuid list"

datatype conversation_state =
  Conv_reserved | Conv_running | Conv_ready | Conv_unusable | Conv_superseded

fun conversation_state_str :: "conversation_state \<Rightarrow> string" where
  "conversation_state_str Conv_reserved = ''reserved''"
| "conversation_state_str Conv_running = ''running''"
| "conversation_state_str Conv_ready = ''ready''"
| "conversation_state_str Conv_unusable = ''unusable''"
| "conversation_state_str Conv_superseded = ''superseded''"

record conversation_row =
  cv_conversation_id :: uuid
  cv_room_id :: uuid
  cv_agent_id :: uuid
  cv_generation :: int
  cv_state :: conversation_state
  cv_consumed_revision :: int
  cv_policy_revision :: string
  cv_guidance_revision :: string
  cv_selected_settings :: json
  cv_active_task_id :: "uuid option"
  cv_created_at :: timestamp
  cv_updated_at :: timestamp

datatype turn_state = Turn_reserved | Turn_running | Turn_completed | Turn_failed

fun turn_state_str :: "turn_state \<Rightarrow> string" where
  "turn_state_str Turn_reserved = ''reserved''"
| "turn_state_str Turn_running = ''running''"
| "turn_state_str Turn_completed = ''completed''"
| "turn_state_str Turn_failed = ''failed''"

record turn_row =
  ct_task_id :: uuid
  ct_room_id :: uuid
  ct_request_id :: uuid
  ct_requester_id :: uuid
  ct_agent_id :: uuid
  ct_conversation_id :: uuid
  ct_generation :: int
  ct_trigger_event_id :: uuid
  ct_context_revision :: int
  ct_state :: turn_state
  ct_frozen_input :: json
  ct_selected_settings :: json
  ct_source_manifest :: json
  ct_policy_revision :: string
  ct_authorization_expires_at :: timestamp
  ct_issued_at :: timestamp
  ct_expires_at :: timestamp
  ct_lease_owner :: "string option"
  ct_lease_expires_at :: "timestamp option"
  ct_lease_token :: "uuid option"
  ct_receipt_acknowledgement :: "json option"
  ct_reply_event_id :: "uuid option"
  ct_created_at :: timestamp
  ct_updated_at :: timestamp
  ct_accepted_turn :: json
  ct_result :: "json option"
  ct_failure :: "json option"
  ct_effective_settings :: "json option"
  ct_usage :: "json option"
  ct_last_update_ordinal :: int
  ct_last_progress_at :: "timestamp option"

record turn_update_row =
  cu_task_id :: uuid
  cu_update_id :: uuid
  cu_ordinal :: int
  cu_kind :: string
  cu_occurred_at :: timestamp
  cu_data :: json

record turn_update_request_row =
  cq_task_id :: uuid
  cq_update_id :: uuid
  cq_ordinal :: int
  cq_request :: json
  cq_response :: json
  cq_received_at :: timestamp

record disclosure_row =
  di_conversation_id :: uuid
  di_source_id :: uuid
  di_source_kind :: string
  di_first_task_id :: uuid
  di_policy_revision :: string
  di_disclosed_revision :: int

record db =
  room_events :: "room_event list"
  room_requests :: "request_row list"
  decisions :: "decision_row list"
  agent_tasks :: "agent_task_record list"
  agent_task_updates :: "task_update_row list"
  agent_conversations :: "conversation_row list"
  conversation_tasks :: "turn_row list"
  conversation_updates :: "turn_update_row list"
  conversation_update_requests :: "turn_update_request_row list"
  conversation_disclosures :: "disclosure_row list"

definition empty_db :: db where
  "empty_db = \<lparr>room_events = [], room_requests = [], decisions = [], agent_tasks = [],
     agent_task_updates = [], agent_conversations = [], conversation_tasks = [],
     conversation_updates = [], conversation_update_requests = [], conversation_disclosures = []\<rparr>"

definition text_ok :: "string \<Rightarrow> bool" where
  \<comment> \<open>a \<open>TEXT\<close> column refuses U+0000\<close>
  "text_ok s \<longleftrightarrow> CHR 0x00 \<notin> set s"

definition row_update :: "('r \<Rightarrow> bool) \<Rightarrow> ('r \<Rightarrow> 'r) \<Rightarrow> 'r list \<Rightarrow> 'r list" where
  \<comment> \<open>\<open>UPDATE \<dots> SET f WHERE p\<close>\<close>
  "row_update p f rows = map (\<lambda>r. if p r then f r else r) rows"

definition row_delete :: "('r \<Rightarrow> bool) \<Rightarrow> 'r list \<Rightarrow> 'r list" where
  \<comment> \<open>\<open>DELETE \<dots> WHERE p\<close>\<close>
  "row_delete p rows = filter (\<lambda>r. \<not> p r) rows"

definition by_sequence :: "room_event list \<Rightarrow> room_event list" where
  \<comment> \<open>\<open>ORDER BY sequence ASC\<close>\<close>
  "by_sequence es = sort_key ev_sequence es"

subsection \<open>Rows\<close>

lemma set_row_update: "r \<in> set (row_update p f rows) \<longleftrightarrow> (\<exists>x \<in> set rows. r = (if p x then f x else x))"
  by (auto simp: row_update_def)

lemma map_row_update: "(\<And>r. p r \<Longrightarrow> g (f r) = g r) \<Longrightarrow> map g (row_update p f rows) = map g rows"
  by (auto simp: row_update_def)

lemma row_update_cong_none: "(\<And>r. r \<in> set rows \<Longrightarrow> \<not> p r) \<Longrightarrow> row_update p f rows = rows"
  by (simp add: row_update_def map_idI)

lemma find_row_update:
  "(\<And>r. p r \<Longrightarrow> q (f r) = q r) \<Longrightarrow>
   find q (row_update p f rows) = map_option (\<lambda>r. if p r then f r else r) (find q rows)"
  by (induction rows) (auto simp: row_update_def)

lemma set_row_delete: "r \<in> set (row_delete p rows) \<longleftrightarrow> r \<in> set rows \<and> \<not> p r"
  by (simp add: row_delete_def)

lemma set_by_sequence [simp]: "set (by_sequence es) = set es"
  by (simp add: by_sequence_def)

lemma by_sequence_sorted: "sorted_wrt (\<lambda>a b. ev_sequence a < ev_sequence b) es \<Longrightarrow> by_sequence es = es"
proof -
  assume "sorted_wrt (\<lambda>a b. ev_sequence a < ev_sequence b) es"
  then have "sorted_wrt (\<lambda>a b. ev_sequence a \<le> ev_sequence b) es"
    by (rule sorted_wrt_mono_rel [rotated]) simp
  then have "sorted (map ev_sequence es)" by (simp add: sorted_wrt_map)
  then show ?thesis by (simp add: by_sequence_def sorted_sort_id sort_key_id_if_sorted)
qed

text \<open>The printed vocabularies are unambiguous.\<close>

lemma skill_str_inject: "skill_str a = skill_str b \<longleftrightarrow> a = b"
  by (cases a; cases b) simp_all

lemma role_str_inject: "role_str a = role_str b \<longleftrightarrow> a = b"
  by (cases a; cases b) simp_all

lemma decision_status_str_inject: "decision_status_str a = decision_status_str b \<longleftrightarrow> a = b"
  by (cases a; cases b) simp_all

end
