(* ===== verification/Room_Protocol.thy ===== *)
theory Room_Protocol
  imports Database
begin

text \<open>
  \<open>src/protocol.rs\<close>: the JSON-RPC errors, the typed requests with their readers, the request
  fingerprint that makes a room mutation idempotent, and the validation of outgoing room events.  The
  pinned JSON schemas are the parameters \<open>rpc_schema\<close> and \<open>event_schema\<close>.  The lemmas show that reading
  inverts writing for every typed request, that the fingerprint determines the request up to its
  JSON-RPC identifier, and which error each malformed request gets.
\<close>

subsection \<open>Errors\<close>

datatype rpc_error =
    Invalid_request
  | Unknown_method
  | Unsupported_contract_version
  | Rpc_unauthenticated
  | Forbidden
  | Not_found
  | Invalid_transition
  | Conflicting_duplicate
  | Unknown_mention_target
  | Internal_error

fun rpc_code :: "rpc_error \<Rightarrow> int" where
  "rpc_code Invalid_request = - 32600"
| "rpc_code Unknown_method = - 32601"
| "rpc_code Unsupported_contract_version = - 32009"
| "rpc_code Rpc_unauthenticated = - 32001"
| "rpc_code Forbidden = - 32003"
| "rpc_code Not_found = - 32004"
| "rpc_code Invalid_transition = - 32010"
| "rpc_code Conflicting_duplicate = - 32012"
| "rpc_code Unknown_mention_target = - 32013"
| "rpc_code Internal_error = - 32603"

fun rpc_message :: "rpc_error \<Rightarrow> string" where
  "rpc_message Invalid_request = ''Invalid request''"
| "rpc_message Unknown_method = ''Method not found''"
| "rpc_message Unsupported_contract_version = ''Unsupported contract version''"
| "rpc_message Rpc_unauthenticated = ''Unauthenticated''"
| "rpc_message Forbidden = ''Forbidden''"
| "rpc_message Not_found = ''Room or decision not found''"
| "rpc_message Invalid_transition = ''Invalid state transition''"
| "rpc_message Conflicting_duplicate = ''Duplicate request with a different payload''"
| "rpc_message Unknown_mention_target = ''Unknown message mention target''"
| "rpc_message Internal_error = ''Internal error''"

subsection \<open>Requests\<close>

record session_authenticate =
  sa_id :: string
  sa_access_token :: string

record join =
  jn_id :: string
  jn_contract_version :: string
  jn_request_id :: uuid
  jn_room_id :: uuid
  jn_occurred_at :: timestamp
  jn_after_sequence :: "int option"

datatype chat_mention_alias = AllHumans | AllAgents

datatype chat_mention = Participant uuid string | Alias chat_mention_alias

datatype chat_delivery = Room | Mentioned

record chat_send =
  cs_id :: string
  cs_contract_version :: string
  cs_request_id :: uuid
  cs_room_id :: uuid
  cs_occurred_at :: timestamp
  cs_text :: string
  cs_mentions :: "chat_mention list"
  cs_delivery :: chat_delivery

record decision_propose =
  dp_id :: string
  dp_contract_version :: string
  dp_request_id :: uuid
  dp_room_id :: uuid
  dp_occurred_at :: timestamp
  dp_title :: string
  dp_summary :: string
  dp_source_event_ids :: "uuid list"

datatype decision_action = Confirm | Edit | Dismiss

record decision_transition =
  dt_id :: string
  dt_contract_version :: string
  dt_request_id :: uuid
  dt_room_id :: uuid
  dt_occurred_at :: timestamp
  dt_decision_id :: uuid
  dt_action :: decision_action
  dt_edited_title :: "string option"
  dt_edited_summary :: "string option"

record decision_delete =
  dd_id :: string
  dd_contract_version :: string
  dd_request_id :: uuid
  dd_room_id :: uuid
  dd_occurred_at :: timestamp
  dd_decision_id :: uuid

datatype validated_request =
    SessionAuthenticate session_authenticate
  | Join join
  | ChatSend chat_send
  | DecisionPropose decision_propose
  | DecisionTransition decision_transition
  | DecisionDelete decision_delete
  | AgentTaskStart agent_task_start

fun request_rpc_id :: "validated_request \<Rightarrow> string" where
  "request_rpc_id (SessionAuthenticate r) = sa_id r"
| "request_rpc_id (Join r) = jn_id r"
| "request_rpc_id (ChatSend r) = cs_id r"
| "request_rpc_id (DecisionPropose r) = dp_id r"
| "request_rpc_id (DecisionTransition r) = dt_id r"
| "request_rpc_id (DecisionDelete r) = dd_id r"
| "request_rpc_id (AgentTaskStart r) = st_id r"

fun request_room_id :: "validated_request \<Rightarrow> uuid option" where
  "request_room_id (SessionAuthenticate r) = None"
| "request_room_id (Join r) = Some (jn_room_id r)"
| "request_room_id (ChatSend r) = Some (cs_room_id r)"
| "request_room_id (DecisionPropose r) = Some (dp_room_id r)"
| "request_room_id (DecisionTransition r) = Some (dt_room_id r)"
| "request_room_id (DecisionDelete r) = Some (dd_room_id r)"
| "request_room_id (AgentTaskStart r) = Some (st_room_id r)"

fun request_request_id :: "validated_request \<Rightarrow> uuid option" where
  "request_request_id (SessionAuthenticate r) = None"
| "request_request_id (Join r) = Some (jn_request_id r)"
| "request_request_id (ChatSend r) = Some (cs_request_id r)"
| "request_request_id (DecisionPropose r) = Some (dp_request_id r)"
| "request_request_id (DecisionTransition r) = Some (dt_request_id r)"
| "request_request_id (DecisionDelete r) = Some (dd_request_id r)"
| "request_request_id (AgentTaskStart r) = Some (st_request_id r)"

subsection \<open>Writers\<close>

fun alias_str :: "chat_mention_alias \<Rightarrow> string" where
  "alias_str AllHumans = ''allhumans''"
| "alias_str AllAgents = ''allagents''"

fun mention_json :: "ext \<Rightarrow> chat_mention \<Rightarrow> json" where
  "mention_json E (Participant i t) =
     jobj [(''type'', JStr ''participant''), (''id'', juuid E i), (''token'', JStr t)]"
| "mention_json E (Alias a) = jobj [(''type'', JStr ''alias''), (''alias'', JStr (alias_str a))]"

fun delivery_str :: "chat_delivery \<Rightarrow> string" where
  "delivery_str Room = ''room''"
| "delivery_str Mentioned = ''mentioned''"

fun action_str :: "decision_action \<Rightarrow> string" where
  "action_str Confirm = ''confirm''"
| "action_str Edit = ''edit''"
| "action_str Dismiss = ''dismiss''"

abbreviation mentions_json :: "ext \<Rightarrow> chat_mention list \<Rightarrow> json" where
  "mentions_json E ms \<equiv> JArr (map (mention_json E) ms)"

fun fingerprint :: "ext \<Rightarrow> validated_request \<Rightarrow> json" where
  "fingerprint E (ChatSend r) = jobj [
     (''method'', JStr ''chat.send''),
     (''contractVersion'', JStr (cs_contract_version r)),
     (''requestId'', juuid E (cs_request_id r)),
     (''roomId'', juuid E (cs_room_id r)),
     (''occurredAt'', jtime E (cs_occurred_at r)),
     (''text'', JStr (cs_text r)),
     (''mentions'', mentions_json E (cs_mentions r)),
     (''delivery'', JStr (delivery_str (cs_delivery r)))]"
| "fingerprint E (DecisionPropose r) = jobj [
     (''method'', JStr ''decision.propose''),
     (''contractVersion'', JStr (dp_contract_version r)),
     (''requestId'', juuid E (dp_request_id r)),
     (''roomId'', juuid E (dp_room_id r)),
     (''occurredAt'', jtime E (dp_occurred_at r)),
     (''title'', JStr (dp_title r)),
     (''summary'', JStr (dp_summary r)),
     (''sourceEventIds'', juuids E (dp_source_event_ids r))]"
| "fingerprint E (DecisionTransition r) = jobj [
     (''method'', JStr ''decision.transition''),
     (''contractVersion'', JStr (dt_contract_version r)),
     (''requestId'', juuid E (dt_request_id r)),
     (''roomId'', juuid E (dt_room_id r)),
     (''occurredAt'', jtime E (dt_occurred_at r)),
     (''decisionId'', juuid E (dt_decision_id r)),
     (''action'', JStr (action_str (dt_action r))),
     (''editedTitle'', jopt JStr (dt_edited_title r)),
     (''editedSummary'', jopt JStr (dt_edited_summary r))]"
| "fingerprint E (DecisionDelete r) = jobj [
     (''method'', JStr ''decision.delete''),
     (''contractVersion'', JStr (dd_contract_version r)),
     (''requestId'', juuid E (dd_request_id r)),
     (''roomId'', juuid E (dd_room_id r)),
     (''occurredAt'', jtime E (dd_occurred_at r)),
     (''decisionId'', juuid E (dd_decision_id r))]"
| "fingerprint E (AgentTaskStart r) = jobj [
     (''method'', JStr ''agent.task.start''),
     (''contractVersion'', JStr (st_contract_version r)),
     (''requestId'', juuid E (st_request_id r)),
     (''roomId'', juuid E (st_room_id r)),
     (''occurredAt'', jtime E (st_occurred_at r)),
     (''agentId'', juuid E (st_agent_id r)),
     (''skillId'', JStr (skill_str (st_skill_id r))),
     (''input'', JStr (st_input r))]"
| "fingerprint E (Join r) = jobj [
     (''method'', JStr ''room.join''),
     (''contractVersion'', JStr (jn_contract_version r)),
     (''requestId'', juuid E (jn_request_id r)),
     (''roomId'', juuid E (jn_room_id r)),
     (''occurredAt'', jtime E (jn_occurred_at r)),
     (''afterSequence'', jopt JInt (jn_after_sequence r))]"
| "fingerprint E (SessionAuthenticate r) = JNull" \<comment> \<open>\<open>unreachable!\<close>: see \<open>process\<close>\<close>

subsection \<open>Readers\<close>

definition de_uuid :: "ext \<Rightarrow> json \<Rightarrow> uuid option" where
  "de_uuid E v = Option.bind (as_str v) (uuid_parse E)"

definition de_time :: "ext \<Rightarrow> json \<Rightarrow> timestamp option" where
  "de_time E v = Option.bind (as_str v) (time_de E)"

definition de_alias :: "json \<Rightarrow> chat_mention_alias option" where
  "de_alias v = (if v = JStr ''allhumans'' then Some AllHumans
     else if v = JStr ''allagents'' then Some AllAgents else None)"

definition de_mention :: "ext \<Rightarrow> json \<Rightarrow> chat_mention option" where
  "de_mention E v =
     (if jget v ''type'' = Some (JStr ''participant'') then
        (if only_keys [''type'', ''id'', ''token''] v then
           Option.bind (req_field (de_uuid E) v ''id'') (\<lambda>i.
           Option.bind (req_field as_str v ''token'') (\<lambda>t. Some (Participant i t)))
         else None)
      else if jget v ''type'' = Some (JStr ''alias'') then
        (if only_keys [''type'', ''alias''] v then map_option Alias (req_field de_alias v ''alias'') else None)
      else None)"

definition de_delivery :: "json \<Rightarrow> chat_delivery option" where
  "de_delivery v = (if v = JStr ''room'' then Some Room
     else if v = JStr ''mentioned'' then Some Mentioned else None)"

definition de_action :: "json \<Rightarrow> decision_action option" where
  "de_action v = (if v = JStr ''confirm'' then Some Confirm else if v = JStr ''edit'' then Some Edit
     else if v = JStr ''dismiss'' then Some Dismiss else None)"

definition de_skill :: "json \<Rightarrow> agent_skill_id option" where
  "de_skill v = (if v = JStr ''summarize-context'' then Some SummarizeContext
     else if v = JStr ''extract-action-items'' then Some ExtractActionItems else None)"

abbreviation envelope_keys :: "string list" where
  "envelope_keys \<equiv> [''id'', ''contractVersion'', ''requestId'', ''roomId'', ''occurredAt'']"

definition de_envelope :: "ext \<Rightarrow> json \<Rightarrow> (string \<times> string \<times> uuid \<times> uuid \<times> timestamp) option" where
  \<comment> \<open>the five leading fields that all room requests share\<close>
  "de_envelope E v =
     Option.bind (req_field as_str v ''id'') (\<lambda>i.
     Option.bind (req_field as_str v ''contractVersion'') (\<lambda>c.
     Option.bind (req_field (de_uuid E) v ''requestId'') (\<lambda>q.
     Option.bind (req_field (de_uuid E) v ''roomId'') (\<lambda>r.
     Option.bind (req_field (de_time E) v ''occurredAt'') (\<lambda>t. Some (i, c, q, r, t))))))"

definition de_session_authenticate :: "json \<Rightarrow> session_authenticate option" where
  "de_session_authenticate v =
     (if only_keys [''id'', ''accessToken''] v then
        Option.bind (req_field as_str v ''id'') (\<lambda>i.
        Option.bind (req_field as_str v ''accessToken'') (\<lambda>t.
          Some \<lparr>sa_id = i, sa_access_token = t\<rparr>))
      else None)"

definition de_join :: "ext \<Rightarrow> json \<Rightarrow> join option" where
  "de_join E v =
     (if only_keys (envelope_keys @ [''afterSequence'']) v then
        Option.bind (de_envelope E v) (\<lambda>(i, c, q, r, t).
        Option.bind (opt_field as_i64 v ''afterSequence'') (\<lambda>a.
          Some \<lparr>jn_id = i, jn_contract_version = c, jn_request_id = q, jn_room_id = r,
                jn_occurred_at = t, jn_after_sequence = a\<rparr>))
      else None)"

definition de_chat_send :: "ext \<Rightarrow> json \<Rightarrow> chat_send option" where
  "de_chat_send E v =
     (if only_keys (envelope_keys @ [''text'', ''mentions'', ''delivery'']) v then
        Option.bind (de_envelope E v) (\<lambda>(i, c, q, r, t).
        Option.bind (req_field as_str v ''text'') (\<lambda>x.
        Option.bind (default_field (de_vec (de_mention E)) [] v ''mentions'') (\<lambda>ms.
        Option.bind (default_field de_delivery Room v ''delivery'') (\<lambda>d.
          Some \<lparr>cs_id = i, cs_contract_version = c, cs_request_id = q, cs_room_id = r,
                cs_occurred_at = t, cs_text = x, cs_mentions = ms, cs_delivery = d\<rparr>))))
      else None)"

definition de_decision_propose :: "ext \<Rightarrow> json \<Rightarrow> decision_propose option" where
  "de_decision_propose E v =
     (if only_keys (envelope_keys @ [''title'', ''summary'', ''sourceEventIds'']) v then
        Option.bind (de_envelope E v) (\<lambda>(i, c, q, r, t).
        Option.bind (req_field as_str v ''title'') (\<lambda>x.
        Option.bind (req_field as_str v ''summary'') (\<lambda>s.
        Option.bind (req_field (de_vec (de_uuid E)) v ''sourceEventIds'') (\<lambda>ids.
          Some \<lparr>dp_id = i, dp_contract_version = c, dp_request_id = q, dp_room_id = r,
                dp_occurred_at = t, dp_title = x, dp_summary = s, dp_source_event_ids = ids\<rparr>))))
      else None)"

definition de_decision_transition :: "ext \<Rightarrow> json \<Rightarrow> decision_transition option" where
  "de_decision_transition E v =
     (if only_keys (envelope_keys @ [''decisionId'', ''action'', ''editedTitle'', ''editedSummary'']) v then
        Option.bind (de_envelope E v) (\<lambda>(i, c, q, r, t).
        Option.bind (req_field (de_uuid E) v ''decisionId'') (\<lambda>d.
        Option.bind (req_field de_action v ''action'') (\<lambda>a.
        Option.bind (opt_field as_str v ''editedTitle'') (\<lambda>x.
        Option.bind (opt_field as_str v ''editedSummary'') (\<lambda>s.
          Some \<lparr>dt_id = i, dt_contract_version = c, dt_request_id = q, dt_room_id = r,
                dt_occurred_at = t, dt_decision_id = d, dt_action = a, dt_edited_title = x,
                dt_edited_summary = s\<rparr>)))))
      else None)"

definition de_decision_delete :: "ext \<Rightarrow> json \<Rightarrow> decision_delete option" where
  "de_decision_delete E v =
     (if only_keys (envelope_keys @ [''decisionId'']) v then
        Option.bind (de_envelope E v) (\<lambda>(i, c, q, r, t).
        Option.bind (req_field (de_uuid E) v ''decisionId'') (\<lambda>d.
          Some \<lparr>dd_id = i, dd_contract_version = c, dd_request_id = q, dd_room_id = r,
                dd_occurred_at = t, dd_decision_id = d\<rparr>))
      else None)"

definition de_agent_task_start :: "ext \<Rightarrow> json \<Rightarrow> agent_task_start option" where
  "de_agent_task_start E v =
     (if only_keys (envelope_keys @ [''agentId'', ''skillId'', ''input'']) v then
        Option.bind (de_envelope E v) (\<lambda>(i, c, q, r, t).
        Option.bind (req_field (de_uuid E) v ''agentId'') (\<lambda>a.
        Option.bind (req_field de_skill v ''skillId'') (\<lambda>s.
        Option.bind (req_field as_str v ''input'') (\<lambda>x.
          Some \<lparr>st_id = i, st_contract_version = c, st_request_id = q, st_room_id = r,
                st_occurred_at = t, st_agent_id = a, st_skill_id = s, st_input = x\<rparr>))))
      else None)"

definition deserialize_request :: "(json \<Rightarrow> 'a option) \<Rightarrow> json \<Rightarrow> string \<Rightarrow> rpc_error + 'a" where
  "deserialize_request de params i = ok_or Invalid_request (de (jset params ''id'' (JStr i)))"

abbreviation rpc_methods :: "string list" where
  "rpc_methods \<equiv> [''session.authenticate'', ''room.join'', ''chat.send'', ''decision.propose'',
     ''decision.transition'', ''decision.delete'', ''agent.task.start'']"

definition read_params :: "ext \<Rightarrow> string \<Rightarrow> json \<Rightarrow> string \<Rightarrow> rpc_error + validated_request" where
  "read_params E meth params i =
     (if meth = ''session.authenticate'' then
        rbind (deserialize_request de_session_authenticate params i) (Inr \<circ> SessionAuthenticate)
      else if meth = ''room.join'' then rbind (deserialize_request (de_join E) params i) (Inr \<circ> Join)
      else if meth = ''chat.send'' then
        rbind (deserialize_request (de_chat_send E) params i) (Inr \<circ> ChatSend)
      else if meth = ''decision.propose'' then
        rbind (deserialize_request (de_decision_propose E) params i) (Inr \<circ> DecisionPropose)
      else if meth = ''decision.transition'' then
        rbind (deserialize_request (de_decision_transition E) params i) (Inr \<circ> DecisionTransition)
      else if meth = ''decision.delete'' then
        rbind (deserialize_request (de_decision_delete E) params i) (Inr \<circ> DecisionDelete)
      else if meth = ''agent.task.start'' then
        rbind (deserialize_request (de_agent_task_start E) params i) (Inr \<circ> AgentTaskStart)
      else Inl Unknown_method)"

definition check_version :: "string \<Rightarrow> json \<Rightarrow> rpc_error + unit" where
  "check_version meth params =
     (if meth = ''session.authenticate'' then Inr ()
      else case jget params ''contractVersion'' of
             Some (JStr v) \<Rightarrow> if v \<noteq> ''n2n.room.v1'' then Inl Unsupported_contract_version else Inr ()
           | _ \<Rightarrow> Inl Invalid_request)"

definition validate_request :: "ext \<Rightarrow> string \<Rightarrow> rpc_error + validated_request" where
  "validate_request E request =
     rbind (ok_or Invalid_request (json_parse E request)) (\<lambda>v.
     rbind (ok_or Invalid_request (as_object v)) (\<lambda>_.
     rbind (ensure Invalid_request (jget_str v ''jsonrpc'' = Some ''2.0'')) (\<lambda>_.
     rbind (ok_or Invalid_request (jget_str v ''id'')) (\<lambda>i.
     rbind (ensure Invalid_request (i \<noteq> [])) (\<lambda>_.
     rbind (ok_or Invalid_request (Option.bind (jget v ''params'') as_object)) (\<lambda>fs.
     rbind (ok_or Invalid_request (jget_str v ''method'')) (\<lambda>meth.
     rbind (ensure Unknown_method (meth \<in> set rpc_methods)) (\<lambda>_.
     rbind (check_version meth (JObj fs)) (\<lambda>_.
     rbind (ensure Invalid_request (rpc_schema E v)) (\<lambda>_.
       read_params E meth (JObj fs) i))))))))))"

subsection \<open>Outgoing events\<close>

fun mentions_unique :: "json list \<Rightarrow> string set \<Rightarrow> string set \<Rightarrow> bool" where
  \<comment> \<open>the \<open>all\<close> over the mentions, with the two sets it fills\<close>
  "mentions_unique [] ids als = True"
| "mentions_unique (x # xs) ids als =
     (case jget_str x ''type'' of
        Some k \<Rightarrow>
          if k = ''participant'' then
            (case jget_str x ''id'' of
               None \<Rightarrow> False | Some i \<Rightarrow> i \<notin> ids \<and> mentions_unique xs (insert i ids) als)
          else if k = ''alias'' then
            (case jget_str x ''alias'' of
               None \<Rightarrow> False | Some a \<Rightarrow> a \<notin> als \<and> mentions_unique xs ids (insert a als))
          else False
      | None \<Rightarrow> False)"

definition message_mentions_are_unique :: "json \<Rightarrow> bool" where
  "message_mentions_are_unique event =
     (if jget_str event ''eventType'' \<noteq> Some ''message.created'' then True
      else case Option.bind (Option.bind (jget event ''payload'') (\<lambda>p. jget p ''mentions'')) as_array of
             None \<Rightarrow> True
           | Some mentions \<Rightarrow> mentions_unique mentions {} {})"

definition is_valid_room_event :: "ext \<Rightarrow> uuid \<Rightarrow> new_event \<Rightarrow> bool" where
  "is_valid_room_event E event_id event =
     (let v = jobj [
        (''contractVersion'', JStr ''n2n.room.v1''),
        (''requestId'', juuid E (ne_request_id event)),
        (''roomId'', juuid E (ne_room_id event)),
        (''occurredAt'', jtime E (ne_occurred_at event)),
        (''sequence'', JInt 1),
        (''eventId'', juuid E event_id),
        (''eventType'', JStr (ne_event_type event)),
        (''actor'', jobj [(''id'', juuid E (ne_actor_id event)), (''role'', JStr (ne_actor_role event))]),
        (''payload'', ne_payload event)]
      in event_schema E v \<and> message_mentions_are_unique v)"

subsection \<open>Fingerprints\<close>

fun without_rpc_id :: "validated_request \<Rightarrow> validated_request" where
  "without_rpc_id (SessionAuthenticate r) = SessionAuthenticate (r\<lparr>sa_id := []\<rparr>)"
| "without_rpc_id (Join r) = Join (r\<lparr>jn_id := []\<rparr>)"
| "without_rpc_id (ChatSend r) = ChatSend (r\<lparr>cs_id := []\<rparr>)"
| "without_rpc_id (DecisionPropose r) = DecisionPropose (r\<lparr>dp_id := []\<rparr>)"
| "without_rpc_id (DecisionTransition r) = DecisionTransition (r\<lparr>dt_id := []\<rparr>)"
| "without_rpc_id (DecisionDelete r) = DecisionDelete (r\<lparr>dd_id := []\<rparr>)"
| "without_rpc_id (AgentTaskStart r) = AgentTaskStart (r\<lparr>st_id := []\<rparr>)"

lemma alias_str_inject: "alias_str a = alias_str b \<longleftrightarrow> a = b"
  by (cases a; cases b) simp_all

lemma delivery_str_inject: "delivery_str a = delivery_str b \<longleftrightarrow> a = b"
  by (cases a; cases b) simp_all

lemma action_str_inject: "action_str a = action_str b \<longleftrightarrow> a = b"
  by (cases a; cases b) simp_all

lemma jopt_str_inject: "jopt JStr a = jopt JStr b \<longleftrightarrow> a = b"
  by (cases a; cases b) simp_all

lemma jopt_int_inject: "jopt JInt a = jopt JInt b \<longleftrightarrow> a = b"
  by (cases a; cases b) simp_all

lemmas vocabulary_inject = alias_str_inject delivery_str_inject action_str_inject skill_str_inject
  jopt_str_inject jopt_int_inject

lemma juuid_inject: "uuid_ok E \<Longrightarrow> uuid_text E u = uuid_text E v \<longleftrightarrow> u = v"
  by (rule uuid_format.to_text_inject)

lemma jtime_inject: "time_ok E \<Longrightarrow> time_text E s = time_text E t \<longleftrightarrow> s = t"
  by (rule time_format.time_text_inject)

lemma mention_json_inject:
  assumes "uuid_ok E"
  shows "mention_json E a = mention_json E b \<longleftrightarrow> a = b"
proof -
  have "mention_json E a \<noteq> mention_json E b" if "jidx (mention_json E a) ''type'' \<noteq> jidx (mention_json E b) ''type''"
    using that by auto
  then show ?thesis
    by (cases a; cases b)
       (simp_all add: jobj_inject juuid_inject [OF assms] vocabulary_inject wire_simps)
qed

lemma mentions_json_inject:
  "uuid_ok E \<Longrightarrow> map (mention_json E) xs = map (mention_json E) ys \<longleftrightarrow> xs = ys"
  by (rule inj_map_eq_map) (simp add: inj_def mention_json_inject)

lemma juuids_inject: "uuid_ok E \<Longrightarrow> map (juuid E) xs = map (juuid E) ys \<longleftrightarrow> xs = ys"
  by (rule inj_map_eq_map) (simp add: inj_def juuid_inject)

fun request_method :: "validated_request \<Rightarrow> string" where
  "request_method (SessionAuthenticate r) = ''session.authenticate''"
| "request_method (Join r) = ''room.join''"
| "request_method (ChatSend r) = ''chat.send''"
| "request_method (DecisionPropose r) = ''decision.propose''"
| "request_method (DecisionTransition r) = ''decision.transition''"
| "request_method (DecisionDelete r) = ''decision.delete''"
| "request_method (AgentTaskStart r) = ''agent.task.start''"

lemma fingerprint_method:
  "request_room_id r \<noteq> None \<Longrightarrow> jget (fingerprint E r) ''method'' = Some (JStr (request_method r))"
  by (cases r) simp_all

lemma fingerprint_same_method:
  assumes "request_room_id r \<noteq> None" "request_room_id r' \<noteq> None" "fingerprint E r = fingerprint E r'"
  shows "request_method r = request_method r'"
  using fingerprint_method [OF assms(1), of E] fingerprint_method [OF assms(2), of E] assms(3) by simp


lemma fingerprint_inject:
  assumes "uuid_ok E" "time_ok E" "request_room_id r \<noteq> None" "request_room_id r' \<noteq> None"
  shows "fingerprint E r = fingerprint E r' \<longleftrightarrow> without_rpc_id r = without_rpc_id r'"
proof
  assume eq: "fingerprint E r = fingerprint E r'"
  have m: "request_method r = request_method r'"
    using assms(3,4) eq by (rule fingerprint_same_method)
  note inject = jobj_inject juuid_inject [OF assms(1)] jtime_inject [OF assms(2)]
    mentions_json_inject [OF assms(1)] juuids_inject [OF assms(1)] vocabulary_inject
  show "without_rpc_id r = without_rpc_id r'"
    using m eq assms(3,4) by (cases r; cases r') (simp_all add: inject)
next
  assume eq: "without_rpc_id r = without_rpc_id r'"
  have "fingerprint E (without_rpc_id q) = fingerprint E q" for q
    by (cases q) simp_all
  with eq show "fingerprint E r = fingerprint E r'" by metis
qed


lemma exact_fingerprint: "exact (fingerprint E r)"
proof -
  have "exact (mention_json E m)" for m
    by (cases m) (simp_all add: exact_jobj)
  moreover have "exact (jopt JStr s)" "exact (jopt JInt n)" for s n
    by (simp_all add: exact_jopt)
  ultimately show ?thesis
    by (cases r) (simp_all add: exact_jobj)
qed

subsection \<open>Reading what was written\<close>

abbreviation envelope_fields :: "ext \<Rightarrow> string \<Rightarrow> uuid \<Rightarrow> uuid \<Rightarrow> timestamp \<Rightarrow> (string \<times> json) list" where
  "envelope_fields E c q r t \<equiv> [(''contractVersion'', JStr c), (''requestId'', juuid E q),
     (''roomId'', juuid E r), (''occurredAt'', jtime E t)]"

fun wire_params :: "ext \<Rightarrow> validated_request \<Rightarrow> (string \<times> json) list" where
  "wire_params E (SessionAuthenticate r) = [(''accessToken'', JStr (sa_access_token r))]"
| "wire_params E (Join r) =
     envelope_fields E (jn_contract_version r) (jn_request_id r) (jn_room_id r) (jn_occurred_at r) @
     [(''afterSequence'', jopt JInt (jn_after_sequence r))]"
| "wire_params E (ChatSend r) =
     envelope_fields E (cs_contract_version r) (cs_request_id r) (cs_room_id r) (cs_occurred_at r) @
     [(''text'', JStr (cs_text r)), (''mentions'', mentions_json E (cs_mentions r)),
      (''delivery'', JStr (delivery_str (cs_delivery r)))]"
| "wire_params E (DecisionPropose r) =
     envelope_fields E (dp_contract_version r) (dp_request_id r) (dp_room_id r) (dp_occurred_at r) @
     [(''title'', JStr (dp_title r)), (''summary'', JStr (dp_summary r)),
      (''sourceEventIds'', juuids E (dp_source_event_ids r))]"
| "wire_params E (DecisionTransition r) =
     envelope_fields E (dt_contract_version r) (dt_request_id r) (dt_room_id r) (dt_occurred_at r) @
     [(''decisionId'', juuid E (dt_decision_id r)), (''action'', JStr (action_str (dt_action r))),
      (''editedTitle'', jopt JStr (dt_edited_title r)), (''editedSummary'', jopt JStr (dt_edited_summary r))]"
| "wire_params E (DecisionDelete r) =
     envelope_fields E (dd_contract_version r) (dd_request_id r) (dd_room_id r) (dd_occurred_at r) @
     [(''decisionId'', juuid E (dd_decision_id r))]"
| "wire_params E (AgentTaskStart r) =
     envelope_fields E (st_contract_version r) (st_request_id r) (st_room_id r) (st_occurred_at r) @
     [(''agentId'', juuid E (st_agent_id r)), (''skillId'', JStr (skill_str (st_skill_id r))),
      (''input'', JStr (st_input r))]"

definition wire_request :: "ext \<Rightarrow> validated_request \<Rightarrow> json" where
  "wire_request E r = jobj [(''jsonrpc'', JStr ''2.0''), (''id'', JStr (request_rpc_id r)),
     (''method'', JStr (request_method r)), (''params'', jobj (wire_params E r))]"

fun request_version :: "validated_request \<Rightarrow> string" where
  "request_version (SessionAuthenticate r) = ''n2n.room.v1''"
| "request_version (Join r) = jn_contract_version r"
| "request_version (ChatSend r) = cs_contract_version r"
| "request_version (DecisionPropose r) = dp_contract_version r"
| "request_version (DecisionTransition r) = dt_contract_version r"
| "request_version (DecisionDelete r) = dd_contract_version r"
| "request_version (AgentTaskStart r) = st_contract_version r"

fun sequence_in_range :: "validated_request \<Rightarrow> bool" where
  "sequence_in_range (Join r) =
     (case jn_after_sequence r of None \<Rightarrow> True | Some n \<Rightarrow> i64_min \<le> n \<and> n \<le> i64_max)"
| "sequence_in_range _ = True"

lemma de_uuid_juuid: "uuid_ok E \<Longrightarrow> de_uuid E (juuid E u) = Some u"
  by (simp add: de_uuid_def uuid_format.parse_to_text)

lemma de_time_jtime: "time_ok E \<Longrightarrow> de_time E (jtime E t) = Some t"
  by (simp add: de_time_def time_format.de_to_text)

lemma de_mention_json: "uuid_ok E \<Longrightarrow> de_mention E (mention_json E m) = Some m"
proof (cases m)
  case (Alias a)
  then show ?thesis
    by (cases a) (simp_all add: de_mention_def only_keys_jobj req_field_def de_alias_def)
qed (simp add: de_mention_def only_keys_jobj req_field_def de_uuid_juuid)

lemma de_mentions_json: "uuid_ok E \<Longrightarrow> de_vec (de_mention E) (mentions_json E ms) = Some ms"
  using opt_all_map [of ms "de_mention E" "mention_json E" id] by (simp add: de_vec_def de_mention_json)

lemma de_uuids_json: "uuid_ok E \<Longrightarrow> de_vec (de_uuid E) (juuids E us) = Some us"
  using opt_all_map [of us "de_uuid E" "juuid E" id] by (simp add: de_vec_def de_uuid_juuid)

lemma de_delivery_str: "de_delivery (JStr (delivery_str d)) = Some d"
  by (cases d) (simp_all add: de_delivery_def)

lemma de_action_str: "de_action (JStr (action_str a)) = Some a"
  by (cases a) (simp_all add: de_action_def)

lemma de_skill_str: "de_skill (JStr (skill_str s)) = Some s"
  by (cases s) (simp_all add: de_skill_def)

lemma opt_str_jopt: "(if is_null (jopt JStr s) then Some None else map_option Some (as_str (jopt JStr s))) = Some s"
  by (cases s) simp_all

lemma opt_int_jopt:
  "case_option True (\<lambda>n. i64_min \<le> n \<and> n \<le> i64_max) n \<Longrightarrow>
   (if is_null (jopt JInt n) then Some None else map_option Some (as_i64 (jopt JInt n))) = Some n"
  by (cases n) simp_all

lemma read_params_wire:
  assumes "uuid_ok E" "time_ok E" "sequence_in_range r"
  shows "read_params E (request_method r) (jobj (wire_params E r)) (request_rpc_id r) = Inr r"
proof -
  note reads = de_uuid_juuid [OF assms(1)] de_time_jtime [OF assms(2)] de_mentions_json [OF assms(1)]
    de_uuids_json [OF assms(1)] de_delivery_str de_action_str de_skill_str opt_str_jopt opt_int_jopt
    req_field_def opt_field_def default_field_def de_envelope_def
  show ?thesis
    using assms(3)
    by (cases r)
       (simp_all add: read_params_def deserialize_request_def jset_jobj only_keys_jobj reads
          de_session_authenticate_def de_join_def de_chat_send_def de_decision_propose_def
          de_decision_transition_def de_decision_delete_def de_agent_task_start_def)
qed


lemma wire_params_version:
  "request_method r \<noteq> ''session.authenticate'' \<Longrightarrow>
   jget (jobj (wire_params E r)) ''contractVersion'' = Some (JStr (request_version r))"
  by (cases r) simp_all

lemma request_method_known: "request_method r \<in> set rpc_methods"
  by (cases r) simp_all

lemma as_object_jobj_eq: "as_object (jobj kvs) = Some fs \<longleftrightarrow> jobj kvs = JObj fs"
  by (simp add: jobj_def)

lemma deserialize_Inr: "deserialize_request de p i = Inr x \<longleftrightarrow> de (jset p ''id'' (JStr i)) = Some x"
  by (simp add: deserialize_request_def result_simps)

lemma de_envelope_Some:
  "de_envelope E v = Some (i, c, q, r, t) \<Longrightarrow>
     jget v ''id'' = Some (JStr i) \<and> jget v ''contractVersion'' = Some (JStr c)"
  by (auto simp: de_envelope_def req_field_def Option.bind_eq_Some_conv elim!: as_str.elims)

lemma read_params_fields:
  assumes "read_params E meth (JObj fs) i = Inr r" "check_version meth (JObj fs) = Inr ()"
  shows "request_method r = meth \<and> request_rpc_id r = i \<and> request_version r = ''n2n.room.v1''"
proof -
  have idf: "jget (jset (JObj fs) ''id'' (JStr i)) ''id'' = Some (JStr i)" by simp
  have cf: "jget (jset (JObj fs) ''id'' (JStr i)) ''contractVersion'' = Some (JStr ''n2n.room.v1'')"
    if "meth \<noteq> ''session.authenticate''"
    using assms(2) that
    by (auto simp: check_version_def split: option.splits json.splits if_splits)
  have env: "i' = i \<and> c = ''n2n.room.v1''"
    if "de_envelope E (jset (JObj fs) ''id'' (JStr i)) = Some (i', c, q, rr, t)" "meth \<noteq> ''session.authenticate''"
    for i' c q rr t
    using de_envelope_Some [OF that(1)] idf cf [OF that(2)] by simp
  from assms(1) consider
      x where "meth = ''session.authenticate''" "r = SessionAuthenticate x"
        "de_session_authenticate (jset (JObj fs) ''id'' (JStr i)) = Some x"
    | x where "meth = ''room.join''" "r = Join x" "de_join E (jset (JObj fs) ''id'' (JStr i)) = Some x"
    | x where "meth = ''chat.send''" "r = ChatSend x" "de_chat_send E (jset (JObj fs) ''id'' (JStr i)) = Some x"
    | x where "meth = ''decision.propose''" "r = DecisionPropose x"
        "de_decision_propose E (jset (JObj fs) ''id'' (JStr i)) = Some x"
    | x where "meth = ''decision.transition''" "r = DecisionTransition x"
        "de_decision_transition E (jset (JObj fs) ''id'' (JStr i)) = Some x"
    | x where "meth = ''decision.delete''" "r = DecisionDelete x"
        "de_decision_delete E (jset (JObj fs) ''id'' (JStr i)) = Some x"
    | x where "meth = ''agent.task.start''" "r = AgentTaskStart x"
        "de_agent_task_start E (jset (JObj fs) ''id'' (JStr i)) = Some x"
    unfolding read_params_def
    by (auto simp: result_simps deserialize_Inr simp del: jset.simps split: if_splits)
  then show ?thesis
  proof cases
    case 1
    then show ?thesis
      using idf by (auto simp: de_session_authenticate_def req_field_def Option.bind_eq_Some_conv
          simp del: jset.simps split: if_splits)
  next
    case 2
    then show ?thesis
      using env by (auto simp: de_join_def Option.bind_eq_Some_conv simp del: jset.simps split: if_splits)
  next
    case 3
    then show ?thesis
      using env by (auto simp: de_chat_send_def Option.bind_eq_Some_conv simp del: jset.simps split: if_splits)
  next
    case 4
    then show ?thesis
      using env by (auto simp: de_decision_propose_def Option.bind_eq_Some_conv simp del: jset.simps split: if_splits)
  next
    case 5
    then show ?thesis
      using env by (auto simp: de_decision_transition_def Option.bind_eq_Some_conv simp del: jset.simps split: if_splits)
  next
    case 6
    then show ?thesis
      using env by (auto simp: de_decision_delete_def Option.bind_eq_Some_conv simp del: jset.simps split: if_splits)
  next
    case 7
    then show ?thesis
      using env by (auto simp: de_agent_task_start_def Option.bind_eq_Some_conv simp del: jset.simps split: if_splits)
  qed
qed


subsection \<open>Unique mentions\<close>

definition mentioned_ids :: "chat_mention list \<Rightarrow> uuid list" where
  "mentioned_ids ms = List.map_filter (\<lambda>m. case m of Participant i _ \<Rightarrow> Some i | Alias _ \<Rightarrow> None) ms"

definition mentioned_aliases :: "chat_mention list \<Rightarrow> chat_mention_alias list" where
  "mentioned_aliases ms = List.map_filter (\<lambda>m. case m of Participant _ _ \<Rightarrow> None | Alias a \<Rightarrow> Some a) ms"

lemma mentions_unique_typed:
  assumes "uuid_ok E"
  shows "mentions_unique (map (mention_json E) ms) (uuid_text E ` I) (alias_str ` A) \<longleftrightarrow>
    distinct (mentioned_ids ms) \<and> set (mentioned_ids ms) \<inter> I = {} \<and>
    distinct (mentioned_aliases ms) \<and> set (mentioned_aliases ms) \<inter> A = {}"
proof (induction ms arbitrary: I A)
  case Nil
  then show ?case by (simp add: mentioned_ids_def mentioned_aliases_def)
next
  case (Cons m ms)
  have in_ids: "uuid_text E i \<in> uuid_text E ` I \<longleftrightarrow> i \<in> I" for i
    by (auto simp: juuid_inject [OF assms])
  have in_aliases: "alias_str a \<in> alias_str ` A \<longleftrightarrow> a \<in> A" for a
    by (auto simp: alias_str_inject)
  show ?case
  proof (cases m)
    case (Participant i t)
    with Cons [of "insert i I" A] show ?thesis
      by (auto simp: wire_simps in_ids mentioned_ids_def mentioned_aliases_def)
  next
    case (Alias a)
    with Cons [of I "insert a A"] show ?thesis
      by (auto simp: wire_simps in_aliases mentioned_ids_def mentioned_aliases_def)
  qed
qed

subsection \<open>Properties\<close>

text \<open>
  C36: a typed request written to the wire is read back as itself.  For every request with a non-empty
  JSON-RPC identifier, the supported contract version and a representable sequence number, a text that
  parses to its JSON form and satisfies the pinned schema is validated to exactly that request.
\<close>

theorem validate_request_roundtrip:
  assumes "uuid_ok E" "time_ok E" "json_parse E text = Some (wire_request E r)"
    "rpc_schema E (wire_request E r)" "request_rpc_id r \<noteq> []" "request_version r = ''n2n.room.v1''"
    "sequence_in_range r"
  shows "validate_request E text = Inr r"
proof -
  obtain fs where fs: "jobj (wire_params E r) = JObj fs" by (simp add: jobj_def)
  have "check_version (request_method r) (JObj fs) = Inr ()"
    using wire_params_version [of r E] assms(6) fs by (auto simp: check_version_def)
  moreover have "read_params E (request_method r) (JObj fs) (request_rpc_id r) = Inr r"
    using read_params_wire [OF assms(1,2,7)] fs by simp
  moreover have "\<exists>gs. wire_request E r = JObj gs" by (simp add: wire_request_def jobj_def)
  moreover have "jget_str (wire_request E r) ''jsonrpc'' = Some ''2.0''"
    "jget_str (wire_request E r) ''id'' = Some (request_rpc_id r)"
    "jget_str (wire_request E r) ''method'' = Some (request_method r)"
    "jget (wire_request E r) ''params'' = Some (JObj fs)"
    by (simp_all add: wire_request_def wire_simps fs)
  ultimately show ?thesis
    using assms(3-5) request_method_known [of r] by (auto simp: validate_request_def simp del: jget.simps)
qed

theorem validate_request_roundtrip_witness:
  "\<exists>E r. json_parse E ''text'' = Some (wire_request E r) \<and> r = ChatSend
     \<lparr>cs_id = ''1'', cs_contract_version = ''n2n.room.v1'', cs_request_id = 7, cs_room_id = 8,
      cs_occurred_at = 0, cs_text = ''hi'', cs_mentions = [Alias AllHumans], cs_delivery = Mentioned\<rparr> \<and>
     validate_request E ''text'' = Inr r"
proof -
  define r where "r = ChatSend
     \<lparr>cs_id = ''1'', cs_contract_version = ''n2n.room.v1'', cs_request_id = 7, cs_room_id = 8,
      cs_occurred_at = 0, cs_text = ''hi'', cs_mentions = [Alias AllHumans], cs_delivery = Mentioned\<rparr>"
  define E where "E = sample_ext\<lparr>json_parse := (\<lambda>_. Some (wire_request sample_ext r))\<rparr>"
  have w: "wire_request E r = wire_request sample_ext r"
    by (simp add: E_def r_def wire_request_def)
  have "validate_request E ''text'' = Inr r"
    by (rule validate_request_roundtrip [of E])
       (use uuid_ok_sample time_ok_sample w in \<open>simp_all add: E_def r_def\<close>)
  moreover have "json_parse E ''text'' = Some (wire_request E r)" by (simp add: w) (simp add: E_def)
  ultimately show ?thesis unfolding r_def by blast
qed

text \<open>
  What validation promises.  An accepted text is JSON that satisfies the pinned schema, with a
  non-empty identifier, the method and the identifier of the typed request and, for room requests, the
  supported version.  A refused text gets \<open>Invalid request\<close>, except that an unknown method in a
  well-formed envelope gets \<open>Method not found\<close> and a known room method with another version string
  gets \<open>Unsupported contract version\<close>.
\<close>

theorem validate_request_spec:
  "case validate_request E text of
     Inr r \<Rightarrow> (\<exists>v. json_parse E text = Some v \<and> rpc_schema E v \<and> jget_str v ''jsonrpc'' = Some ''2.0'' \<and>
       jget_str v ''id'' = Some (request_rpc_id r) \<and> request_rpc_id r \<noteq> [] \<and>
       jget_str v ''method'' = Some (request_method r) \<and> request_version r = ''n2n.room.v1'')
   | Inl e \<Rightarrow> e = Invalid_request \<or>
       (\<exists>v i fs meth. json_parse E text = Some v \<and> jget_str v ''jsonrpc'' = Some ''2.0'' \<and>
          jget_str v ''id'' = Some i \<and> i \<noteq> [] \<and> jget v ''params'' = Some (JObj fs) \<and>
          jget_str v ''method'' = Some meth \<and>
          (e = Unknown_method \<and> meth \<notin> set rpc_methods \<or>
           e = Unsupported_contract_version \<and> meth \<in> set rpc_methods \<and> meth \<noteq> ''session.authenticate'' \<and>
             (\<exists>ver. map_of fs ''contractVersion'' = Some (JStr ver) \<and> ver \<noteq> ''n2n.room.v1'')))"
proof (cases "validate_request E text")
  case (Inr r)
  then obtain v i fs meth where v: "json_parse E text = Some v" "rpc_schema E v"
    "jget_str v ''jsonrpc'' = Some ''2.0''" "jget_str v ''id'' = Some i" "i \<noteq> []"
    "jget_str v ''method'' = Some meth" "check_version meth (JObj fs) = Inr ()"
    "read_params E meth (JObj fs) i = Inr r"
    by (auto simp: validate_request_def result_simps)
  with read_params_fields [OF v(8,7)] Inr show ?thesis by auto
next
  case (Inl e)
  have rp: "read_params E meth (JObj fs) i = Inl e' \<Longrightarrow> meth \<in> set rpc_methods \<Longrightarrow> e' = Invalid_request"
    for meth fs i e'
    unfolding read_params_def deserialize_request_def
    by (auto simp: result_simps simp del: jset.simps split: if_splits)
  have cv: "check_version meth (JObj fs) = Inl e' \<Longrightarrow> e' = Invalid_request \<or>
      e' = Unsupported_contract_version \<and> meth \<noteq> ''session.authenticate'' \<and>
      (\<exists>ver. map_of fs ''contractVersion'' = Some (JStr ver) \<and> ver \<noteq> ''n2n.room.v1'')" for meth fs e'
    by (auto simp: check_version_def split: if_splits option.splits json.splits)
  have obj: "as_object x = Some fs \<longleftrightarrow> x = JObj fs" for x fs by (cases x) auto
  define M where "M = set rpc_methods"
  have "e = Invalid_request \<or> (\<exists>v i fs meth. json_parse E text = Some v \<and>
      jget_str v ''jsonrpc'' = Some ''2.0'' \<and> jget_str v ''id'' = Some i \<and> i \<noteq> [] \<and>
      jget v ''params'' = Some (JObj fs) \<and> jget_str v ''method'' = Some meth \<and>
      (e = Unknown_method \<and> meth \<notin> M \<or> meth \<in> M \<and> check_version meth (JObj fs) = Inl e \<or>
       meth \<in> M \<and> read_params E meth (JObj fs) i = Inl e))"
    using Inl unfolding validate_request_def M_def [symmetric]
    by (auto simp only: result_simps obj Option.bind_eq_Some_conv)
  then have "e = Invalid_request \<or>
       (\<exists>v i fs meth. json_parse E text = Some v \<and> jget_str v ''jsonrpc'' = Some ''2.0'' \<and>
          jget_str v ''id'' = Some i \<and> i \<noteq> [] \<and> jget v ''params'' = Some (JObj fs) \<and>
          jget_str v ''method'' = Some meth \<and>
          (e = Unknown_method \<and> meth \<notin> M \<or>
           e = Unsupported_contract_version \<and> meth \<in> M \<and> meth \<noteq> ''session.authenticate'' \<and>
             (\<exists>ver. map_of fs ''contractVersion'' = Some (JStr ver) \<and> ver \<noteq> ''n2n.room.v1'')))"
    using cv rp [folded M_def] by metis
  then show ?thesis unfolding M_def Inl sum.case .
qed

end
