(* ===== verification/Event_Store.thy ===== *)
theory Event_Store
  imports Room_Protocol
begin

text \<open>
  The append-only event log and the request ledger of \<open>src/store.rs\<close>: allocation of the next
  room-local sequence, replay after a sequence, the lookup of a prior request with the events it
  produced, and its recording.  The locale \<open>sequenced_log\<close> states what the rest of the gateway relies
  on; it is interpreted on \<open>append_event_in_transaction\<close>.  \<open>Uuid::new_v4()\<close> is an argument.
\<close>

definition append_event_in_transaction ::
  "ext \<Rightarrow> uuid \<Rightarrow> new_event \<Rightarrow> db \<Rightarrow> store_error + (room_event \<times> db)" where
  "append_event_in_transaction E event_id event d =
     (if \<not> is_valid_room_event E event_id event then Inl InvalidEvent
      else
        rbind (ok_or Database (jsonb E (ne_payload event))) (\<lambda>payload.
        let sequence = max_key ev_sequence (filter (\<lambda>e. ev_room_id e = ne_room_id event) (room_events d)) + 1;
            row = \<lparr>ev_event_id = event_id, ev_room_id = ne_room_id event, ev_sequence = sequence,
                   ev_request_id = ne_request_id event, ev_event_type = ne_event_type event,
                   ev_actor_id = ne_actor_id event, ev_actor_role = ne_actor_role event,
                   ev_actor_display_name = ne_actor_display_name event, ev_payload = payload,
                   ev_occurred_at = pg_time E (ne_occurred_at event)\<rparr>
        in rbind (ensure Database
                   (sequence \<le> i64_max \<and> event_id \<notin> ev_event_id ` set (room_events d) \<and>
                    text_ok (ne_event_type event) \<and> text_ok (ne_actor_role event) \<and>
                    case_option True text_ok (ne_actor_display_name event))) (\<lambda>_.
             Inr (row, d\<lparr>room_events := room_events d @ [row]\<rparr>))))"

definition append_event :: "ext \<Rightarrow> uuid \<Rightarrow> new_event \<Rightarrow> db \<Rightarrow> store_error + (room_event \<times> db)" where
  "append_event E event_id event d = append_event_in_transaction E event_id event d"

definition events_after :: "uuid \<Rightarrow> int \<Rightarrow> db \<Rightarrow> room_event list" where
  "events_after room_id after_sequence d =
     by_sequence (filter (\<lambda>e. ev_room_id e = room_id \<and> ev_sequence e > after_sequence) (room_events d))"

definition events_by_id :: "uuid list \<Rightarrow> db \<Rightarrow> room_event list" where
  "events_by_id event_ids d = by_sequence (filter (\<lambda>e. ev_event_id e \<in> set event_ids) (room_events d))"

definition prior_request :: "uuid \<Rightarrow> uuid \<Rightarrow> db \<Rightarrow> (json \<times> room_event list) option" where
  "prior_request room_id request_id d =
     map_option (\<lambda>r. (rq_fingerprint r, events_by_id (rq_event_ids r) d))
       (find (\<lambda>r. rq_room_id r = room_id \<and> rq_request_id r = request_id) (room_requests d))"

definition record_request ::
  "ext \<Rightarrow> uuid \<Rightarrow> uuid \<Rightarrow> json \<Rightarrow> room_event list \<Rightarrow> db \<Rightarrow> store_error + db" where
  "record_request E room_id request_id fp events d =
     rbind (ok_or Database (jsonb E fp)) (\<lambda>fp.
     rbind (ensure Database
              (find (\<lambda>r. rq_room_id r = room_id \<and> rq_request_id r = request_id) (room_requests d) = None)) (\<lambda>_.
       Inr (d\<lparr>room_requests := room_requests d @
         [\<lparr>rq_room_id = room_id, rq_request_id = request_id, rq_fingerprint = fp,
           rq_event_ids = map ev_event_id events\<rparr>]\<rparr>)))"

definition room_event_count :: "uuid \<Rightarrow> db \<Rightarrow> nat" where
  "room_event_count room_id d = length (filter (\<lambda>e. ev_room_id e = room_id) (room_events d))"

subsection \<open>The log of a room\<close>

definition room_log :: "db \<Rightarrow> uuid \<Rightarrow> room_event list" where
  "room_log d r = filter (\<lambda>e. ev_room_id e = r) (room_events d)"

definition log_ok :: "db \<Rightarrow> bool" where
  "log_ok d \<longleftrightarrow>
     (\<forall>r. map ev_sequence (room_log d r) = [1..int (length (room_log d r))]) \<and>
     distinct (map ev_event_id (room_events d))"

lemma sorted_upto_seq:
  assumes "map f xs = [1..int (length xs)]"
  shows "sorted_wrt (\<lambda>a b. f a < (f b :: int)) xs" and "i < length xs \<Longrightarrow> f (xs ! i) = int i + 1"
proof -
  show "i < length xs \<Longrightarrow> f (xs ! i) = int i + 1"
    using assms by (metis add.commute length_map nth_map nth_upto of_nat_less_iff zless_imp_add1_zle)
  have "sorted_wrt (<) (map f xs)" unfolding assms by (rule sorted_wrt_upto)
  then show "sorted_wrt (\<lambda>a b. f a < f b) xs" by (simp add: sorted_wrt_map)
qed

lemma max_key_upto: "map f xs = [1..int (length xs)] \<Longrightarrow> max_key f xs = int (length xs)"
proof (induction xs rule: rev_induct)
  case (snoc x xs)
  have up: "[1..int (length xs) + 1] = [1..int (length xs)] @ [int (length xs) + 1]"
    by (simp add: upto_rec2)
  with snoc.prems have "map f xs = [1..int (length xs)]" "f x = int (length xs) + 1"
    by (simp_all add: add.commute)
  with snoc.IH show ?case by simp
qed simp

lemma filter_after_upto:
  assumes "map f xs = [1..int (length xs)]"
  shows "filter (\<lambda>x. f x > k) xs = drop (nat k) xs"
proof -
  have at: "\<And>i. i < length xs \<Longrightarrow> f (xs ! i) = int i + 1" by (rule sorted_upto_seq(2) [OF assms])
  have "filter (\<lambda>x. f x > k) (take (nat k) xs) = []"
    using at by (auto simp: filter_empty_conv in_set_conv_nth split: if_splits)
  moreover have "filter (\<lambda>x. f x > k) (drop (nat k) xs) = drop (nat k) xs"
    by (rule filter_True) (use at in \<open>auto simp: in_set_conv_nth split: if_splits\<close>)
  moreover have "filter (\<lambda>x. f x > k) xs =
      filter (\<lambda>x. f x > k) (take (nat k) xs) @ filter (\<lambda>x. f x > k) (drop (nat k) xs)"
    by (metis append_take_drop_id filter_append)
  ultimately show ?thesis by simp
qed

lemma filter_upto_take:
  assumes "map f xs = [1..int (length xs)]"
  shows "filter (\<lambda>x. f x \<le> k) xs = take (nat k) xs"
proof -
  have at: "\<And>i. i < length xs \<Longrightarrow> f (xs ! i) = int i + 1" by (rule sorted_upto_seq(2) [OF assms])
  have "filter (\<lambda>x. f x \<le> k) (take (nat k) xs) = take (nat k) xs"
    by (rule filter_True) (use at in \<open>auto simp: in_set_conv_nth split: if_splits\<close>)
  moreover have "filter (\<lambda>x. f x \<le> k) (drop (nat k) xs) = []"
    using at by (auto simp: filter_empty_conv in_set_conv_nth split: if_splits)
  moreover have "filter (\<lambda>x. f x \<le> k) xs =
      filter (\<lambda>x. f x \<le> k) (take (nat k) xs) @ filter (\<lambda>x. f x \<le> k) (drop (nat k) xs)"
    by (metis append_take_drop_id filter_append)
  ultimately show ?thesis by simp
qed

text \<open>
  What the clients of the log rely on: sequences count from 1 without gaps, and appending adds one
  event at the end of its room's log and nothing elsewhere.
\<close>

locale sequenced_log =
  fixes inv :: "'s \<Rightarrow> bool"
    and entries :: "'s \<Rightarrow> uuid \<Rightarrow> room_event list"
    and add :: "'i \<Rightarrow> 's \<Rightarrow> 'x + (room_event \<times> 's)"
  assumes entries_seq: "inv s \<Longrightarrow> map ev_sequence (entries s r) = [1..int (length (entries s r))]"
    and entries_room: "inv s \<Longrightarrow> e \<in> set (entries s r) \<Longrightarrow> ev_room_id e = r"
    and entries_ids: "inv s \<Longrightarrow> distinct (map ev_event_id (entries s r))"
    and add_inv: "inv s \<Longrightarrow> add i s = Inr (e, s') \<Longrightarrow> inv s'"
    and add_entries: "inv s \<Longrightarrow> add i s = Inr (e, s') \<Longrightarrow>
      entries s' r = entries s r @ (if ev_room_id e = r then [e] else [])"
begin

lemma after_is_drop: "inv s \<Longrightarrow> filter (\<lambda>e. ev_sequence e > k) (entries s r) = drop (nat k) (entries s r)"
  by (rule filter_after_upto) (rule entries_seq)

lemma until_is_take: "inv s \<Longrightarrow> filter (\<lambda>e. ev_sequence e \<le> k) (entries s r) = take (nat k) (entries s r)"
  by (rule filter_upto_take) (rule entries_seq)

lemma entries_sorted: "inv s \<Longrightarrow> sorted_wrt (\<lambda>a b. ev_sequence a < ev_sequence b) (entries s r)"
  by (rule sorted_upto_seq(1)) (rule entries_seq)

lemma entry_at: "inv s \<Longrightarrow> i < length (entries s r) \<Longrightarrow> ev_sequence (entries s r ! i) = int i + 1"
  by (rule sorted_upto_seq(2)) (rule entries_seq)

lemma add_sequence:
  assumes "inv s" "add i s = Inr (e, s')"
  shows "ev_sequence e = int (length (entries s (ev_room_id e))) + 1"
  using entry_at [OF add_inv [OF assms], of "length (entries s (ev_room_id e))" "ev_room_id e"]
    add_entries [OF assms, of "ev_room_id e"]
  by simp

lemma entries_between:
  assumes "inv s" "e \<in> set (entries s r)"
  shows "1 \<le> ev_sequence e \<and> ev_sequence e \<le> int (length (entries s r))"
proof -
  have "ev_sequence e \<in> set (map ev_sequence (entries s r))" using assms(2) by simp
  then show ?thesis unfolding entries_seq [OF assms(1)] by simp
qed

end

lemma append_Inr:
  "append_event_in_transaction E i ev d = Inr (e, d') \<longleftrightarrow>
     is_valid_room_event E i ev \<and>
     (\<exists>payload. jsonb E (ne_payload ev) = Some payload \<and>
        e = \<lparr>ev_event_id = i, ev_room_id = ne_room_id ev,
             ev_sequence = max_key ev_sequence (room_log d (ne_room_id ev)) + 1,
             ev_request_id = ne_request_id ev, ev_event_type = ne_event_type ev,
             ev_actor_id = ne_actor_id ev, ev_actor_role = ne_actor_role ev,
             ev_actor_display_name = ne_actor_display_name ev, ev_payload = payload,
             ev_occurred_at = pg_time E (ne_occurred_at ev)\<rparr>) \<and>
     ev_sequence e \<le> i64_max \<and> i \<notin> ev_event_id ` set (room_events d) \<and>
     text_ok (ne_event_type ev) \<and> text_ok (ne_actor_role ev) \<and>
     case_option True text_ok (ne_actor_display_name ev) \<and>
     d' = d\<lparr>room_events := room_events d @ [e]\<rparr>"
  by (auto simp: append_event_in_transaction_def room_log_def Let_def result_simps)

lemma room_log_append:
  "room_log (d\<lparr>room_events := room_events d @ es\<rparr>) r = room_log d r @ filter (\<lambda>e. ev_room_id e = r) es"
  by (simp add: room_log_def)

lemma log_ok_append:
  assumes "log_ok d" "append_event_in_transaction E i ev d = Inr (e, d')"
  shows "log_ok d'"
proof -
  have seqs: "map ev_sequence (room_log d r) = [1..int (length (room_log d r))]" for r
    using assms(1) by (simp add: log_ok_def)
  from assms(2) have e: "ev_event_id e = i" "i \<notin> ev_event_id ` set (room_events d)"
    "ev_sequence e = max_key ev_sequence (room_log d (ev_room_id e)) + 1"
    "d' = d\<lparr>room_events := room_events d @ [e]\<rparr>"
    by (auto simp: append_Inr)
  have "map ev_sequence (room_log d' r) = [1..int (length (room_log d' r))]" for r
    using seqs [of r] e(3) max_key_upto [OF seqs, of r]
    by (simp add: e(4) room_log_append upto_rec2)
  moreover have "distinct (map ev_event_id (room_events d'))"
    using assms(1) e(1,2) by (simp add: log_ok_def e(4))
  ultimately show ?thesis by (simp add: log_ok_def)
qed

interpretation gateway_log: sequenced_log log_ok room_log "\<lambda>(i, ev). append_event_in_transaction E i ev" for E
proof unfold_locales
  fix d r
  assume "log_ok d"
  then show "map ev_sequence (room_log d r) = [1..int (length (room_log d r))]"
    and "distinct (map ev_event_id (room_log d r))"
    by (simp_all add: log_ok_def room_log_def distinct_map_filter)
next
  fix d r e
  assume "e \<in> set (room_log d r)"
  then show "ev_room_id e = r" by (simp add: room_log_def)
next
  fix d x e d'
  assume "log_ok d" "(case x of (i, ev) \<Rightarrow> append_event_in_transaction E i ev) d = Inr (e, d')"
  then show "log_ok d'" using log_ok_append by (cases x) auto
next
  fix d x e d' r
  assume "(case x of (i, ev) \<Rightarrow> append_event_in_transaction E i ev) d = Inr (e, d')"
  then show "room_log d' r = room_log d r @ (if ev_room_id e = r then [e] else [])"
    by (cases x) (auto simp: append_Inr room_log_append)
qed

subsection \<open>Lookups in the log\<close>

lemma events_after_log: "log_ok d \<Longrightarrow> events_after r k d = drop (nat k) (room_log d r)"
proof -
  assume ok: "log_ok d"
  have "filter (\<lambda>e. ev_room_id e = r \<and> ev_sequence e > k) (room_events d) =
      filter (\<lambda>e. ev_sequence e > k) (room_log d r)"
    unfolding room_log_def filter_filter by (rule filter_cong) auto
  also have "\<dots> = drop (nat k) (room_log d r)" by (rule gateway_log.after_is_drop [OF ok])
  finally have "filter (\<lambda>e. ev_room_id e = r \<and> ev_sequence e > k) (room_events d) = drop (nat k) (room_log d r)" .
  moreover have "by_sequence (drop (nat k) (room_log d r)) = drop (nat k) (room_log d r)"
    by (intro by_sequence_sorted sorted_wrt_drop gateway_log.entries_sorted [OF ok])
  ultimately show ?thesis by (simp add: events_after_def)
qed

lemma room_slice_sorted:
  assumes "log_ok d" "room_events d = a @ es @ b" "\<forall>e \<in> set es. ev_room_id e = r"
  shows "sorted_wrt (\<lambda>x y. ev_sequence x < ev_sequence y) es"
proof -
  have "room_log d r = filter (\<lambda>e. ev_room_id e = r) a @ es @ filter (\<lambda>e. ev_room_id e = r) b"
    using assms(2,3) by (simp add: room_log_def)
  with gateway_log.entries_sorted [OF assms(1), of r] show ?thesis by (simp add: sorted_wrt_append)
qed

text \<open>The events of a request are found again by their identifiers, in the order of the log.\<close>

lemma events_by_id_slice:
  assumes ok: "log_ok d" and split: "room_events d = a @ es @ b" and room: "\<forall>e \<in> set es. ev_room_id e = r"
  shows "events_by_id (map ev_event_id es) d = es"
proof -
  have dist: "distinct (map ev_event_id (a @ es @ b))" using ok split by (simp add: log_ok_def)
  have "filter (\<lambda>e. ev_event_id e \<in> ev_event_id ` set es) a = []"
    "filter (\<lambda>e. ev_event_id e \<in> ev_event_id ` set es) b = []"
    using dist by (auto simp: filter_empty_conv)
  moreover have "filter (\<lambda>e. ev_event_id e \<in> ev_event_id ` set es) es = es"
    by (rule filter_True) auto
  ultimately have "filter (\<lambda>e. ev_event_id e \<in> ev_event_id ` set es) (room_events d) = es"
    by (simp add: split)
  then show ?thesis
    using by_sequence_sorted [OF room_slice_sorted [OF ok split room]] by (simp add: events_by_id_def)
qed

subsection \<open>The request ledger\<close>

text \<open>
  A ledger maps keys to entries that are written once: entering a key that is present fails, and an
  entry never changes afterwards.  \<open>norm\<close> is what the storage makes of an entry.
\<close>

locale ledger =
  fixes lookup :: "'k \<Rightarrow> 's \<Rightarrow> 'v option"
    and enter :: "'k \<Rightarrow> 'v \<Rightarrow> 's \<Rightarrow> 'x + 's"
    and norm :: "'v \<Rightarrow> 'v option"
  assumes enter_lookup: "enter k v s = Inr s' \<Longrightarrow> \<exists>w. norm v = Some w \<and> lookup k s' = Some w"
    and enter_fresh: "enter k v s = Inr s' \<Longrightarrow> lookup k s = None"
    and enter_other: "enter k v s = Inr s' \<Longrightarrow> k' \<noteq> k \<Longrightarrow> lookup k' s' = lookup k' s"
begin

lemma entry_kept: "enter k v s = Inr s' \<Longrightarrow> lookup k' s = Some w \<Longrightarrow> lookup k' s' = Some w"
  using enter_fresh enter_other by (metis option.distinct(1))

lemma entered_twice: "enter k v s = Inr s' \<Longrightarrow> \<exists>x. enter k w s' = Inl x"
proof (cases "enter k w s'")
  case (Inr s'')
  moreover assume "enter k v s = Inr s'"
  ultimately show ?thesis using enter_fresh enter_lookup by fastforce
qed simp

end

definition request_entry :: "uuid \<times> uuid \<Rightarrow> db \<Rightarrow> (json \<times> uuid list) option" where
  "request_entry k d = map_option (\<lambda>r. (rq_fingerprint r, rq_event_ids r))
     (find (\<lambda>r. rq_room_id r = fst k \<and> rq_request_id r = snd k) (room_requests d))"

definition enter_request :: "ext \<Rightarrow> uuid \<times> uuid \<Rightarrow> json \<times> uuid list \<Rightarrow> db \<Rightarrow> store_error + db" where
  "enter_request E k v d =
     rbind (ok_or Database (jsonb E (fst v))) (\<lambda>fp.
     rbind (ensure Database (request_entry k d = None)) (\<lambda>_.
       Inr (d\<lparr>room_requests := room_requests d @
         [\<lparr>rq_room_id = fst k, rq_request_id = snd k, rq_fingerprint = fp, rq_event_ids = snd v\<rparr>]\<rparr>)))"

lemma record_request_enter:
  "record_request E room req fp es d = enter_request E (room, req) (fp, map ev_event_id es) d"
  by (simp add: record_request_def enter_request_def request_entry_def)

lemma prior_request_entry:
  "prior_request room req d = map_option (\<lambda>(fp, ids). (fp, events_by_id ids d)) (request_entry (room, req) d)"
  by (simp add: prior_request_def request_entry_def option.map_comp comp_def)

lemma find_append: "find P (xs @ ys) = (case find P xs of None \<Rightarrow> find P ys | Some x \<Rightarrow> Some x)"
  by (induction xs) auto

interpretation requests: ledger request_entry "enter_request E"
  "\<lambda>(fp, ids). map_option (\<lambda>f. (f, ids)) (jsonb E fp)" for E
  by unfold_locales
     (auto simp: enter_request_def request_entry_def result_simps find_append split: option.splits if_splits)

lemma record_request_Inr:
  assumes "record_request E room req fp es d = Inr d'"
  shows "room_events d' = room_events d" and "decisions d' = decisions d"
    and "agent_tasks d' = agent_tasks d" and "agent_task_updates d' = agent_task_updates d"
    and "request_entry (room, req) d = None"
  using assms requests.enter_fresh [of E "(room, req)"]
  by (auto simp: record_request_def result_simps record_request_enter request_entry_def)

lemma append_frame:
  assumes "append_event_in_transaction E i ev d = Inr (e, d')"
  shows "room_events d' = room_events d @ [e]" and "room_requests d' = room_requests d"
    and "decisions d' = decisions d" and "agent_tasks d' = agent_tasks d"
    and "agent_task_updates d' = agent_task_updates d" and "ev_room_id e = ne_room_id ev"
    and "ev_event_id e = i"
  using assms by (auto simp: append_Inr)

lemma request_entry_frame: "room_requests d' = room_requests d \<Longrightarrow> request_entry k d' = request_entry k d"
  by (simp add: request_entry_def)

lemma log_ok_frame: "room_events d' = room_events d \<Longrightarrow> log_ok d' = log_ok d"
  by (simp add: log_ok_def room_log_def)

subsection \<open>Properties\<close>

text \<open>
  C3: appending is append-only and gap-free.  On a database whose room logs are numbered 1, 2, 3, \<dots>
  with distinct event identifiers, a successful append puts the event at the end of its room's log with
  the next number, leaves every other room's log as it was and keeps the numbering.
\<close>

theorem append_event_sequence:
  assumes "log_ok d" "append_event E i ev d = Inr (e, d')"
  shows "log_ok d' \<and> ev_sequence e = int (room_event_count (ne_room_id ev) d) + 1 \<and>
    room_log d' (ne_room_id ev) = room_log d (ne_room_id ev) @ [e] \<and>
    (\<forall>r. r \<noteq> ne_room_id ev \<longrightarrow> room_log d' r = room_log d r)"
proof -
  have a: "(\<lambda>(i, ev). append_event_in_transaction E i ev) (i, ev) d = Inr (e, d')"
    using assms(2) by (simp add: append_event_def)
  have r: "ev_room_id e = ne_room_id ev"
    using assms(2) append_frame(6) by (simp add: append_event_def)
  show ?thesis
    using gateway_log.add_inv [OF assms(1) a] gateway_log.add_sequence [OF assms(1) a]
      gateway_log.add_entries [OF assms(1) a] r
    by (simp add: room_event_count_def room_log_def)
qed

definition sample_event :: new_event where
  "sample_event = \<lparr>ne_room_id = 1, ne_request_id = 2, ne_event_type = ''message.created'', ne_actor_id = 3,
     ne_actor_role = ''human'', ne_actor_display_name = None, ne_payload = JNull, ne_occurred_at = 0\<rparr>"

theorem append_event_sequence_witness:
  "\<exists>e d'. log_ok empty_db \<and> append_event sample_ext 4 sample_event empty_db = Inr (e, d') \<and>
     ev_sequence e = 1 \<and> room_log d' 1 = [e]"
proof -
  have ok: "log_ok empty_db" by (simp add: log_ok_def room_log_def empty_db_def)
  have "\<exists>e d'. append_event sample_ext 4 sample_event empty_db = Inr (e, d')"
    by (simp add: append_event_def append_event_in_transaction_def is_valid_room_event_def sample_event_def
        message_mentions_are_unique_def wire_simps empty_db_def store_jsonb_def text_ok_def i64_max_def Let_def)
  then obtain e d' where a: "append_event sample_ext 4 sample_event empty_db = Inr (e, d')" by blast
  from append_event_sequence [OF ok a] have "ev_sequence e = 1 \<and> room_log d' 1 = [e]"
    by (simp add: sample_event_def room_event_count_def room_log_def empty_db_def)
  with ok a show ?thesis by blast
qed

text \<open>
  C30: replay returns exactly the events of the room with a later sequence, in order: the log without
  its first \<open>k\<close> events, for every \<open>k\<close> (a negative one replays everything).
\<close>

theorem events_after_suffix:
  assumes "log_ok d"
  shows "events_after r k d = drop (nat k) (room_log d r)"
  using assms by (rule events_after_log)

theorem events_after_suffix_witness:
  "(let e = \<lparr>ev_event_id = 1, ev_room_id = 2, ev_sequence = 1, ev_request_id = 3, ev_event_type = ''x'',
        ev_actor_id = 4, ev_actor_role = ''human'', ev_actor_display_name = None, ev_payload = JNull,
        ev_occurred_at = 0\<rparr>;
        d = empty_db\<lparr>room_events := [e, e\<lparr>ev_event_id := 5, ev_sequence := 2\<rparr>]\<rparr>
    in log_ok d \<and> events_after 2 1 d = [e\<lparr>ev_event_id := 5, ev_sequence := 2\<rparr>])"
proof -
  let ?e = "\<lparr>ev_event_id = 1, ev_room_id = 2, ev_sequence = 1, ev_request_id = 3, ev_event_type = ''x'',
        ev_actor_id = 4, ev_actor_role = ''human'', ev_actor_display_name = None, ev_payload = JNull,
        ev_occurred_at = 0\<rparr>"
  let ?d = "empty_db\<lparr>room_events := [?e, ?e\<lparr>ev_event_id := 5, ev_sequence := 2\<rparr>]\<rparr>"
  have ok: "log_ok ?d" by (auto simp: log_ok_def room_log_def upto_rec1)
  show ?thesis
    unfolding Let_def using ok events_after_suffix [OF ok, of 2 1] by (simp add: room_log_def)
qed

end
