(* ===== verification/Agent_Tasks.thy ===== *)
theory Agent_Tasks
  imports Event_Store "HOL-Library.Product_Lexorder"
begin

text \<open>
  The agent-task half of \<open>src/store.rs\<close>: starting a task with its requested event, claiming a task
  (by identifier, or the oldest of an agent), the context of a lease, and recording an update of a
  leased task.  The locale \<open>lease_pool\<close> is the exclusivity contract of claiming, interpreted on both
  claim operations; the update ledger is an interpretation of \<open>ledger\<close>.  The clock of the database
  (\<open>NOW()\<close>) and the clock of the process (\<open>Utc::now()\<close>) are separate arguments.
\<close>

definition agent_task_fingerprint :: "ext \<Rightarrow> agent_task_start \<Rightarrow> json" where
  "agent_task_fingerprint E start = jobj [
     (''method'', JStr ''agent.task.start''),
     (''contractVersion'', JStr (st_contract_version start)),
     (''requestId'', juuid E (st_request_id start)),
     (''roomId'', juuid E (st_room_id start)),
     (''occurredAt'', jtime E (st_occurred_at start)),
     (''agentId'', juuid E (st_agent_id start)),
     (''skillId'', JStr (skill_str (st_skill_id start))),
     (''input'', JStr (st_input start))]"

definition requested_task_payload :: "ext \<Rightarrow> uuid \<Rightarrow> uuid \<Rightarrow> agent_task_start \<Rightarrow> int \<Rightarrow> json" where
  "requested_task_payload E task_id requester_id start context_revision = jobj [
     (''taskId'', juuid E task_id),
     (''agentId'', juuid E (st_agent_id start)),
     (''requesterId'', juuid E requester_id),
     (''skillId'', JStr (skill_str (st_skill_id start))),
     (''contextRevision'', JInt context_revision)]"

definition insert_agent_task :: "agent_task_record \<Rightarrow> db \<Rightarrow> store_error + db" where
  \<comment> \<open>\<open>INSERT INTO agent_tasks\<close> with its primary key and \<open>UNIQUE (room_id, request_id)\<close>\<close>
  "insert_agent_task t d =
     rbind (ensure Database
        (tk_task_id t \<notin> tk_task_id ` set (agent_tasks d) \<and>
         (tk_room_id t, tk_request_id t) \<notin> (\<lambda>t. (tk_room_id t, tk_request_id t)) ` set (agent_tasks d) \<and>
         text_ok (tk_input t)))
       (\<lambda>_. Inr (d\<lparr>agent_tasks := agent_tasks d @ [t]\<rparr>))"

definition start_agent_task_in_transaction ::
  "ext \<Rightarrow> uuid \<Rightarrow> uuid \<Rightarrow> timestamp \<Rightarrow> uuid \<Rightarrow> string \<Rightarrow> agent_task_start \<Rightarrow> bool \<Rightarrow> db \<Rightarrow>
   store_error + (agent_task_start_result \<times> db)" where
  \<comment> \<open>\<open>task_id\<close> and \<open>event_id\<close> are the fresh identifiers, \<open>now\<close> is \<open>NOW()\<close>\<close>
  "start_agent_task_in_transaction E task_id event_id now requester_id requester_display_name start
     record_idempotency d =
     (let fp = agent_task_fingerprint E start in
      case prior_request (st_room_id start) (st_request_id start) d of
        Some (prior_fp, events) \<Rightarrow>
          if prior_fp \<noteq> fp then Inl ConflictingDuplicate
          else rbind (ok_or Database
                 (find (\<lambda>t. tk_room_id t = st_room_id start \<and> tk_request_id t = st_request_id start) (agent_tasks d)))
               (\<lambda>t. Inr (\<lparr>sr_task_id = tk_task_id t, sr_events = events\<rparr>, d))
      | None \<Rightarrow>
          (let context_revision =
             max_key ev_sequence (filter (\<lambda>e. ev_room_id e = st_room_id start) (room_events d)) + 1 in
           rbind (ensure Database (context_revision \<le> i64_max)) (\<lambda>_.
           rbind (append_event_in_transaction E event_id
                   \<lparr>ne_room_id = st_room_id start, ne_request_id = st_request_id start,
                    ne_event_type = ''agent.task.requested'', ne_actor_id = requester_id,
                    ne_actor_role = ''human'', ne_actor_display_name = Some requester_display_name,
                    ne_payload = requested_task_payload E task_id requester_id start context_revision,
                    ne_occurred_at = st_occurred_at start\<rparr> d) (\<lambda>(requested, d).
           rbind (ensure InvalidAgentTask (ev_sequence requested = context_revision)) (\<lambda>_.
           rbind (insert_agent_task
                   \<lparr>tk_task_id = task_id, tk_room_id = st_room_id start, tk_request_id = st_request_id start,
                    tk_requester_id = requester_id, tk_agent_id = st_agent_id start,
                    tk_skill_id = st_skill_id start, tk_input = st_input start,
                    tk_context_revision = context_revision, tk_state = Queued, tk_lease_owner = None,
                    tk_lease_expires_at = None, tk_created_at = now, tk_updated_at = now\<rparr> d) (\<lambda>d.
           rbind (if record_idempotency
                  then record_request E (st_room_id start) (st_request_id start) fp [requested] d
                  else Inr d) (\<lambda>d.
             Inr (\<lparr>sr_task_id = task_id, sr_events = [requested]\<rparr>, d))))))))"

definition start_agent_task ::
  "ext \<Rightarrow> uuid \<Rightarrow> uuid \<Rightarrow> timestamp \<Rightarrow> uuid \<Rightarrow> string \<Rightarrow> agent_task_start \<Rightarrow> db \<Rightarrow>
   store_error + (agent_task_start_result \<times> db)" where
  "start_agent_task E task_id event_id now requester_id requester_display_name start d =
     start_agent_task_in_transaction E task_id event_id now requester_id requester_display_name start True d"

definition agent_task :: "uuid \<Rightarrow> db \<Rightarrow> store_error + agent_task_record" where
  "agent_task task_id d = ok_or Database (find (\<lambda>t. tk_task_id t = task_id) (agent_tasks d))"

definition open_state :: "agent_task_state \<Rightarrow> bool" where
  \<comment> \<open>\<open>state IN ('queued', 'running', 'awaiting_external_input')\<close>\<close>
  "open_state s \<longleftrightarrow> s = Queued \<or> s = Running \<or> s = AwaitingExternalInput"

definition claimable :: "timestamp \<Rightarrow> agent_task_record \<Rightarrow> bool" where
  "claimable now t \<longleftrightarrow> open_state (tk_state t) \<and>
     (case tk_lease_expires_at t of None \<Rightarrow> True | Some x \<Rightarrow> x \<le> now)"

definition claim_agent_task ::
  "ext \<Rightarrow> uuid \<Rightarrow> uuid \<Rightarrow> timestamp \<Rightarrow> db \<Rightarrow> agent_task_lease option \<times> db" where
  "claim_agent_task E task_id owner_id now d =
     (let expires_at = pg_time E (now + AGENT_TASK_LEASE_DURATION);
          now = pg_time E now
      in case find (\<lambda>t. tk_task_id t = task_id \<and> claimable now t) (agent_tasks d) of
           None \<Rightarrow> (None, d)
         | Some t \<Rightarrow>
             (Some \<lparr>ls_task_id = task_id, ls_owner_id = owner_id, ls_expires_at = expires_at\<rparr>,
              d\<lparr>agent_tasks := row_update (\<lambda>t. tk_task_id t = task_id \<and> claimable now t)
                 (\<lambda>t. t\<lparr>tk_lease_owner := Some owner_id, tk_lease_expires_at := Some expires_at,
                        tk_state := (if tk_state t = Queued then Running else tk_state t),
                        tk_updated_at := now\<rparr>) (agent_tasks d)\<rparr>))"

definition claim_oldest_queued_agent_task ::
  "ext \<Rightarrow> uuid \<Rightarrow> uuid \<Rightarrow> timestamp \<Rightarrow> db \<Rightarrow> agent_task_lease option \<times> db" where
  "claim_oldest_queued_agent_task E agent_id owner_id now d =
     (let expires_at = pg_time E (now + AGENT_TASK_LEASE_DURATION);
          now = pg_time E now
      in case sort_key (\<lambda>t. (tk_created_at t, tk_task_id t))
                (filter (\<lambda>t. tk_agent_id t = agent_id \<and> claimable now t) (agent_tasks d)) of
           [] \<Rightarrow> (None, d)
         | head # _ \<Rightarrow>
             (Some \<lparr>ls_task_id = tk_task_id head, ls_owner_id = owner_id, ls_expires_at = expires_at\<rparr>,
              d\<lparr>agent_tasks := row_update (\<lambda>t. tk_task_id t = tk_task_id head)
                 (\<lambda>t. t\<lparr>tk_lease_owner := Some owner_id, tk_lease_expires_at := Some expires_at,
                        tk_state := Running, tk_updated_at := now\<rparr>) (agent_tasks d)\<rparr>))"

definition leased_task :: "ext \<Rightarrow> timestamp \<Rightarrow> agent_task_lease \<Rightarrow> db \<Rightarrow> agent_task_record option" where
  \<comment> \<open>the row selected by a lease that is still live at \<open>NOW()\<close>\<close>
  "leased_task E now lease d =
     find (\<lambda>t. tk_task_id t = ls_task_id lease \<and> tk_lease_owner t = Some (ls_owner_id lease) \<and>
              tk_lease_expires_at t = Some (pg_time E (ls_expires_at lease)) \<and>
              pg_time E (ls_expires_at lease) > now) (agent_tasks d)"

definition context_for_lease :: "ext \<Rightarrow> timestamp \<Rightarrow> agent_task_lease \<Rightarrow> db \<Rightarrow> agent_task_context option" where
  "context_for_lease E now lease d =
     map_option (\<lambda>task. \<lparr>cx_task = task,
         cx_events = by_sequence (filter (\<lambda>e. ev_room_id e = tk_room_id task \<and>
           ev_sequence e \<le> tk_context_revision task) (room_events d))\<rparr>)
       (leased_task E now lease d)"

fun merge_core :: "(string \<times> json) list \<Rightarrow> json \<Rightarrow> store_error + json" where
  "merge_core [] payload = Inr payload"
| "merge_core ((k, v) # core) payload =
     (case jget payload k of
        Some provided \<Rightarrow> if provided \<noteq> v then Inl InvalidAgentTask else merge_core core (jset payload k v)
      | None \<Rightarrow> merge_core core (jset payload k v))"

definition core_payload :: "ext \<Rightarrow> agent_task_record \<Rightarrow> (string \<times> json) list" where
  "core_payload E task = [
     (''agentId'', juuid E (tk_agent_id task)),
     (''contextRevision'', JInt (tk_context_revision task)),
     (''requesterId'', juuid E (tk_requester_id task)),
     (''skillId'', JStr (skill_str (tk_skill_id task))),
     (''taskId'', juuid E (tk_task_id task))]"

definition normalized_agent_task_update_payload ::
  "ext \<Rightarrow> agent_task_record \<Rightarrow> json \<Rightarrow> store_error + json" where
  "normalized_agent_task_update_payload E task payload =
     rbind (ok_or InvalidAgentTask (as_object payload)) (\<lambda>_. merge_core (core_payload E task) payload)"

definition REFERENCE_AGENT_ID :: uuid where
  "REFERENCE_AGENT_ID = 0x74686f756768746b686f72616c000003"

definition validate_agent_handoff ::
  "ext \<Rightarrow> timestamp \<Rightarrow> agent_task_record \<Rightarrow> agent_task_lease \<Rightarrow> json \<Rightarrow> store_error + unit" where
  \<comment> \<open>\<open>now\<close> is \<open>Utc::now()\<close>\<close>
  "validate_agent_handoff E now task lease payload =
     (let handoff = jidx payload ''handoff'' in
      rbind (ok_or InvalidAgentTask (as_str (jidx handoff ''instruction''))) (\<lambda>instruction.
      rbind (ok_or InvalidAgentTask (Option.bind (as_str (jidx handoff ''url'')) (url_parse E))) (\<lambda>url.
      rbind (ok_or InvalidAgentTask (Option.bind (as_str (jidx handoff ''expiresAt'')) (time_parse E))) (\<lambda>expiry.
        ensure InvalidAgentTask (\<not> (
          tk_agent_id task \<noteq> REFERENCE_AGENT_ID \<or>
          trim instruction = [] \<or>
          instruction \<noteq> trim instruction \<or>
          url_scheme url \<noteq> ''https'' \<or>
          url_username url \<noteq> [] \<or>
          url_password url \<noteq> None \<or>
          url_fragment url \<noteq> None \<or>
          url_host url \<noteq> Some ''reference-agent.thought-khoral.local'' \<or>
          as_str (jidx handoff ''host'') \<noteq> url_host url \<or>
          url_port_or_default url \<noteq> Some 443 \<or>
          expiry \<le> now \<or>
          expiry > ls_expires_at lease))))))"

definition is_matching_agent_task_update :: "room_event list \<Rightarrow> agent_task_update \<Rightarrow> json \<Rightarrow> bool" where
  "is_matching_agent_task_update events update payload =
     (case events of
        [e] \<Rightarrow> ev_event_type e = up_event_type update \<and> ev_payload e = payload \<and>
               timestamp_micros (ev_occurred_at e) = timestamp_micros (up_occurred_at update)
      | _ \<Rightarrow> False)"

definition state_for_update :: "string \<Rightarrow> store_error + agent_task_state" where
  "state_for_update event_type =
     (if event_type = ''agent.task.progressed'' then Inr Running
      else if event_type = ''agent.task.awaiting_external_input'' then Inr AwaitingExternalInput
      else if event_type = ''agent.task.succeeded'' then Inr Succeeded
      else if event_type = ''agent.task.failed'' then Inr Failed
      else Inl InvalidAgentTask)"

definition update_entry :: "uuid \<times> uuid \<Rightarrow> db \<Rightarrow> uuid list option" where
  "update_entry k d = map_option tu_event_ids
     (find (\<lambda>u. tu_task_id u = fst k \<and> tu_update_id u = snd k) (agent_task_updates d))"

definition enter_update :: "uuid \<times> uuid \<Rightarrow> uuid list \<Rightarrow> db \<Rightarrow> store_error + db" where
  "enter_update k event_ids d =
     rbind (ensure Database (update_entry k d = None)) (\<lambda>_.
       Inr (d\<lparr>agent_task_updates := agent_task_updates d @
         [\<lparr>tu_task_id = fst k, tu_update_id = snd k, tu_event_ids = event_ids\<rparr>]\<rparr>))"

definition record_agent_task_update_with_outcome ::
  "ext \<Rightarrow> uuid \<Rightarrow> uuid \<Rightarrow> timestamp \<Rightarrow> timestamp \<Rightarrow> agent_task_lease \<Rightarrow> agent_task_update \<Rightarrow> db \<Rightarrow>
   store_error + (agent_task_update_result \<times> db)" where
  \<comment> \<open>\<open>now\<close> is \<open>NOW()\<close>, \<open>utc_now\<close> is \<open>Utc::now()\<close>; \<open>request_id\<close> and \<open>event_id\<close> are fresh\<close>
  "record_agent_task_update_with_outcome E request_id event_id now utc_now lease update d =
     rbind (ok_or InvalidAgentTask (leased_task E now lease d)) (\<lambda>task.
     rbind (normalized_agent_task_update_payload E task (up_payload update)) (\<lambda>payload.
     case update_entry (tk_task_id task, up_update_id update) d of
       Some event_ids \<Rightarrow>
         (let events = events_by_id event_ids d in
          if \<not> is_matching_agent_task_update events update payload then Inl ConflictingDuplicate
          else Inr (\<lparr>ur_task_id = tk_task_id task, ur_events = events, ur_duplicate = True\<rparr>, d))
     | None \<Rightarrow>
         rbind (ensure InvalidAgentTask (open_state (tk_state task))) (\<lambda>_.
         rbind (if up_event_type update = ''agent.task.awaiting_external_input''
                then validate_agent_handoff E utc_now task lease payload else Inr ()) (\<lambda>_.
         rbind (state_for_update (up_event_type update)) (\<lambda>state.
         rbind (append_event_in_transaction E event_id
                  \<lparr>ne_room_id = tk_room_id task, ne_request_id = request_id,
                   ne_event_type = up_event_type update, ne_actor_id = tk_agent_id task,
                   ne_actor_role = ''agent'', ne_actor_display_name = None, ne_payload = payload,
                   ne_occurred_at = up_occurred_at update\<rparr> d) (\<lambda>(event, d).
         rbind (enter_update (tk_task_id task, up_update_id update) [ev_event_id event] d) (\<lambda>d.
           Inr (\<lparr>ur_task_id = tk_task_id task, ur_events = [event], ur_duplicate = False\<rparr>,
                d\<lparr>agent_tasks := row_update (\<lambda>t. tk_task_id t = tk_task_id task)
                    (\<lambda>t. t\<lparr>tk_state := state, tk_updated_at := pg_time E (up_occurred_at update)\<rparr>)
                    (agent_tasks d)\<rparr>))))))))"

definition record_agent_task_update ::
  "ext \<Rightarrow> uuid \<Rightarrow> uuid \<Rightarrow> timestamp \<Rightarrow> timestamp \<Rightarrow> agent_task_lease \<Rightarrow> agent_task_update \<Rightarrow> db \<Rightarrow>
   store_error + (agent_task_start_result \<times> db)" where
  "record_agent_task_update E request_id event_id now utc_now lease update d =
     rbind (record_agent_task_update_with_outcome E request_id event_id now utc_now lease update d)
       (\<lambda>(result, d). Inr (\<lparr>sr_task_id = ur_task_id result, sr_events = ur_events result\<rparr>, d))"

subsection \<open>Leases\<close>

datatype task_op =
    Claim_by_id uuid uuid
  | Claim_oldest uuid uuid
  | Start uuid uuid uuid string agent_task_start bool
  | Update uuid uuid timestamp agent_task_lease agent_task_update

definition commit :: "db \<Rightarrow> 'e + ('a \<times> db) \<Rightarrow> db" where
  \<comment> \<open>the database after a transaction: unchanged when it fails\<close>
  "commit d r = (case r of Inl _ \<Rightarrow> d | Inr (_, d') \<Rightarrow> d')"

fun run_task_op :: "ext \<Rightarrow> task_op \<Rightarrow> timestamp \<Rightarrow> db \<Rightarrow> agent_task_lease option \<times> db" where
  "run_task_op E (Claim_by_id task owner) now d = claim_agent_task E task owner now d"
| "run_task_op E (Claim_oldest agent owner) now d = claim_oldest_queued_agent_task E agent owner now d"
| "run_task_op E (Start task event requester name start idem) now d =
     (None, commit d (start_agent_task_in_transaction E task event now requester name start idem d))"
| "run_task_op E (Update req event utc_now lease update) now d =
     (None, commit d (record_agent_task_update_with_outcome E req event now utc_now lease update d))"

fun run_claims :: "('a \<Rightarrow> timestamp \<Rightarrow> 's \<Rightarrow> agent_task_lease option \<times> 's) \<Rightarrow> ('a \<times> timestamp) list \<Rightarrow> 's \<Rightarrow>
    agent_task_lease list \<times> 's" where
  "run_claims claim [] s = ([], s)"
| "run_claims claim ((a, now) # cs) s =
     (let (r, s') = claim a now s; (ls, s'') = run_claims claim cs s'
      in (case r of None \<Rightarrow> ls | Some l \<Rightarrow> l # ls, s''))"

definition lease_holder :: "db \<Rightarrow> uuid \<Rightarrow> (uuid \<times> timestamp) option" where
  "lease_holder d task =
     Option.bind (find (\<lambda>t. tk_task_id t = task) (agent_tasks d)) (\<lambda>t.
     Option.bind (tk_lease_owner t) (\<lambda>w. map_option (\<lambda>x. (w, x)) (tk_lease_expires_at t)))"

definition tasks_distinct :: "db \<Rightarrow> bool" where
  "tasks_distinct d \<longleftrightarrow> distinct (map tk_task_id (agent_tasks d))"

text \<open>
  The contract of claiming: a granted lease is recorded as the holder, it is granted only when the
  holder's lease has run out on the clock of the store, and claiming touches no other task.
\<close>

locale lease_pool =
  fixes claim :: "'a \<Rightarrow> timestamp \<Rightarrow> 's \<Rightarrow> agent_task_lease option \<times> 's"
    and held :: "'s \<Rightarrow> uuid \<Rightarrow> (uuid \<times> timestamp) option"
    and inv :: "'s \<Rightarrow> bool"
    and clock :: "timestamp \<Rightarrow> timestamp"
  assumes claim_inv: "inv s \<Longrightarrow> claim a now s = (r, s') \<Longrightarrow> inv s'"
    and claim_grants: "inv s \<Longrightarrow> claim a now s = (Some l, s') \<Longrightarrow>
      held s' (ls_task_id l) = Some (ls_owner_id l, ls_expires_at l)"
    and claim_free: "inv s \<Longrightarrow> claim a now s = (Some l, s') \<Longrightarrow>
      held s (ls_task_id l) = Some (w, x) \<Longrightarrow> x \<le> clock now"
    and claim_frame: "inv s \<Longrightarrow> claim a now s = (r, s') \<Longrightarrow>
      (\<And>l. r = Some l \<Longrightarrow> ls_task_id l \<noteq> task) \<Longrightarrow> held s' task = held s task"
begin

lemma exclusive:
  assumes "inv s" "held s task = Some (w, x)" "\<forall>(a, now) \<in> set cs. clock now < x"
    "run_claims claim cs s = (ls, s')"
  shows "task \<notin> ls_task_id ` set ls \<and> held s' task = Some (w, x)"
  using assms
proof (induction cs arbitrary: s ls)
  case (Cons c cs)
  obtain a now where c: "c = (a, now)" by fastforce
  obtain r s1 where r: "claim a now s = (r, s1)" by fastforce
  obtain ls1 where ls1: "run_claims claim cs s1 = (ls1, s')"
    and ls: "ls = (case r of None \<Rightarrow> ls1 | Some l \<Rightarrow> l # ls1)"
    using Cons.prems(4) c r by (auto split: prod.splits)
  have other: "ls_task_id l \<noteq> task" if "r = Some l" for l
  proof
    assume "ls_task_id l = task"
    with claim_free [OF Cons.prems(1), of a now l s1 w x] r that Cons.prems(2) have "x \<le> clock now" by simp
    with Cons.prems(3) c show False by auto
  qed
  have "held s1 task = Some (w, x)"
    using claim_frame [OF Cons.prems(1) r other] Cons.prems(2) by simp
  moreover have "inv s1" using claim_inv [OF Cons.prems(1) r] .
  ultimately have "task \<notin> ls_task_id ` set ls1 \<and> held s' task = Some (w, x)"
    using Cons.IH [of s1 ls1] Cons.prems(3) ls1 by simp
  with other ls show ?case by (auto split: option.splits)
qed simp

end

lemma find_distinct:
  "distinct (map f xs) \<Longrightarrow> x \<in> set xs \<Longrightarrow> f x = k \<Longrightarrow> find (\<lambda>y. f y = k) xs = Some x"
  by (induction xs) auto

lemma find_task_update:
  assumes "\<And>t. tk_task_id (f t) = tk_task_id t"
  shows "find (\<lambda>t. tk_task_id t = k) (row_update p f ts) =
    map_option (\<lambda>t. if p t then f t else t) (find (\<lambda>t. tk_task_id t = k) ts)"
  by (rule find_row_update) (simp add: assms)

lemma claim_agent_task_cases:
  assumes "tasks_distinct d" "claim_agent_task E task owner now d = (r, d')"
  obtains "r = None" "d' = d"
  | t where "t \<in> set (agent_tasks d)" "tk_task_id t = task" "claimable (pg_time E now) t"
    "r = Some \<lparr>ls_task_id = task, ls_owner_id = owner,
       ls_expires_at = pg_time E (now + AGENT_TASK_LEASE_DURATION)\<rparr>"
    "d' = d\<lparr>agent_tasks := row_update (\<lambda>t. tk_task_id t = task)
       (\<lambda>t. t\<lparr>tk_lease_owner := Some owner,
         tk_lease_expires_at := Some (pg_time E (now + AGENT_TASK_LEASE_DURATION)),
         tk_state := (if tk_state t = Queued then Running else tk_state t),
         tk_updated_at := pg_time E now\<rparr>) (agent_tasks d)\<rparr>"
proof (cases "find (\<lambda>t. tk_task_id t = task \<and> claimable (pg_time E now) t) (agent_tasks d)")
  case None
  with assms(2) that(1) show ?thesis by (simp add: claim_agent_task_def)
next
  case (Some t)
  then have t: "t \<in> set (agent_tasks d)" "tk_task_id t = task" "claimable (pg_time E now) t"
    using find_Some_in [OF Some] by auto
  have "row_update (\<lambda>t. tk_task_id t = task \<and> claimable (pg_time E now) t) f (agent_tasks d) =
      row_update (\<lambda>t. tk_task_id t = task) f (agent_tasks d)" for f
    unfolding row_update_def
    using t assms(1) distinct_map_inj [of tk_task_id "agent_tasks d"]
    by (intro map_cong refl) (auto simp: tasks_distinct_def)
  with Some t assms(2) that(2) show ?thesis by (simp add: claim_agent_task_def Let_def)
qed

lemma sort_head_least:
  assumes "sort_key f xs = h # rest"
  shows "h \<in> set xs" and "\<forall>x \<in> set xs. f h \<le> f x"
proof -
  have "set (h # rest) = set xs" using assms by (metis set_sort)
  then show "h \<in> set xs" by auto
  have "sorted (map f (h # rest))" using assms by (metis sorted_sort_key)
  then have "\<forall>x \<in> set (h # rest). f h \<le> f x" by simp
  then show "\<forall>x \<in> set xs. f h \<le> f x" unfolding \<open>set (h # rest) = set xs\<close> .
qed

lemma claim_oldest_cases:
  assumes "claim_oldest_queued_agent_task E agent owner now d = (r, d')"
  obtains "r = None" "d' = d" "\<forall>t \<in> set (agent_tasks d). \<not> (tk_agent_id t = agent \<and> claimable (pg_time E now) t)"
  | t where "t \<in> set (agent_tasks d)" "tk_agent_id t = agent" "claimable (pg_time E now) t"
    "\<forall>u \<in> set (agent_tasks d). tk_agent_id u = agent \<and> claimable (pg_time E now) u \<longrightarrow>
       (tk_created_at t, tk_task_id t) \<le> (tk_created_at u, tk_task_id u)"
    "r = Some \<lparr>ls_task_id = tk_task_id t, ls_owner_id = owner,
       ls_expires_at = pg_time E (now + AGENT_TASK_LEASE_DURATION)\<rparr>"
    "d' = d\<lparr>agent_tasks := row_update (\<lambda>u. tk_task_id u = tk_task_id t)
       (\<lambda>u. u\<lparr>tk_lease_owner := Some owner,
         tk_lease_expires_at := Some (pg_time E (now + AGENT_TASK_LEASE_DURATION)),
         tk_state := Running, tk_updated_at := pg_time E now\<rparr>) (agent_tasks d)\<rparr>"
proof -
  let ?c = "filter (\<lambda>t. tk_agent_id t = agent \<and> claimable (pg_time E now) t) (agent_tasks d)"
  let ?s = "sort_key (\<lambda>t. (tk_created_at t, tk_task_id t)) ?c"
  show ?thesis
  proof (cases ?s)
    case Nil
    then have "?c = []" using length_sort [of "\<lambda>t. (tk_created_at t, tk_task_id t)" ?c] by simp
    then have none: "\<forall>t \<in> set (agent_tasks d). \<not> (tk_agent_id t = agent \<and> claimable (pg_time E now) t)"
      by (simp add: filter_empty_conv)
    from Nil assms have "r = None" "d' = d" by (simp_all add: claim_oldest_queued_agent_task_def)
    then show ?thesis using none by (rule that(1))
  next
    case (Cons h rest)
    note least = sort_head_least [OF Cons]
    show ?thesis
    proof (rule that(2) [of h])
      show "h \<in> set (agent_tasks d)" "tk_agent_id h = agent" "claimable (pg_time E now) h"
        using least(1) by simp_all
      show "\<forall>u \<in> set (agent_tasks d). tk_agent_id u = agent \<and> claimable (pg_time E now) u \<longrightarrow>
          (tk_created_at h, tk_task_id h) \<le> (tk_created_at u, tk_task_id u)"
        using least(2) by simp
    qed (use Cons assms in \<open>simp_all add: claim_oldest_queued_agent_task_def Let_def\<close>)
  qed
qed


lemma start_Inr:
  assumes "start_agent_task_in_transaction E task event now requester name start idem d = Inr (res, d')"
  obtains (retry) "d' = d" "prior_request (st_room_id start) (st_request_id start) d =
      Some (agent_task_fingerprint E start, sr_events res)"
  | (fresh) requested d1 t where
    "prior_request (st_room_id start) (st_request_id start) d = None"
    "append_event_in_transaction E event
       \<lparr>ne_room_id = st_room_id start, ne_request_id = st_request_id start,
        ne_event_type = ''agent.task.requested'', ne_actor_id = requester,
        ne_actor_role = ''human'', ne_actor_display_name = Some name,
        ne_payload = requested_task_payload E task requester start (ev_sequence requested),
        ne_occurred_at = st_occurred_at start\<rparr> d = Inr (requested, d1)"
    "t = \<lparr>tk_task_id = task, tk_room_id = st_room_id start, tk_request_id = st_request_id start,
          tk_requester_id = requester, tk_agent_id = st_agent_id start,
          tk_skill_id = st_skill_id start, tk_input = st_input start,
          tk_context_revision = ev_sequence requested, tk_state = Queued, tk_lease_owner = None,
          tk_lease_expires_at = None, tk_created_at = now, tk_updated_at = now\<rparr>"
    "task \<notin> tk_task_id ` set (agent_tasks d)"
    "(st_room_id start, st_request_id start) \<notin> (\<lambda>t. (tk_room_id t, tk_request_id t)) ` set (agent_tasks d)"
    "room_events d' = room_events d @ [requested]" "agent_tasks d' = agent_tasks d @ [t]"
    "decisions d' = decisions d" "agent_task_updates d' = agent_task_updates d"
    "res = \<lparr>sr_task_id = task, sr_events = [requested]\<rparr>" "\<not> idem \<Longrightarrow> room_requests d' = room_requests d"
proof (cases "prior_request (st_room_id start) (st_request_id start) d")
  case (Some p)
  obtain pf es where p: "p = (pf, es)" by fastforce
  from assms Some p have "d' = d" "pf = agent_task_fingerprint E start" "sr_events res = es"
    by (auto simp: start_agent_task_in_transaction_def Let_def result_simps split: if_splits)
  with Some p retry show ?thesis by simp
next
  case None
  let ?rev = "max_key ev_sequence (filter (\<lambda>e. ev_room_id e = st_room_id start) (room_events d)) + 1"
  from assms None obtain requested d1 d2 where
    a: "append_event_in_transaction E event
       \<lparr>ne_room_id = st_room_id start, ne_request_id = st_request_id start,
        ne_event_type = ''agent.task.requested'', ne_actor_id = requester,
        ne_actor_role = ''human'', ne_actor_display_name = Some name,
        ne_payload = requested_task_payload E task requester start ?rev,
        ne_occurred_at = st_occurred_at start\<rparr> d = Inr (requested, d1)"
    and seq: "ev_sequence requested = ?rev"
    and ins: "insert_agent_task
       \<lparr>tk_task_id = task, tk_room_id = st_room_id start, tk_request_id = st_request_id start,
        tk_requester_id = requester, tk_agent_id = st_agent_id start,
        tk_skill_id = st_skill_id start, tk_input = st_input start,
        tk_context_revision = ?rev, tk_state = Queued, tk_lease_owner = None,
        tk_lease_expires_at = None, tk_created_at = now, tk_updated_at = now\<rparr> d1 = Inr d2"
    and rec: "(if idem then record_request E (st_room_id start) (st_request_id start)
        (agent_task_fingerprint E start) [requested] d2 else Inr d2) = Inr d'"
    and res: "res = \<lparr>sr_task_id = task, sr_events = [requested]\<rparr>"
    by (auto simp: start_agent_task_in_transaction_def Let_def result_simps)
  note f = append_frame [OF a]
  note r = record_request_Inr [of E "st_room_id start" "st_request_id start"
      "agent_task_fingerprint E start" "[requested]" d2 d']
  show ?thesis
    by (rule fresh [of requested d1, OF None a [folded seq] refl])
       (use ins rec f r res seq in \<open>auto simp: insert_agent_task_def result_simps split: if_splits\<close>)
qed


lemma leased_task_in:
  "leased_task E now lease d = Some t \<Longrightarrow> t \<in> set (agent_tasks d) \<and> tk_task_id t = ls_task_id lease \<and>
     tk_lease_owner t = Some (ls_owner_id lease) \<and>
     tk_lease_expires_at t = Some (pg_time E (ls_expires_at lease)) \<and> now < pg_time E (ls_expires_at lease)"
  unfolding leased_task_def by (drule find_Some_in) simp

lemma update_Inr:
  assumes "record_agent_task_update_with_outcome E req event now utc_now lease update d = Inr (res, d')"
  obtains (duplicate) task payload ids where "d' = d" "leased_task E now lease d = Some task"
      "normalized_agent_task_update_payload E task (up_payload update) = Inr payload"
      "update_entry (tk_task_id task, up_update_id update) d = Some ids"
      "is_matching_agent_task_update (events_by_id ids d) update payload"
      "res = \<lparr>ur_task_id = tk_task_id task, ur_events = events_by_id ids d, ur_duplicate = True\<rparr>"
  | (recorded) task payload state e d1 where "leased_task E now lease d = Some task"
      "normalized_agent_task_update_payload E task (up_payload update) = Inr payload"
      "update_entry (tk_task_id task, up_update_id update) d = None" "open_state (tk_state task)"
      "up_event_type update = ''agent.task.awaiting_external_input'' \<Longrightarrow>
         validate_agent_handoff E utc_now task lease payload = Inr ()"
      "state_for_update (up_event_type update) = Inr state"
      "append_event_in_transaction E event
        \<lparr>ne_room_id = tk_room_id task, ne_request_id = req, ne_event_type = up_event_type update,
         ne_actor_id = tk_agent_id task, ne_actor_role = ''agent'', ne_actor_display_name = None,
         ne_payload = payload, ne_occurred_at = up_occurred_at update\<rparr> d = Inr (e, d1)"
      "room_events d' = room_events d @ [e]" "room_requests d' = room_requests d" "decisions d' = decisions d"
      "agent_task_updates d' = agent_task_updates d @
         [\<lparr>tu_task_id = tk_task_id task, tu_update_id = up_update_id update, tu_event_ids = [event]\<rparr>]"
      "agent_tasks d' = row_update (\<lambda>t. tk_task_id t = tk_task_id task)
         (\<lambda>t. t\<lparr>tk_state := state, tk_updated_at := pg_time E (up_occurred_at update)\<rparr>) (agent_tasks d)"
      "res = \<lparr>ur_task_id = tk_task_id task, ur_events = [e], ur_duplicate = False\<rparr>"
proof -
  from assms obtain task payload where t: "leased_task E now lease d = Some task"
    and p: "normalized_agent_task_update_payload E task (up_payload update) = Inr payload"
    by (auto simp: record_agent_task_update_with_outcome_def result_simps)
  show ?thesis
  proof (cases "update_entry (tk_task_id task, up_update_id update) d")
    case (Some ids)
    with assms t p duplicate [of task payload ids] show ?thesis
      by (auto simp: record_agent_task_update_with_outcome_def Let_def split: if_splits)
  next
    case None
    let ?ne = "\<lparr>ne_room_id = tk_room_id task, ne_request_id = req, ne_event_type = up_event_type update,
         ne_actor_id = tk_agent_id task, ne_actor_role = ''agent'', ne_actor_display_name = None,
         ne_payload = payload, ne_occurred_at = up_occurred_at update\<rparr>"
    from assms t p None obtain state e d1 d2 where
      o: "open_state (tk_state task)" and st: "state_for_update (up_event_type update) = Inr state"
      and h: "(if up_event_type update = ''agent.task.awaiting_external_input''
                then validate_agent_handoff E utc_now task lease payload else Inr ()) = Inr ()"
      and a: "append_event_in_transaction E event ?ne d = Inr (e, d1)"
      and u: "enter_update (tk_task_id task, up_update_id update) [ev_event_id e] d1 = Inr d2"
      and d': "d' = d2\<lparr>agent_tasks := row_update (\<lambda>t. tk_task_id t = tk_task_id task)
         (\<lambda>t. t\<lparr>tk_state := state, tk_updated_at := pg_time E (up_occurred_at update)\<rparr>) (agent_tasks d2)\<rparr>"
      and res: "res = \<lparr>ur_task_id = tk_task_id task, ur_events = [e], ur_duplicate = False\<rparr>"
      by (auto simp: record_agent_task_update_with_outcome_def result_simps)
    note f = append_frame [OF a]
    from u have d2: "d2 = d1\<lparr>agent_task_updates := agent_task_updates d1 @
        [\<lparr>tu_task_id = tk_task_id task, tu_update_id = up_update_id update, tu_event_ids = [event]\<rparr>]\<rparr>"
      by (simp add: enter_update_def result_simps f)
    show ?thesis
      by (rule recorded [OF t p None o _ st a]) (use h d' d2 f res in simp_all)
  qed
qed

lemma lease_holder_frame:
  assumes "agent_tasks d' = row_update p f (agent_tasks d)" "\<And>t. tk_task_id (f t) = tk_task_id t"
    "\<And>t. p t \<Longrightarrow> tk_task_id t = task \<Longrightarrow> tk_lease_owner (f t) = tk_lease_owner t \<and>
       tk_lease_expires_at (f t) = tk_lease_expires_at t"
  shows "lease_holder d' task = lease_holder d task"
proof (cases "find (\<lambda>t. tk_task_id t = task) (agent_tasks d)")
  case None
  then show ?thesis by (simp add: lease_holder_def assms(1) find_task_update [OF assms(2)])
next
  case (Some t)
  with find_Some_in [OF Some] assms(3) [of t] show ?thesis
    by (simp add: lease_holder_def assms(1) find_task_update [OF assms(2)])
qed

lemma tasks_distinct_frame:
  assumes "agent_tasks d' = row_update p f (agent_tasks d)" "\<And>t. tk_task_id (f t) = tk_task_id t"
  shows "tasks_distinct d' = tasks_distinct d"
  by (simp add: tasks_distinct_def assms(1) map_row_update [where g = tk_task_id] assms(2))

text \<open>What one operation does to the leases: nothing, or it grants a lease that had run out.\<close>

lemma task_op_leases:
  assumes "tasks_distinct d" "run_task_op E a now d = (r, d')"
  shows "tasks_distinct d' \<and>
    (case r of
       None \<Rightarrow> (\<forall>task. lease_holder d' task = lease_holder d task)
     | Some l \<Rightarrow>
         lease_holder d' (ls_task_id l) = Some (ls_owner_id l, ls_expires_at l) \<and>
         ls_expires_at l = pg_time E (now + AGENT_TASK_LEASE_DURATION) \<and>
         (\<forall>w x. lease_holder d (ls_task_id l) = Some (w, x) \<longrightarrow> x \<le> pg_time E now) \<and>
         (\<forall>task. task \<noteq> ls_task_id l \<longrightarrow> lease_holder d' task = lease_holder d task))"
proof -
  have granted: ?thesis
    if "t \<in> set (agent_tasks d)" "tk_task_id t = ls_task_id l" "claimable (pg_time E now) t"
      "r = Some l" "ls_expires_at l = pg_time E (now + AGENT_TASK_LEASE_DURATION)"
      "d' = d\<lparr>agent_tasks := row_update (\<lambda>t. tk_task_id t = k) f (agent_tasks d)\<rparr>"
      "\<And>t. tk_task_id (f t) = tk_task_id t" "\<And>t. tk_lease_owner (f t) = Some (ls_owner_id l)"
      "\<And>t. tk_lease_expires_at (f t) = Some (ls_expires_at l)" "k = ls_task_id l" for t l f k
  proof -
    have found: "find (\<lambda>t. tk_task_id t = ls_task_id l) (agent_tasks d) = Some t"
      using assms(1) that(1,2) by (simp add: tasks_distinct_def find_distinct)
    have at: "agent_tasks d' = row_update (\<lambda>t. tk_task_id t = ls_task_id l) f (agent_tasks d)"
      by (simp add: that(6,10))
    have "tasks_distinct d'" using assms(1) tasks_distinct_frame [OF at that(7)] by simp
    moreover have "lease_holder d' (ls_task_id l) = Some (ls_owner_id l, ls_expires_at l)"
      using that(2) by (simp add: lease_holder_def at find_task_update [OF that(7)] found that(8,9))
    moreover have "x \<le> pg_time E now" if "lease_holder d (ls_task_id l) = Some (w, x)" for w x
      using that \<open>claimable (pg_time E now) t\<close>
      by (auto simp: lease_holder_def found claimable_def Option.bind_eq_Some_conv)
    moreover have "lease_holder d' task = lease_holder d task" if "task \<noteq> ls_task_id l" for task
      by (rule lease_holder_frame [OF at]) (use \<open>\<And>t. tk_task_id (f t) = tk_task_id t\<close> that in auto)
    ultimately show ?thesis using that(4,5) by simp
  qed
  show ?thesis
  proof (cases a)
    case (Claim_by_id task owner)
    with assms(2) have "claim_agent_task E task owner now d = (r, d')" by simp
    then show ?thesis
    proof (cases rule: claim_agent_task_cases [OF assms(1), consumes 1])
      case 1
      with assms(1) show ?thesis by simp
    next
      case (2 t)
      show ?thesis by (rule granted [OF 2(1) _ 2(3,4) _ 2(5)]) (simp_all add: 2(2))
    qed
  next
    case (Claim_oldest agent owner)
    with assms(2) have "claim_oldest_queued_agent_task E agent owner now d = (r, d')" by simp
    then show ?thesis
    proof (cases rule: claim_oldest_cases)
      case 1
      with assms(1) show ?thesis by simp
    next
      case (2 t)
      show ?thesis by (rule granted [OF 2(1) _ 2(3,5) _ 2(6)]) simp_all
    qed
  next
    case (Start task event requester name start idem)
    show ?thesis
    proof (cases "start_agent_task_in_transaction E task event now requester name start idem d")
      case (Inl e)
      with Start assms show ?thesis by (simp add: commit_def)
    next
      case (Inr p)
      then obtain res where "start_agent_task_in_transaction E task event now requester name start idem d = Inr (res, d')"
        using assms(2) Start by (cases p) (simp add: commit_def)
      then show ?thesis
      proof (cases rule: start_Inr)
        case retry
        with Start assms show ?thesis by simp
      next
        case (fresh requested d1 t)
        have "find (\<lambda>u. tk_task_id u = task) (agent_tasks d) = None"
          using fresh(4) by (auto simp: find_None_all)
        then have "lease_holder d' k = lease_holder d k" for k
          by (auto simp: lease_holder_def fresh(3,7) find_append split: option.splits)
        moreover have "tasks_distinct d'"
          using assms(1) fresh(3,4) by (simp add: tasks_distinct_def fresh(7))
        ultimately show ?thesis using Start assms(2) by auto
      qed
    qed
  next
    case (Update req event utc_now lease update)
    show ?thesis
    proof (cases "record_agent_task_update_with_outcome E req event now utc_now lease update d")
      case (Inl e)
      with Update assms show ?thesis by (simp add: commit_def)
    next
      case (Inr p)
      then obtain res where "record_agent_task_update_with_outcome E req event now utc_now lease update d = Inr (res, d')"
        using assms(2) Update by (cases p) (simp add: commit_def)
      then show ?thesis
      proof (cases rule: update_Inr)
        case duplicate
        with Update assms show ?thesis by simp
      next
        case (recorded task payload state e d1)
        have "lease_holder d' k = lease_holder d k" for k
          by (rule lease_holder_frame [OF recorded(12)]) simp_all
        moreover have "tasks_distinct d'"
          using assms(1) tasks_distinct_frame [OF recorded(12)] by simp
        ultimately show ?thesis using Update assms(2) by auto
      qed
    qed
  qed
qed

interpretation task_leases: lease_pool "run_task_op E" lease_holder tasks_distinct "pg_time E" for E
proof unfold_locales
  fix d a now r d'
  assume "tasks_distinct d" "run_task_op E a now d = (r, d')"
  then show "tasks_distinct d'" using task_op_leases by blast
next
  fix d a now l d'
  assume "tasks_distinct d" "run_task_op E a now d = (Some l, d')"
  from task_op_leases [OF this]
  show "lease_holder d' (ls_task_id l) = Some (ls_owner_id l, ls_expires_at l)" by simp
next
  fix d a now l d' w x
  assume "tasks_distinct d" "run_task_op E a now d = (Some l, d')" "lease_holder d (ls_task_id l) = Some (w, x)"
  with task_op_leases [of d E a now "Some l" d'] show "x \<le> pg_time E now" by simp
next
  fix d a now r d' task
  assume "tasks_distinct d" "run_task_op E a now d = (r, d')" "\<And>l. r = Some l \<Longrightarrow> ls_task_id l \<noteq> task"
  with task_op_leases [of d E a now r d'] show "lease_holder d' task = lease_holder d task"
    by (cases r) auto
qed


subsection \<open>Terminal states\<close>

definition task_state :: "db \<Rightarrow> uuid \<Rightarrow> agent_task_state option" where
  "task_state d task = map_option tk_state (find (\<lambda>t. tk_task_id t = task) (agent_tasks d))"

lemma task_state_frame:
  assumes "agent_tasks d' = row_update p f (agent_tasks d)" "\<And>t. tk_task_id (f t) = tk_task_id t"
    "\<And>t. t \<in> set (agent_tasks d) \<Longrightarrow> p t \<Longrightarrow> tk_task_id t = task \<Longrightarrow> False"
  shows "task_state d' task = task_state d task"
proof (cases "find (\<lambda>t. tk_task_id t = task) (agent_tasks d)")
  case None
  then show ?thesis by (simp add: task_state_def assms(1) find_task_update [OF assms(2)])
next
  case (Some t)
  with find_Some_in [OF Some] assms(3) [of t] show ?thesis
    by (auto simp: task_state_def assms(1) find_task_update [OF assms(2)])
qed

lemma task_state_row:
  "tasks_distinct d \<Longrightarrow> t \<in> set (agent_tasks d) \<Longrightarrow> tk_task_id t = task \<Longrightarrow> task_state d task = Some (tk_state t)"
  by (simp add: task_state_def tasks_distinct_def find_distinct)

lemma task_op_terminal:
  assumes "tasks_distinct d" "run_task_op E a now d = (r, d')" "task_state d task = Some s" "\<not> open_state s"
  shows "task_state d' task = Some s"
proof -
  have closed: False if "t \<in> set (agent_tasks d)" "open_state (tk_state t)" "tk_task_id t = task" for t
    using task_state_row [OF assms(1) that(1,3)] that(2) assms(3,4) by simp
  show ?thesis
  proof (cases a)
    case (Claim_by_id k owner)
    with assms(2) have "claim_agent_task E k owner now d = (r, d')" by simp
    then show ?thesis
    proof (cases rule: claim_agent_task_cases [OF assms(1), consumes 1])
      case (2 t)
      have "k \<noteq> task" using closed [of t] 2 by (auto simp: claimable_def)
      then have "task_state d' task = task_state d task"
        by (intro task_state_frame [OF arg_cong [OF 2(5), of agent_tasks, simplified]]) auto
      with assms(3) show ?thesis by simp
    qed (use assms(3) in simp)
  next
    case (Claim_oldest agent owner)
    with assms(2) have "claim_oldest_queued_agent_task E agent owner now d = (r, d')" by simp
    then show ?thesis
    proof (cases rule: claim_oldest_cases)
      case (2 t)
      have "tk_task_id t \<noteq> task" using closed [of t] 2 by (auto simp: claimable_def)
      then have "task_state d' task = task_state d task"
        by (intro task_state_frame [OF arg_cong [OF 2(6), of agent_tasks, simplified]]) auto
      with assms(3) show ?thesis by simp
    qed (use assms(3) in simp)
  next
    case (Start k event requester name start idem)
    show ?thesis
    proof (cases "start_agent_task_in_transaction E k event now requester name start idem d")
      case (Inl e)
      with Start assms show ?thesis by (simp add: commit_def)
    next
      case (Inr p)
      then obtain res where "start_agent_task_in_transaction E k event now requester name start idem d = Inr (res, d')"
        using assms(2) Start by (cases p) (simp add: commit_def)
      then show ?thesis
        by (cases rule: start_Inr) (use assms(3) in \<open>auto simp: task_state_def find_append split: option.splits\<close>)
    qed
  next
    case (Update req event utc_now lease update)
    show ?thesis
    proof (cases "record_agent_task_update_with_outcome E req event now utc_now lease update d")
      case (Inl e)
      with Update assms show ?thesis by (simp add: commit_def)
    next
      case (Inr p)
      then obtain res where "record_agent_task_update_with_outcome E req event now utc_now lease update d = Inr (res, d')"
        using assms(2) Update by (cases p) (simp add: commit_def)
      then show ?thesis
      proof (cases rule: update_Inr)
        case duplicate
        with assms(3) show ?thesis by simp
      next
        case (recorded k payload state e d1)
        have "k \<in> set (agent_tasks d)" using leased_task_in [OF recorded(1)] by simp
        then have "tk_task_id k \<noteq> task" using closed recorded(4) by blast
        then have "task_state d' task = task_state d task"
          by (intro task_state_frame [OF recorded(12)]) auto
        with assms(3) show ?thesis by simp
      qed
    qed
  qed
qed

subsection \<open>Retried updates\<close>

lemma merge_core_exact:
  "merge_core core payload = Inr p \<Longrightarrow> exact payload \<Longrightarrow> \<forall>f \<in> set core. exact (snd f) \<Longrightarrow> exact p"
  by (induction core payload rule: merge_core.induct) (auto simp: exact_jset split: option.splits if_splits)

lemma normalized_payload_exact:
  "normalized_agent_task_update_payload E t payload = Inr p \<Longrightarrow> exact payload \<Longrightarrow> exact p"
  using merge_core_exact [of "core_payload E t" payload p]
  by (auto simp: normalized_agent_task_update_payload_def result_simps core_payload_def
      simp del: merge_core.simps)

lemma merge_core_keeps:
  "merge_core core (JObj fs) = Inr p \<Longrightarrow> k \<notin> fst ` set core \<Longrightarrow> jget p k = map_of fs k"
  by (induction core "JObj fs" arbitrary: fs rule: merge_core.induct)
     (auto split: option.splits if_splits)

lemma merge_core_sets:
  assumes "merge_core core (JObj fs) = Inr p" "distinct (map fst core)" "(k, v) \<in> set core"
  shows "jget p k = Some v"
  using assms
proof (induction core arbitrary: fs)
  case (Cons c core)
  obtain a b where c: "c = (a, b)" by fastforce
  have m: "merge_core core (JObj (upd a b fs)) = Inr p"
    using Cons.prems(1) c by (auto split: option.splits if_splits)
  show ?case
  proof (cases "(k, v) \<in> set core")
    case True
    then show ?thesis using Cons.IH [OF m] Cons.prems(2) by simp
  next
    case False
    with Cons.prems(3) c have "a = k" "b = v" by auto
    moreover have "k \<notin> fst ` set core" using Cons.prems(2) c \<open>a = k\<close> by simp
    ultimately show ?thesis using merge_core_keeps [OF m] by simp
  qed
qed simp

lemma normalized_payload_core:
  assumes "normalized_agent_task_update_payload E t payload = Inr p"
  shows "jget p ''taskId'' = Some (juuid E (tk_task_id t))"
    and "jget p ''agentId'' = Some (juuid E (tk_agent_id t))"
    and "jget p ''requesterId'' = Some (juuid E (tk_requester_id t))"
    and "jget p ''contextRevision'' = Some (JInt (tk_context_revision t))"
proof -
  obtain fs where m: "merge_core (core_payload E t) (JObj fs) = Inr p"
    using assms by (cases payload) (auto simp: normalized_agent_task_update_payload_def)
  have d: "distinct (map fst (core_payload E t))" by (simp add: core_payload_def)
  note sets = merge_core_sets [OF m d]
  show "jget p ''taskId'' = Some (juuid E (tk_task_id t))"
    "jget p ''agentId'' = Some (juuid E (tk_agent_id t))"
    "jget p ''requesterId'' = Some (juuid E (tk_requester_id t))"
    "jget p ''contextRevision'' = Some (JInt (tk_context_revision t))"
    by (rule sets; simp add: core_payload_def)+
qed

interpretation task_updates: ledger update_entry enter_update Some
  by unfold_locales
     (auto simp: enter_update_def update_entry_def result_simps find_append split: option.splits if_splits)


subsection \<open>Context snapshots\<close>

definition request_event_of :: "agent_task_record \<Rightarrow> room_event \<Rightarrow> bool" where
  "request_event_of t e \<longleftrightarrow> ev_event_type e = ''agent.task.requested'' \<and> ev_actor_id e = tk_requester_id t \<and>
     ev_request_id e = tk_request_id t \<and> ev_room_id e = tk_room_id t"

definition snapshot_ok :: "db \<Rightarrow> agent_task_record \<Rightarrow> bool" where
  \<comment> \<open>the context revision of the task is the position of its own request in the room's log\<close>
  "snapshot_ok d t \<longleftrightarrow> 1 \<le> tk_context_revision t \<and>
     tk_context_revision t \<le> int (length (room_log d (tk_room_id t))) \<and>
     request_event_of t (room_log d (tk_room_id t) ! nat (tk_context_revision t - 1))"

definition tasks_ok :: "db \<Rightarrow> bool" where
  "tasks_ok d \<longleftrightarrow> (\<forall>t \<in> set (agent_tasks d). snapshot_ok d t)"

lemma snapshot_ok_extend:
  assumes "snapshot_ok d t" "room_events d' = room_events d @ es"
  shows "snapshot_ok d' t"
proof -
  have "room_log d' r = room_log d r @ filter (\<lambda>e. ev_room_id e = r) es" for r
    by (simp add: room_log_def assms(2))
  with assms(1) show ?thesis by (auto simp: snapshot_ok_def nth_append)
qed

lemma snapshot_ok_core:
  assumes "snapshot_ok d t" "tk_room_id u = tk_room_id t" "tk_request_id u = tk_request_id t"
    "tk_requester_id u = tk_requester_id t" "tk_context_revision u = tk_context_revision t"
  shows "snapshot_ok d u"
  using assms by (simp add: snapshot_ok_def request_event_of_def)

lemma tasks_ok_row_update:
  assumes "tasks_ok d" "room_events d' = room_events d @ es" "agent_tasks d' = row_update p f (agent_tasks d)"
    "\<And>t. tk_room_id (f t) = tk_room_id t \<and> tk_request_id (f t) = tk_request_id t \<and>
       tk_requester_id (f t) = tk_requester_id t \<and> tk_context_revision (f t) = tk_context_revision t"
  shows "tasks_ok d'"
  unfolding tasks_ok_def
proof
  fix u assume "u \<in> set (agent_tasks d')"
  then obtain t where t: "t \<in> set (agent_tasks d)" "u = t \<or> u = f t"
    by (auto simp: assms(3) set_row_update)
  then have "snapshot_ok d' t" using assms(1,2) snapshot_ok_extend by (auto simp: tasks_ok_def)
  with t(2) assms(4) [of t] show "snapshot_ok d' u" by (auto intro: snapshot_ok_core)
qed

lemma tasks_ok_extend:
  "tasks_ok d \<Longrightarrow> room_events d' = room_events d @ es \<Longrightarrow> agent_tasks d' = agent_tasks d \<Longrightarrow> tasks_ok d'"
  by (auto simp: tasks_ok_def intro: snapshot_ok_extend)

lemma start_ok:
  assumes "log_ok d" "tasks_ok d" "tasks_distinct d"
    "start_agent_task_in_transaction E task event now requester name start idem d = Inr (res, d')"
  shows "log_ok d'" "tasks_ok d'" "tasks_distinct d'" "\<exists>es. room_events d' = room_events d @ es"
proof -
  from assms(4) have "log_ok d' \<and> tasks_ok d' \<and> tasks_distinct d' \<and> (\<exists>es. room_events d' = room_events d @ es)"
  proof (cases rule: start_Inr)
    case retry
    with assms show ?thesis by simp
  next
    case (fresh requested d1 t)
    have a: "(\<lambda>(i, ev). append_event_in_transaction E i ev) (event,
       \<lparr>ne_room_id = st_room_id start, ne_request_id = st_request_id start,
        ne_event_type = ''agent.task.requested'', ne_actor_id = requester,
        ne_actor_role = ''human'', ne_actor_display_name = Some name,
        ne_payload = requested_task_payload E task requester start (ev_sequence requested),
        ne_occurred_at = st_occurred_at start\<rparr>) d = Inr (requested, d1)"
      using fresh(2) by simp
    have lok: "log_ok d'"
      using gateway_log.add_inv [OF assms(1) a] append_frame(1) [OF fresh(2)] fresh(6)
      by (metis log_ok_frame)
    have seq: "ev_sequence requested = int (length (room_log d (st_room_id start))) + 1"
      using gateway_log.add_sequence [OF assms(1) a] append_frame(6) [OF fresh(2)] by simp
    have "room_log d' (st_room_id start) = room_log d (st_room_id start) @ [requested]"
      using append_frame(6) [OF fresh(2)] by (simp add: room_log_def fresh(6))
    moreover have "request_event_of t requested"
      using fresh(2) by (auto simp: append_Inr request_event_of_def fresh(3))
    ultimately have "snapshot_ok d' t"
      by (simp add: snapshot_ok_def fresh(3) seq nth_append)
    moreover have "snapshot_ok d' u" if "u \<in> set (agent_tasks d)" for u
      using that assms(2) snapshot_ok_extend [OF _ fresh(6)] by (simp add: tasks_ok_def)
    ultimately have "tasks_ok d'" by (auto simp: tasks_ok_def fresh(7))
    moreover have "tasks_distinct d'"
      using assms(3) fresh(3,4) by (simp add: tasks_distinct_def fresh(7))
    ultimately show ?thesis using lok fresh(6) by blast
  qed
  then show "log_ok d'" "tasks_ok d'" "tasks_distinct d'" "\<exists>es. room_events d' = room_events d @ es"
    by simp_all
qed

lemma update_ok:
  assumes "log_ok d" "tasks_ok d"  "tasks_distinct d"
    "record_agent_task_update_with_outcome E req event now utc_now lease update d = Inr (res, d')"
  shows "log_ok d'" "tasks_ok d'" "tasks_distinct d'" "\<exists>es. room_events d' = room_events d @ es"
proof -
  from assms(4) have "log_ok d' \<and> tasks_ok d' \<and> tasks_distinct d' \<and> (\<exists>es. room_events d' = room_events d @ es)"
  proof (cases rule: update_Inr)
    case duplicate
    with assms show ?thesis by simp
  next
    case (recorded task payload state e d1)
    have "log_ok d1" using log_ok_append [OF assms(1) recorded(7)] .
    moreover have "room_events d' = room_events d1"
      using append_frame(1) [OF recorded(7)] recorded(8) by simp
    ultimately have "log_ok d'" using log_ok_frame by blast
    moreover have "tasks_ok d'" by (rule tasks_ok_row_update [OF assms(2) recorded(8,12)]) simp
    moreover have "tasks_distinct d'" using assms(3) tasks_distinct_frame [OF recorded(12)] by simp
    ultimately show ?thesis using recorded(8) by blast
  qed
  then show "log_ok d'" "tasks_ok d'" "tasks_distinct d'" "\<exists>es. room_events d' = room_events d @ es"
    by simp_all
qed

lemma claims_ok:
  assumes "log_ok d" "tasks_ok d" "tasks_distinct d"
  shows "claim_agent_task E task owner now d = (r, d') \<Longrightarrow>
      log_ok d' \<and> tasks_ok d' \<and> tasks_distinct d' \<and> room_events d' = room_events d"
    and "claim_oldest_queued_agent_task E agent owner now d = (r, d') \<Longrightarrow>
      log_ok d' \<and> tasks_ok d' \<and> tasks_distinct d' \<and> room_events d' = room_events d"
proof -
  have step: "log_ok d' \<and> tasks_ok d' \<and> tasks_distinct d' \<and> room_events d' = room_events d"
    if "d' = d\<lparr>agent_tasks := row_update p f (agent_tasks d)\<rparr>" "\<And>t. tk_task_id (f t) = tk_task_id t"
      "\<And>t. tk_room_id (f t) = tk_room_id t \<and> tk_request_id (f t) = tk_request_id t \<and>
       tk_requester_id (f t) = tk_requester_id t \<and> tk_context_revision (f t) = tk_context_revision t" for p f
  proof -
    have "tasks_ok d'" by (rule tasks_ok_row_update [OF assms(2), of d' "[]" p f]) (use that in auto)
    moreover have "tasks_distinct d'"
      using assms(3) tasks_distinct_frame [of d' p f d] that by simp
    moreover have "log_ok d'" using assms(1) that(1) log_ok_frame [of d' d] by simp
    ultimately show ?thesis using that(1) by simp
  qed
  show "log_ok d' \<and> tasks_ok d' \<and> tasks_distinct d' \<and> room_events d' = room_events d"
    if "claim_agent_task E task owner now d = (r, d')"
    using that
  proof (cases rule: claim_agent_task_cases [OF assms(3), consumes 1])
    case 1
    with assms show ?thesis by simp
  next
    case (2 t)
    show ?thesis by (rule step [OF 2(5)]) simp_all
  qed
  show "log_ok d' \<and> tasks_ok d' \<and> tasks_distinct d' \<and> room_events d' = room_events d"
    if "claim_oldest_queued_agent_task E agent owner now d = (r, d')"
    using that
  proof (cases rule: claim_oldest_cases)
    case 1
    with assms show ?thesis by simp
  next
    case (2 t)
    show ?thesis by (rule step [OF 2(6)]) simp_all
  qed
qed

lemma context_events:
  assumes "log_ok d" "context_for_lease E now lease d = Some c"
  shows "cx_events c = take (nat (tk_context_revision (cx_task c))) (room_log d (tk_room_id (cx_task c)))"
    and "cx_task c \<in> set (agent_tasks d)"
proof -
  from assms(2) obtain t where t: "leased_task E now lease d = Some t" "cx_task c = t"
    and ev: "cx_events c = by_sequence (filter (\<lambda>e. ev_room_id e = tk_room_id t \<and>
      ev_sequence e \<le> tk_context_revision t) (room_events d))"
    by (auto simp: context_for_lease_def)
  have "filter (\<lambda>e. ev_room_id e = tk_room_id t \<and> ev_sequence e \<le> tk_context_revision t) (room_events d) =
      filter (\<lambda>e. ev_sequence e \<le> tk_context_revision t) (room_log d (tk_room_id t))"
    unfolding room_log_def filter_filter by (rule filter_cong) auto
  also have "\<dots> = take (nat (tk_context_revision t)) (room_log d (tk_room_id t))"
    by (rule gateway_log.until_is_take [OF assms(1)])
  finally show "cx_events c = take (nat (tk_context_revision (cx_task c))) (room_log d (tk_room_id (cx_task c)))"
    using ev t(2) by_sequence_sorted [OF sorted_wrt_take [OF gateway_log.entries_sorted [OF assms(1)]]] by simp
  show "cx_task c \<in> set (agent_tasks d)" using leased_task_in [OF t(1)] t(2) by simp
qed


lemma leased_task_after_update:
  assumes "tasks_distinct d" "leased_task E now lease d = Some t" "now' < pg_time E (ls_expires_at lease)"
    "agent_tasks d' = row_update (\<lambda>u. tk_task_id u = tk_task_id t) f (agent_tasks d)"
    "tk_task_id (f t) = tk_task_id t" "tk_lease_owner (f t) = tk_lease_owner t"
    "tk_lease_expires_at (f t) = tk_lease_expires_at t"
  shows "leased_task E now' lease d' = Some (f t)"
proof -
  have t: "t \<in> set (agent_tasks d)" "tk_task_id t = ls_task_id lease" "tk_lease_owner t = Some (ls_owner_id lease)"
    "tk_lease_expires_at t = Some (pg_time E (ls_expires_at lease))"
    using leased_task_in [OF assms(2)] by auto
  have only: "u = t" if "u \<in> set (agent_tasks d)" "tk_task_id u = tk_task_id t" for u
    using distinct_map_inj [of tk_task_id "agent_tasks d"] assms(1) that t(1) by (simp add: tasks_distinct_def)
  have "find (\<lambda>u. tk_task_id u = ls_task_id lease \<and> tk_lease_owner u = Some (ls_owner_id lease) \<and>
      tk_lease_expires_at u = Some (pg_time E (ls_expires_at lease)) \<and> pg_time E (ls_expires_at lease) > now')
      (map (\<lambda>u. if tk_task_id u = tk_task_id t then f u else u) us) = Some (f t)"
    if "t \<in> set us" "set us \<subseteq> set (agent_tasks d)" for us
    using that
  proof (induction us)
    case (Cons u us)
    show ?case
    proof (cases "tk_task_id u = tk_task_id t")
      case True
      with only Cons.prems have "u = t" by auto
      with t assms(3,5-7) show ?thesis by simp
    next
      case False
      with Cons t(2) show ?thesis by auto
    qed
  qed simp
  from this [of "agent_tasks d"] t(1) show ?thesis
    by (simp add: leased_task_def assms(4) row_update_def)
qed

lemma leased_task_later:
  "leased_task E now lease d = Some t \<Longrightarrow> now' < pg_time E (ls_expires_at lease) \<Longrightarrow>
   leased_task E now' lease d = Some t"
  using leased_task_in [of E now lease d t] by (simp add: leased_task_def)

lemma normalized_payload_core_only:
  assumes "tk_task_id u = tk_task_id t" "tk_agent_id u = tk_agent_id t" "tk_requester_id u = tk_requester_id t"
    "tk_skill_id u = tk_skill_id t" "tk_context_revision u = tk_context_revision t"
  shows "normalized_agent_task_update_payload E u p = normalized_agent_task_update_payload E t p"
  using assms by (simp add: normalized_agent_task_update_payload_def core_payload_def)

lemma update_retry:
  assumes "log_ok d" "tasks_distinct d" "jsonb_ok E" "column_ok E" "exact (up_payload update)"
    "year_2000 \<le> up_occurred_at update" "now' < pg_time E (ls_expires_at lease)"
    "record_agent_task_update_with_outcome E req event now utc_now lease update d = Inr (res, d')"
  shows "record_agent_task_update_with_outcome E req' event' now' utc_now' lease update d' =
    Inr (res\<lparr>ur_duplicate := True\<rparr>, d')"
  using assms(8)
proof (cases rule: update_Inr)
  case (duplicate task payload ids)
  with leased_task_later [OF duplicate(2) assms(7)] show ?thesis
    by (simp add: record_agent_task_update_with_outcome_def)
next
  case (recorded task payload state e d1)
  let ?f = "\<lambda>t. t\<lparr>tk_state := state, tk_updated_at := pg_time E (up_occurred_at update)\<rparr>"
  have lt: "leased_task E now' lease d' = Some (?f task)"
    by (rule leased_task_after_update [OF assms(2) recorded(1) assms(7) recorded(12)]) simp_all
  have pl: "normalized_agent_task_update_payload E (?f task) (up_payload update) = Inr payload"
    using recorded(2) normalized_payload_core_only [of "?f task" task] by simp
  have ue: "update_entry (tk_task_id task, up_update_id update) d' = Some [event]"
    using recorded(3) by (simp add: update_entry_def recorded(11) find_append split: option.splits)
  have e: "ev_event_id e = event" "ev_event_type e = up_event_type update"
    "ev_occurred_at e = pg_time E (up_occurred_at update)" "jsonb E payload = Some (ev_payload e)"
    using recorded(7) by (auto simp: append_Inr)
  have "ev_payload e = payload"
    using jsonb_column.store_exact [OF assms(3) normalized_payload_exact [OF recorded(2) assms(5)] e(4)] .
  moreover have "timestamp_micros (ev_occurred_at e) = timestamp_micros (up_occurred_at update)"
    using column_time.store_micros [OF assms(4,6)] e(3) by simp
  ultimately have match: "is_matching_agent_task_update [e] update payload"
    using e(2) by (simp add: is_matching_agent_task_update_def)
  have "log_ok d'"
    using log_ok_append [OF assms(1) recorded(7)] append_frame(1) [OF recorded(7)] recorded(8) log_ok_frame [of d' d1]
    by simp
  then have "events_by_id [event] d' = [e]"
    using events_by_id_slice [of d' "room_events d" "[e]" "[]" "ev_room_id e"] recorded(8) e(1) by simp
  with lt pl ue match recorded(13) show ?thesis
    by (simp add: record_agent_task_update_with_outcome_def)
qed

subsection \<open>Properties\<close>

text \<open>
  C11: leases are exclusive.  Once a lease is granted, no interleaving of further claims (by identifier
  or of an agent's oldest task, by any owner), task starts and updates made before its expiry grants
  the same task again; the holder and the expiry, five minutes after the claim, stay recorded.
\<close>

theorem lease_exclusive:
  assumes "tasks_distinct d" "run_task_op E a now d = (Some l, d1)"
    "\<forall>(b, later) \<in> set ops. pg_time E later < ls_expires_at l"
    "run_claims (run_task_op E) ops d1 = (granted, d2)"
  shows "ls_task_id l \<notin> ls_task_id ` set granted \<and>
    lease_holder d2 (ls_task_id l) = Some (ls_owner_id l, ls_expires_at l) \<and>
    ls_expires_at l = pg_time E (now + seconds 300)"
  using task_leases.exclusive [OF task_leases.claim_inv [OF assms(1,2)] task_leases.claim_grants [OF assms(1,2)] assms(3,4)]
    task_op_leases [OF assms(1,2)]
  by (simp add: AGENT_TASK_LEASE_DURATION_def)

definition sample_task :: agent_task_record where
  "sample_task = \<lparr>tk_task_id = 10, tk_room_id = 1, tk_request_id = 2, tk_requester_id = 3,
     tk_agent_id = REFERENCE_AGENT_ID, tk_skill_id = SummarizeContext, tk_input = ''go'',
     tk_context_revision = 1, tk_state = Queued, tk_lease_owner = None, tk_lease_expires_at = None,
     tk_created_at = 0, tk_updated_at = 0\<rparr>"

theorem lease_exclusive_witness:
  "\<exists>d1 granted d2. run_task_op sample_ext (Claim_by_id 10 20) 0 (empty_db\<lparr>agent_tasks := [sample_task]\<rparr>) =
       (Some \<lparr>ls_task_id = 10, ls_owner_id = 20, ls_expires_at = seconds 300\<rparr>, d1) \<and>
     run_claims (run_task_op sample_ext) [(Claim_oldest REFERENCE_AGENT_ID 21, seconds 299)] d1 = (granted, d2) \<and>
     10 \<notin> ls_task_id ` set granted \<and> lease_holder d2 10 = Some (20, seconds 300)"
proof -
  let ?d = "empty_db\<lparr>agent_tasks := [sample_task]\<rparr>"
  let ?l = "\<lparr>ls_task_id = 10, ls_owner_id = 20, ls_expires_at = seconds 300\<rparr> :: agent_task_lease"
  have "fst (run_task_op sample_ext (Claim_by_id 10 20) 0 ?d) = Some ?l"
    by (simp add: claim_agent_task_def sample_task_def claimable_def open_state_def store_micros_def
        AGENT_TASK_LEASE_DURATION_def)
  then obtain d1 where d1: "run_task_op sample_ext (Claim_by_id 10 20) 0 ?d = (Some ?l, d1)"
    by (metis prod.collapse)
  obtain granted d2 where g: "run_claims (run_task_op sample_ext)
      [(Claim_oldest REFERENCE_AGENT_ID 21, seconds 299)] d1 = (granted, d2)"
    by fastforce
  have "tasks_distinct ?d" by (simp add: tasks_distinct_def)
  from lease_exclusive [OF this d1 _ g] d1 g show ?thesis by (simp add: store_micros_def)
qed

text \<open>
  Claiming an agent's queue is first in, first out and never blocks.  It grants a lease exactly when
  the agent has a claimable task, and then the one that is least by creation time and identifier.
\<close>

theorem claim_oldest_is_fifo:
  "case fst (claim_oldest_queued_agent_task E agent owner now d) of
     None \<Rightarrow> \<not> (\<exists>t. t \<in> set (agent_tasks d) \<and> tk_agent_id t = agent \<and> claimable (pg_time E now) t)
   | Some l \<Rightarrow> ls_owner_id l = owner \<and>
       (\<exists>t. t \<in> set (agent_tasks d) \<and> tk_task_id t = ls_task_id l \<and> tk_agent_id t = agent \<and>
          claimable (pg_time E now) t \<and>
          list_all (\<lambda>u. (tk_created_at t, tk_task_id t) \<le> (tk_created_at u, tk_task_id u))
            (filter (\<lambda>u. tk_agent_id u = agent \<and> claimable (pg_time E now) u) (agent_tasks d)))"
proof -
  obtain r d' where "claim_oldest_queued_agent_task E agent owner now d = (r, d')" by fastforce
  then show ?thesis
  proof (cases rule: claim_oldest_cases)
    case 1
    with \<open>claim_oldest_queued_agent_task E agent owner now d = (r, d')\<close> show ?thesis by auto
  next
    case (2 t)
    from 2(1-4) have "\<exists>t'. t' \<in> set (agent_tasks d) \<and> tk_task_id t' = tk_task_id t \<and> tk_agent_id t' = agent \<and>
          claimable (pg_time E now) t' \<and>
          list_all (\<lambda>u. (tk_created_at t', tk_task_id t') \<le> (tk_created_at u, tk_task_id u))
            (filter (\<lambda>u. tk_agent_id u = agent \<and> claimable (pg_time E now) u) (agent_tasks d))"
      by (intro exI [of _ t]) (simp add: list_all_iff)
    with 2(5) \<open>claim_oldest_queued_agent_task E agent owner now d = (r, d')\<close> show ?thesis by simp
  qed
qed

text \<open>
  C25: a finished task stays finished.  Whatever claims, starts and updates follow, a task that has
  succeeded or failed keeps that state.
\<close>

theorem terminal_task_absorbing:
  assumes "tasks_distinct d" "task_state d task = Some s" "s = Succeeded \<or> s = Failed"
  shows "task_state (snd (run_claims (run_task_op E) ops d)) task = Some s"
  using assms
proof (induction ops arbitrary: d)
  case (Cons x ops)
  obtain a now where x: "x = (a, now)" by fastforce
  obtain r d' where r: "run_task_op E a now d = (r, d')" by fastforce
  have closed: "\<not> open_state s" using Cons.prems(3) by (auto simp: open_state_def)
  have "tasks_distinct d'" using task_leases.claim_inv [OF Cons.prems(1) r] .
  moreover have "task_state d' task = Some s" by (rule task_op_terminal [OF Cons.prems(1) r Cons.prems(2) closed])
  ultimately show ?case using Cons.IH [of d'] Cons.prems(3) x r by (auto split: prod.split)
qed simp

theorem terminal_task_absorbing_witness:
  "task_state (snd (run_claims (run_task_op sample_ext) [(Claim_by_id 10 20, 5)]
     (empty_db\<lparr>agent_tasks := [sample_task\<lparr>tk_state := Failed\<rparr>]\<rparr>))) 10 = Some Failed"
  by (rule terminal_task_absorbing) (simp_all add: tasks_distinct_def task_state_def sample_task_def)

text \<open>
  Retrying an update is harmless.  After an update was recorded, sending it again under the same
  live lease returns the same events, marked as a duplicate, and leaves the database as it is.  The
  payload must be free of floating-point numbers, which a JSONB column may rewrite, and the instant
  must not precede the year 2000, where the column rounds the other way.
\<close>

theorem update_retry_is_duplicate:
  assumes "log_ok d" "tasks_distinct d" "jsonb_ok E" "column_ok E" "exact (up_payload update)"
    "year_2000 \<le> up_occurred_at update" "now' < pg_time E (ls_expires_at lease)"
    "record_agent_task_update_with_outcome E req event now utc_now lease update d = Inr (res, d')"
  shows "record_agent_task_update_with_outcome E req' event' now' utc_now' lease update d' =
    Inr (res\<lparr>ur_duplicate := True\<rparr>, d')"
  using assms by (rule update_retry)

definition sample_lease :: agent_task_lease where
  "sample_lease = \<lparr>ls_task_id = 10, ls_owner_id = 20, ls_expires_at = seconds 2000000000\<rparr>"

definition sample_update :: agent_task_update where
  "sample_update = \<lparr>up_update_id = 30, up_event_type = ''agent.task.progressed'', up_payload = jobj [],
     up_occurred_at = seconds 1000000000\<rparr>"

definition leased_sample :: agent_task_record where
  "leased_sample = sample_task\<lparr>tk_state := Running, tk_lease_owner := Some 20,
     tk_lease_expires_at := Some (seconds 2000000000)\<rparr>"

definition leased_db :: db where
  "leased_db = empty_db\<lparr>agent_tasks := [leased_sample]\<rparr>"

definition plain_ext :: ext where
  \<comment> \<open>the sample with columns that store every document as it is\<close>
  "plain_ext = sample_ext\<lparr>jsonb := Some\<rparr>"

lemma plain_ext_laws: "jsonb_ok plain_ext" "column_ok plain_ext" "uuid_ok plain_ext" "time_ok plain_ext"
  using column_ok_sample uuid_ok_sample time_ok_sample
  by (simp_all add: plain_ext_def jsonb_column_def)

lemma sample_update_ok:
  "\<exists>res d'. record_agent_task_update_with_outcome plain_ext 40 41 0 0 sample_lease sample_update leased_db = Inr (res, d')"
proof -
  let ?t = leased_sample
  have t: "leased_task plain_ext 0 sample_lease leased_db = Some ?t"
    by (simp add: leased_task_def sample_lease_def leased_db_def leased_sample_def sample_task_def
        store_micros_def plain_ext_def)
  have "is_ok (normalized_agent_task_update_payload plain_ext ?t (jobj []))"
    by (simp add: normalized_agent_task_update_payload_def core_payload_def jobj_def)
  then obtain p where p: "normalized_agent_task_update_payload plain_ext ?t (jobj []) = Inr p"
    by (auto simp: is_ok_def split: sum.splits)
  show ?thesis
    by (simp add: record_agent_task_update_with_outcome_def t sample_update_def p)
       (simp add: update_entry_def leased_db_def leased_sample_def empty_db_def open_state_def state_for_update_def
          append_event_in_transaction_def is_valid_room_event_def message_mentions_are_unique_def wire_simps
          plain_ext_def enter_update_def Let_def text_ok_def i64_max_def)
qed

theorem update_retry_is_duplicate_witness:
  "\<exists>res d'. record_agent_task_update_with_outcome plain_ext 40 41 0 0 sample_lease sample_update leased_db = Inr (res, d') \<and>
     record_agent_task_update_with_outcome plain_ext 50 51 7 8 sample_lease sample_update d' =
       Inr (res\<lparr>ur_duplicate := True\<rparr>, d')"
proof -
  obtain res d' where r: "record_agent_task_update_with_outcome plain_ext 40 41 0 0 sample_lease sample_update leased_db = Inr (res, d')"
    using sample_update_ok by blast
  have "log_ok leased_db" "tasks_distinct leased_db"
    by (simp_all add: leased_db_def log_ok_def room_log_def empty_db_def tasks_distinct_def)
  moreover have "exact (up_payload sample_update)" "year_2000 \<le> up_occurred_at sample_update"
    by (simp_all add: sample_update_def exact_jobj year_2000_def)
  moreover have "7 < pg_time plain_ext (ls_expires_at sample_lease)"
    by (simp add: plain_ext_def store_micros_def sample_lease_def)
  ultimately show ?thesis
    using r update_retry_is_duplicate [OF _ _ plain_ext_laws(1,2) _ _ _ r] by blast
qed

text \<open>
  C20: a task sees the room exactly as it was when the task was requested.  The context of a live lease
  is the room's log up to the task's context revision, its last event is the task's own request, and
  events appended later never change it.
\<close>

theorem context_is_snapshot:
  assumes "log_ok d" "tasks_ok d" "context_for_lease E now lease d = Some c"
    "room_events d' = room_events d @ es" "agent_tasks d' = agent_tasks d" "log_ok d'"
  shows "context_for_lease E now lease d' = Some c \<and>
    cx_events c = take (nat (tk_context_revision (cx_task c))) (room_log d (tk_room_id (cx_task c))) \<and>
    cx_events c \<noteq> [] \<and> request_event_of (cx_task c) (last (cx_events c))"
proof -
  let ?t = "cx_task c" and ?n = "nat (tk_context_revision (cx_task c))"
  note ev = context_events [OF assms(1,3)]
  have ok: "snapshot_ok d ?t" using assms(2) ev(2) by (simp add: tasks_ok_def)
  then have n: "1 \<le> ?n" "?n \<le> length (room_log d (tk_room_id ?t))"
    "request_event_of ?t (room_log d (tk_room_id ?t) ! (?n - 1))"
    by (auto simp: snapshot_ok_def nat_diff_distrib)
  have ne: "take ?n (room_log d (tk_room_id ?t)) \<noteq> []" using n(1,2) by auto
  have last: "last (cx_events c) = room_log d (tk_room_id ?t) ! (?n - 1)" "cx_events c \<noteq> []"
    using n(1,2) ne by (simp_all add: ev(1) last_conv_nth [OF ne] min_absorb2)
  from assms(3) have lt: "leased_task E now lease d = Some ?t" by (auto simp: context_for_lease_def)
  then have lt': "leased_task E now lease d' = Some ?t" by (simp add: leased_task_def assms(5))
  then obtain c' where c': "context_for_lease E now lease d' = Some c'" "cx_task c' = ?t"
    by (simp add: context_for_lease_def)
  have "room_log d' (tk_room_id ?t) = room_log d (tk_room_id ?t) @ filter (\<lambda>e. ev_room_id e = tk_room_id ?t) es"
    by (simp add: room_log_def assms(4))
  then have "cx_events c' = cx_events c"
    using context_events(1) [OF assms(6) c'(1)] c'(2) ev(1) n(2) by simp
  with c' have "c' = c" by (cases c; cases c') simp
  with c'(1) ev(1) last n(3) show ?thesis by simp
qed


definition requested_sample :: room_event where
  "requested_sample = \<lparr>ev_event_id = 60, ev_room_id = 1, ev_sequence = 1, ev_request_id = 2,
     ev_event_type = ''agent.task.requested'', ev_actor_id = 3, ev_actor_role = ''human'',
     ev_actor_display_name = None, ev_payload = JNull, ev_occurred_at = 0\<rparr>"

theorem context_is_snapshot_witness:
  "(let d = leased_db\<lparr>room_events := [requested_sample]\<rparr>;
        d' = leased_db\<lparr>room_events := [requested_sample, requested_sample\<lparr>ev_event_id := 61, ev_sequence := 2\<rparr>]\<rparr>;
        c = \<lparr>cx_task = leased_sample, cx_events = [requested_sample]\<rparr>
    in context_for_lease sample_ext 0 sample_lease d = Some c \<and>
       context_for_lease sample_ext 0 sample_lease d' = Some c)"
proof -
  let ?d = "leased_db\<lparr>room_events := [requested_sample]\<rparr>"
  let ?d' = "leased_db\<lparr>room_events := [requested_sample, requested_sample\<lparr>ev_event_id := 61, ev_sequence := 2\<rparr>]\<rparr>"
  let ?c = "\<lparr>cx_task = leased_sample, cx_events = [requested_sample]\<rparr> :: agent_task_context"
  have ok: "log_ok ?d" "log_ok ?d'"
    by (auto simp: log_ok_def room_log_def requested_sample_def upto_rec1)
  have "tasks_ok ?d"
    by (simp add: tasks_ok_def snapshot_ok_def request_event_of_def leased_db_def leased_sample_def
        sample_task_def room_log_def requested_sample_def)
  moreover have c: "context_for_lease sample_ext 0 sample_lease ?d = Some ?c"
    by (simp add: context_for_lease_def leased_task_def sample_lease_def leased_db_def leased_sample_def
        sample_task_def store_micros_def requested_sample_def by_sequence_def)
  ultimately show ?thesis
    using context_is_snapshot [OF ok(1) _ c, of ?d' "[requested_sample\<lparr>ev_event_id := 61, ev_sequence := 2\<rparr>]"] ok(2)
    by (simp add: Let_def)
qed

text \<open>
  Only the holder of a live lease can report on a task, and only while the task is open.  An update
  that is recorded was sent under the recorded lease before its expiry, for a task that was queued,
  running or waiting; it appends one event of the task's agent to the task's room, whose payload carries
  the task, agent, requester and context revision of the stored task, and moves the task to the state
  of the event type.
\<close>

theorem recorded_update_is_authorized:
  assumes "jsonb_ok E" "exact (up_payload update)"
    "record_agent_task_update_with_outcome E req event now utc_now lease update d = Inr (res, d')"
    "\<not> ur_duplicate res"
  shows "\<exists>t e state. t \<in> set (agent_tasks d) \<and> tk_task_id t = ls_task_id lease \<and>
    tk_lease_owner t = Some (ls_owner_id lease) \<and> now < pg_time E (ls_expires_at lease) \<and>
    tk_lease_expires_at t = Some (pg_time E (ls_expires_at lease)) \<and> open_state (tk_state t) \<and>
    room_events d' = room_events d @ [e] \<and> ur_events res = [e] \<and> ev_room_id e = tk_room_id t \<and>
    ev_actor_id e = tk_agent_id t \<and> ev_actor_role e = ''agent'' \<and> ev_event_type e = up_event_type update \<and>
    jget (ev_payload e) ''taskId'' = Some (juuid E (tk_task_id t)) \<and>
    jget (ev_payload e) ''requesterId'' = Some (juuid E (tk_requester_id t)) \<and>
    jget (ev_payload e) ''contextRevision'' = Some (JInt (tk_context_revision t)) \<and>
    state_for_update (up_event_type update) = Inr state \<and> task_state d' (tk_task_id t) = Some state"
  using assms(3)
proof (cases rule: update_Inr)
  case (duplicate task payload ids)
  with assms(4) show ?thesis by simp
next
  case (recorded t payload state e d1)
  have e: "ev_room_id e = tk_room_id t" "ev_actor_id e = tk_agent_id t" "ev_actor_role e = ''agent''"
    "ev_event_type e = up_event_type update" "jsonb E payload = Some (ev_payload e)"
    using recorded(7) by (auto simp: append_Inr)
  have payload: "ev_payload e = payload"
    using jsonb_column.store_exact [OF assms(1) normalized_payload_exact [OF recorded(2) assms(2)] e(5)] .
  note leased = leased_task_in [OF recorded(1)]
  have "find (\<lambda>u. tk_task_id u = tk_task_id t) (agent_tasks d) \<noteq> None"
    using leased unfolding find_None_all by blast
  then obtain u where "find (\<lambda>u. tk_task_id u = tk_task_id t) (agent_tasks d) = Some u" by blast
  then have state: "task_state d' (tk_task_id t) = Some state"
    using find_Some_in [of "\<lambda>u. tk_task_id u = tk_task_id t" "agent_tasks d" u]
    by (simp add: task_state_def recorded(12) find_task_update)
  show ?thesis
  proof (intro exI conjI)
    show "t \<in> set (agent_tasks d)" "tk_task_id t = ls_task_id lease"
      "tk_lease_owner t = Some (ls_owner_id lease)" "now < pg_time E (ls_expires_at lease)"
      "tk_lease_expires_at t = Some (pg_time E (ls_expires_at lease))"
      using leased by simp_all
    show "jget (ev_payload e) ''taskId'' = Some (juuid E (tk_task_id t))"
      "jget (ev_payload e) ''requesterId'' = Some (juuid E (tk_requester_id t))"
      "jget (ev_payload e) ''contextRevision'' = Some (JInt (tk_context_revision t))"
      unfolding payload using normalized_payload_core [OF recorded(2)] by simp_all
    show "ur_events res = [e]" by (simp add: recorded(13))
  qed (rule recorded(4) recorded(8) e state recorded(6))+
qed

theorem recorded_update_is_authorized_witness:
  "\<exists>res d' e. record_agent_task_update_with_outcome plain_ext 40 41 0 0 sample_lease sample_update leased_db = Inr (res, d') \<and>
     room_events d' = room_events leased_db @ [e] \<and> ev_event_type e = ''agent.task.progressed''"
proof -
  obtain res d' where r: "record_agent_task_update_with_outcome plain_ext 40 41 0 0 sample_lease sample_update leased_db = Inr (res, d')"
    using sample_update_ok by blast
  then have "\<not> ur_duplicate res"
    by (cases rule: update_Inr) (simp_all add: update_entry_def leased_db_def empty_db_def)
  from recorded_update_is_authorized [OF plain_ext_laws(1) _ r this] r show ?thesis
    by (auto simp: sample_update_def exact_jobj)
qed

end
