(* ===== verification/Action_Items.thy ===== *)
theory Action_Items
  imports Externals
begin

text \<open>
  The deterministic Action Items agent, \<open>src/action_items.rs\<close>: its identity and the line parser
  \<open>extract_action_items\<close>.  The lemmas show that the parser inverts the documented bullet syntax, that
  everything it returns is a non-empty trimmed field, and which lines make it fail.
\<close>

record action_item =
  item_text :: string
  item_owner :: "string option"
  item_due :: "string option"

datatype parse_error = EmptyField | UnsupportedField

fun parse_fields ::
  "string list \<Rightarrow> string option \<Rightarrow> string option \<Rightarrow> parse_error + (string option \<times> string option)" where
  "parse_fields [] owner due = Inr (owner, due)"
| "parse_fields (field # rest) owner due =
     (case split_once (CHR '':'') field of
        None \<Rightarrow> Inl UnsupportedField
      | Some (name, value) \<Rightarrow>
          (let value = trim value in
           if value = [] then Inl EmptyField
           else if trim name = ''owner'' \<and> owner = None then parse_fields rest (Some value) due
           else if trim name = ''due'' \<and> due = None then parse_fields rest owner (Some value)
           else Inl UnsupportedField))"

definition parse_bullet :: "string \<Rightarrow> parse_error + action_item" where
  \<comment> \<open>one iteration of the loop, on what follows the bullet\<close>
  "parse_bullet line =
     (let parts = map trim (split_char (CHR ''|'') line);
          text = trim (hd parts)
      in if text = [] then Inl EmptyField
         else rbind (parse_fields (tl parts) None None)
                (\<lambda>(owner, due). Inr \<lparr>item_text = text, item_owner = owner, item_due = due\<rparr>))"

fun extract_lines :: "string list \<Rightarrow> action_item list \<Rightarrow> parse_error + action_item list" where
  "extract_lines [] items = Inr items"
| "extract_lines (line # lines) items =
     (case strip_prefix ''- '' (trim_start line) of
        None \<Rightarrow> extract_lines lines items
      | Some line \<Rightarrow> rbind (parse_bullet line) (\<lambda>item. extract_lines lines (items @ [item])))"

definition extract_action_items :: "string \<Rightarrow> parse_error + action_item list" where
  "extract_action_items source =
     extract_lines (str_lines (remove_first ''@action-items'' source)) []"

definition ACTION_ITEMS_AGENT_ID :: uuid where
  "ACTION_ITEMS_AGENT_ID = 0x74686f756768746b686f72616c000002"

definition ACTION_ITEMS_AGENT_DISPLAY_NAME :: string where
  "ACTION_ITEMS_AGENT_DISPLAY_NAME = ''Action Items''"

text \<open>The bullet syntax, and the items that can be written in it.\<close>

definition bullets :: "string list \<Rightarrow> string list" where
  "bullets lines = List.map_filter (\<lambda>l. strip_prefix ''- '' (trim_start l)) lines"

definition field_ok :: "string \<Rightarrow> bool" where
  "field_ok s \<longleftrightarrow> s \<noteq> [] \<and> trimmed s \<and> CHR ''|'' \<notin> set s"

definition writable :: "string \<Rightarrow> bool" where
  "writable s \<longleftrightarrow> field_ok s \<and> newline \<notin> set s \<and> carriage \<notin> set s"

definition item_fields :: "action_item \<Rightarrow> string list" where
  "item_fields i = item_text i # case_option [] (\<lambda>s. [s]) (item_owner i) @
     case_option [] (\<lambda>s. [s]) (item_due i)"

definition render_item :: "action_item \<Rightarrow> string" where
  "render_item i = ''- '' @ item_text i @
     case_option [] (\<lambda>s. '' | owner: '' @ s) (item_owner i) @
     case_option [] (\<lambda>s. '' | due: '' @ s) (item_due i)"

definition render_items :: "action_item list \<Rightarrow> string" where
  "render_items items = ''@action-items'' @ newline # concat (map (\<lambda>i. render_item i @ [newline]) items)"

subsection \<open>White space around fields\<close>

lemma ws_len_before_space: "s \<noteq> [] \<Longrightarrow> ws_len s = 0 \<Longrightarrow> ws_len (s @ CHR 0x20 # r) = 0"
  by (cases s rule: ws_len.cases; cases r)
     (auto simp: is_ws2_def is_ws3_def split: if_splits)

lemma ws_len_back_after_space:
  "s \<noteq> [] \<Longrightarrow> ws_len_back s = 0 \<Longrightarrow> ws_len_back (s @ CHR 0x20 # r) = 0"
  by (cases s rule: ws_len_back.cases; cases r)
     (auto simp: is_ws2_def is_ws3_def split: if_splits)

lemma trimmed_labelled:
  assumes "v \<noteq> []" "trimmed v" "ws_len (label @ CHR 0x20 # v) = 0"
  shows "trimmed (label @ CHR 0x20 # v)"
  using assms ws_len_back_after_space [of "rev v" "rev label"] by (simp add: trimmed_def)

lemma trim_pad_right:
  assumes "s \<noteq> []" "trimmed s"
  shows "trim (s @ [CHR 0x20]) = s"
  using assms ws_len_before_space [of s "[]"]
  by (simp add: trim_def trimmed_def trim_start_id trim_end_append_space trim_end_id)

lemma trim_pad_left: "trimmed s \<Longrightarrow> trim (CHR 0x20 # s) = s"
  by (simp add: trim_def trimmed_def trim_start_append_space trim_start_id trim_end_id)

lemma trim_pad_both: "s \<noteq> [] \<Longrightarrow> trimmed s \<Longrightarrow> trim (CHR 0x20 # s @ [CHR 0x20]) = s"
  using trim_pad_right [of s] by (simp add: trim_def trim_start_append_space)

lemma ws_len_ascii: "128 > byte c \<Longrightarrow> \<not> is_ascii_ws c \<Longrightarrow> ws_len (c # s) = 0"
  by (cases "c # s" rule: ws_len.cases) (auto simp: is_ws2_def is_ws3_def)

lemma label_clean [simp]:
  "ws_len (CHR ''o'' # s) = 0" "ws_len (CHR ''d'' # s) = 0" "ws_len (CHR ''-'' # s) = 0"
  by (simp_all add: ws_len_ascii is_ascii_ws_def)

subsection \<open>Parsing what was rendered\<close>

lemma parse_owner_field:
  assumes "v \<noteq> []" "trimmed v"
  shows "parse_fields ((''owner: '' @ v) # fs) None due = parse_fields fs (Some v) due"
proof -
  have "split_once (CHR '':'') (''owner'' @ CHR '':'' # CHR 0x20 # v) = Some (''owner'', CHR 0x20 # v)"
    by (rule split_once_append) simp
  moreover have "trim ''owner'' = ''owner''" by code_simp
  ultimately show ?thesis using assms by (simp add: trim_pad_left)
qed

lemma parse_due_field:
  assumes "v \<noteq> []" "trimmed v"
  shows "parse_fields ((''due: '' @ v) # fs) owner None = parse_fields fs owner (Some v)"
proof -
  have "split_once (CHR '':'') (''due'' @ CHR '':'' # CHR 0x20 # v) = Some (''due'', CHR 0x20 # v)"
    by (rule split_once_append) simp
  moreover have "trim ''due'' = ''due''" by code_simp
  ultimately show ?thesis using assms by (simp add: trim_pad_left)
qed

lemma trimmed_owner: "v \<noteq> [] \<Longrightarrow> trimmed v \<Longrightarrow> trimmed (''owner: '' @ v)"
  using trimmed_labelled [of v "''owner:''"] by (simp add: is_ascii_ws_def is_ws2_def is_ws3_def)

lemma trimmed_due: "v \<noteq> [] \<Longrightarrow> trimmed v \<Longrightarrow> trimmed (''due: '' @ v)"
  using trimmed_labelled [of v "''due:''"] by (simp add: is_ascii_ws_def is_ws2_def is_ws3_def)


definition tail_fields :: "action_item \<Rightarrow> string list" where
  "tail_fields i = case_option [] (\<lambda>s. [''owner: '' @ s]) (item_owner i) @
     case_option [] (\<lambda>s. [''due: '' @ s]) (item_due i)"

lemma parse_tail_fields:
  assumes "\<forall>s \<in> set (item_fields i). field_ok s"
  shows "parse_fields (tail_fields i) None None = Inr (item_owner i, item_due i)"
  using assms
  by (cases "item_owner i"; cases "item_due i")
     (simp_all add: tail_fields_def item_fields_def field_ok_def
        parse_owner_field [simplified] parse_due_field [simplified])

lemma split_rendered:
  assumes ok: "\<forall>s \<in> set (item_fields i). field_ok s"
  shows "map trim (split_char (CHR ''|'') (drop 2 (render_item i))) = item_text i # tail_fields i"
proof -
  have bar: "CHR ''|'' \<notin> set (item_text i)" "item_text i \<noteq> []" "trimmed (item_text i)"
    using ok by (simp_all add: item_fields_def field_ok_def)
  have label: "trim (item_text i) = item_text i" "trim (item_text i @ [CHR 0x20]) = item_text i"
    using bar by (simp_all add: trim_trimmed_id trim_pad_right)
  have split: "split_char (CHR ''|'') (a @ CHR 0x20 # CHR ''|'' # b) =
      (a @ [CHR 0x20]) # split_char (CHR ''|'') b" if "CHR ''|'' \<notin> set a" for a b
    using split_char_append [of "CHR ''|''" "a @ [CHR 0x20]" b] that by simp
  have owner: "split_char (CHR ''|'') ('' owner: '' @ s) = ['' owner: '' @ s]"
    "trim ('' owner: '' @ s) = ''owner: '' @ s"
    "trim ('' owner: '' @ s @ [CHR 0x20]) = ''owner: '' @ s"
    if "field_ok s" for s
    using that trim_pad_left [OF trimmed_owner, of s] trim_pad_both [OF _ trimmed_owner, of s]
    by (simp_all add: split_char_none field_ok_def)
  have due: "split_char (CHR ''|'') ('' due: '' @ s) = ['' due: '' @ s]"
    "trim ('' due: '' @ s) = ''due: '' @ s"
    if "field_ok s" for s
    using that trim_pad_left [OF trimmed_due, of s] by (simp_all add: split_char_none field_ok_def)
  show ?thesis
  proof (cases "item_owner i")
    case None
    with ok bar label due split show ?thesis
      by (cases "item_due i") (simp_all add: render_item_def tail_fields_def item_fields_def split_char_none)
  next
    case (Some w)
    with ok have w: "field_ok w" by (simp add: item_fields_def)
    then have "CHR ''|'' \<notin> set ('' owner: '' @ w)" by (simp add: field_ok_def)
    from split [OF this] Some ok w bar label due owner split show ?thesis
      by (cases "item_due i") (simp_all add: render_item_def tail_fields_def item_fields_def)
  qed
qed


lemma parse_bullet_rendered:
  assumes "\<forall>s \<in> set (item_fields i). field_ok s"
  shows "parse_bullet (drop 2 (render_item i)) = Inr i"
proof -
  have "item_text i \<noteq> []" "trimmed (item_text i)"
    using assms by (simp_all add: item_fields_def field_ok_def)
  then show ?thesis
    by (simp add: parse_bullet_def split_rendered [OF assms] parse_tail_fields [OF assms] trim_trimmed_id)
qed

lemma render_item_line:
  "strip_prefix ''- '' (trim_start (render_item i)) = Some (drop 2 (render_item i))"
proof -
  have "render_item i = ''- '' @ drop 2 (render_item i)" by (simp add: render_item_def)
  moreover have "trim_start (render_item i) = render_item i"
    by (simp add: trim_start_id render_item_def)
  ultimately show ?thesis by (metis strip_prefix_append)
qed

lemma render_item_no_eol:
  assumes "\<forall>s \<in> set (item_fields i). writable s"
  shows "newline \<notin> set (render_item i)" "carriage \<notin> set (render_item i)"
  using assms
  by (auto simp: render_item_def item_fields_def writable_def split: option.splits)

lemma extract_rendered_lines:
  assumes "\<forall>i \<in> set items. \<forall>s \<in> set (item_fields i). writable s"
  shows "extract_lines (str_lines (concat (map (\<lambda>i. render_item i @ [newline]) items))) acc
    = Inr (acc @ items)"
  using assms
proof (induction items arbitrary: acc)
  case (Cons i items)
  then have ok: "\<forall>s \<in> set (item_fields i). writable s" by simp
  then have "\<forall>s \<in> set (item_fields i). field_ok s" by (simp add: writable_def)
  moreover have "str_lines (render_item i @ newline # r) = render_item i # str_lines r" for r
    by (rule str_lines_line) (rule render_item_no_eol [OF ok])+
  ultimately show ?case
    using Cons by (simp add: render_item_line parse_bullet_rendered)
qed simp

subsection \<open>What the parser returns\<close>

lemma trim_subset: "set (trim s) \<subseteq> set s"
proof -
  obtain t where "s = t @ trim_start s"
    using trim_front_suffix [of s ws_len] by (auto simp: trim_start_def)
  moreover obtain u where "trim_start s = trim_end (trim_start s) @ u"
    using trim_end_prefix by blast
  ultimately show ?thesis unfolding trim_def by (metis Un_upper1 Un_upper2 order_trans set_append)
qed

lemma split_part_field_ok:
  assumes "p \<in> set (split_char (CHR ''|'') s)" "trim p \<noteq> []"
  shows "field_ok (trim p)"
  using assms split_char_parts [OF assms(1)] trim_subset [of p] by (auto simp: field_ok_def trimmed_trim)

lemma parse_fields_ok:
  assumes "parse_fields ps owner due = Inr (owner', due')"
    and "\<forall>p \<in> set ps. CHR ''|'' \<notin> set p"
    and "\<forall>s. owner = Some s \<or> due = Some s \<longrightarrow> field_ok s"
    and "owner' = Some s \<or> due' = Some s"
  shows "field_ok s"
  using assms
proof (induction ps arbitrary: owner due)
  case Nil
  then show ?case by auto
next
  case (Cons p ps)
  obtain name v where sp: "split_once (CHR '':'') p = Some (name, v)"
    using Cons.prems(1) by (auto split: option.splits)
  have "set v \<subseteq> set p" using split_once_Some [OF sp] by auto
  with Cons.prems(2) trim_subset [of v] have "CHR ''|'' \<notin> set (trim v)" by auto
  then have "field_ok (trim v)" if "trim v \<noteq> []"
    using that by (simp add: field_ok_def trimmed_trim)
  with Cons.prems sp Cons.IH [of "Some (trim v)" due] Cons.IH [of owner "Some (trim v)"]
  show ?case by (auto simp: Let_def split: if_splits)
qed

lemma parse_bullet_ok:
  assumes "parse_bullet l = Inr i"
  shows "\<forall>s \<in> set (item_fields i). field_ok s"
proof -
  let ?parts = "split_char (CHR ''|'') l"
  obtain p ps where parts: "?parts = p # ps" by (cases ?parts) auto
  have bars: "\<forall>q \<in> set (map trim ps). CHR ''|'' \<notin> set q"
    using split_char_parts [of _ "CHR ''|''" l] trim_subset parts by fastforce
  from assms parts obtain owner due where
    i: "i = \<lparr>item_text = trim p, item_owner = owner, item_due = due\<rparr>" and ne: "trim p \<noteq> []"
    and pf: "parse_fields (map trim ps) None None = Inr (owner, due)"
    by (auto simp: parse_bullet_def Let_def result_simps split: if_splits)
  have "field_ok (trim p)" using split_part_field_ok [of p l] ne parts by simp
  moreover have "field_ok s" if "owner = Some s \<or> due = Some s" for s
    using parse_fields_ok [OF pf bars _ that] by simp
  ultimately show ?thesis
    by (auto simp: i item_fields_def split: option.splits)
qed

lemma extract_lines_acc:
  "extract_lines ls acc = Inr items \<longleftrightarrow>
     (\<exists>new. items = acc @ new \<and> traverse parse_bullet (bullets ls) = Inr new)"
proof (induction ls arbitrary: acc)
  case (Cons l ls)
  show ?case
    by (cases "strip_prefix ''- '' (trim_start l)")
       (auto simp: Cons bullets_def result_simps)
qed (auto simp: bullets_def)

lemma extract_lines_error:
  "extract_lines ls acc = Inl e \<longleftrightarrow> traverse parse_bullet (bullets ls) = Inl e"
proof (induction ls arbitrary: acc)
  case (Cons l ls)
  show ?case
    by (cases "strip_prefix ''- '' (trim_start l)")
       (auto simp: Cons bullets_def result_simps)
qed (auto simp: bullets_def)

subsection \<open>Properties\<close>

text \<open>
  C38: parsing is a left inverse of the documented bullet syntax.  A mention followed by one line
  \<open>- text | owner: name | due: date\<close> per item (owner and due optional) is read back as exactly those
  items, for all fields that are non-empty, trimmed and free of bars and line breaks.
\<close>

theorem extract_render_roundtrip:
  assumes "\<forall>i \<in> set items. \<forall>s \<in> set (item_fields i). writable s"
  shows "extract_action_items (render_items items) = Inr items"
proof -
  have "str_lines (newline # r) = [] # str_lines r" for r
    using str_lines_line [of "[]" r] by simp
  moreover have "strip_prefix ''- '' (trim_start []) = None" by code_simp
  moreover have "remove_first ''@action-items'' (''@action-items'' @ r) = r" for r
    by (rule remove_first_append) simp
  ultimately show ?thesis
    unfolding extract_action_items_def render_items_def
    by (simp only: extract_lines.simps option.case extract_rendered_lines [OF assms] append.left_neutral)
qed

theorem extract_render_roundtrip_witness:
  "(let items = [\<lparr>item_text = ''Ship it'', item_owner = Some ''Maya'', item_due = None\<rparr>]
    in (\<forall>i \<in> set items. \<forall>s \<in> set (item_fields i). writable s) \<and>
       extract_action_items (render_items items) = Inr items)"
proof -
  let ?items = "[\<lparr>item_text = ''Ship it'', item_owner = Some ''Maya'', item_due = None\<rparr>]"
  have "\<forall>i \<in> set ?items. \<forall>s \<in> set (item_fields i). writable s"
    by code_simp
  with extract_render_roundtrip [OF this] show ?thesis by simp
qed

text \<open>
  On success the parser returns one item per bullet line, in order, and every text, owner and due
  date it returns is non-empty, trimmed and free of bars; otherwise it reports the error of the first
  bullet line that has one.
\<close>

theorem extract_action_items_spec:
  "case extract_action_items source of
     Inr items \<Rightarrow>
       list_all2 (\<lambda>l i. parse_bullet l = Inr i)
         (bullets (str_lines (remove_first ''@action-items'' source))) items \<and>
       list_all (\<lambda>i. list_all field_ok (item_fields i)) items
   | Inl e \<Rightarrow> traverse parse_bullet (bullets (str_lines (remove_first ''@action-items'' source))) = Inl e"
proof (cases "extract_action_items source")
  case (Inl e)
  then have "traverse parse_bullet (bullets (str_lines (remove_first ''@action-items'' source))) = Inl e"
    by (simp add: extract_action_items_def extract_lines_error)
  with Inl show ?thesis by simp
next
  case (Inr items)
  then have "traverse parse_bullet (bullets (str_lines (remove_first ''@action-items'' source))) = Inr items"
    by (simp add: extract_action_items_def extract_lines_acc)
  then have l2: "list_all2 (\<lambda>l i. parse_bullet l = Inr i)
      (bullets (str_lines (remove_first ''@action-items'' source))) items"
    by (simp add: traverse_Inr_iff)
  have "\<exists>l. parse_bullet l = Inr i" if "i \<in> set items" for i
    using list_all2_rightD [OF l2 that] by auto
  then have "list_all (\<lambda>i. list_all field_ok (item_fields i)) items"
    unfolding list_all_iff using parse_bullet_ok by blast
  with l2 Inr show ?thesis by simp
qed

end
