(* ===== verification/Mentions.thy ===== *)
theory Mentions
  imports Action_Items Room_Protocol "HOL-Library.Product_Lexorder" "HOL-Library.Multiset"
begin

text \<open>
  Participants and mentions, \<open>src/rooms.rs\<close>: the visibility rule, the slug of a display name, the
  assignment of unambiguous mention tokens, the validation of mentions, the audience of a message and
  its stored payload.  The lemmas show that tokens are well-formed and pairwise distinct, that the
  reserved words are never assigned, which mention lists are accepted, and who sees a message.
\<close>

record room_participant =
  rp_id :: uuid
  rp_role :: string
  rp_display_name :: string
  rp_online :: bool

definition participant_to_wire_value :: "ext \<Rightarrow> room_participant \<Rightarrow> json" where
  "participant_to_wire_value E p = jobj [
     (''id'', juuid E (rp_id p)),
     (''role'', JStr (rp_role p)),
     (''displayName'', JStr (rp_display_name p)),
     (''online'', JBool (rp_online p))]"

definition CODEX_AGENT_ID :: uuid where
  "CODEX_AGENT_ID = 0x74686f756768746b686f72616c000004"

definition MENTION_ALIASES :: "string list" where
  "MENTION_ALIASES = [''allhumans'', ''allagents'']"

definition event_visible_to :: "ext \<Rightarrow> room_event \<Rightarrow> uuid \<Rightarrow> bool" where
  "event_visible_to E event actor =
     (if jget_str (ev_payload event) ''delivery'' = Some ''mentioned'' then
        (case jget_array (ev_payload event) ''audienceIds'' of
           None \<Rightarrow> False
         | Some audience_ids \<Rightarrow> list_ex (\<lambda>a. parse_uuid_json E a = Some actor) audience_ids)
      else True)"

subsection \<open>Names\<close>

fun utf8_chars :: "string \<Rightarrow> string list" where
  \<comment> \<open>the characters of a string, each as its bytes\<close>
  "utf8_chars [] = []"
| "utf8_chars (c # cs) =
     (case utf8_chars cs of
        [] \<Rightarrow> [[c]]
      | [] # ps \<Rightarrow> [c] # ps
      | (b # bs) # ps \<Rightarrow> if is_continuation b then (c # b # bs) # ps else [c] # (b # bs) # ps)"

definition is_combining :: "string \<Rightarrow> bool" where
  \<comment> \<open>U+0300 to U+036F\<close>
  "is_combining c =
     (case c of [a, b] \<Rightarrow> byte a = 204 \<and> 128 \<le> byte b \<and> byte b \<le> 191 \<or>
                          byte a = 205 \<and> 128 \<le> byte b \<and> byte b \<le> 175
      | _ \<Rightarrow> False)"

definition char_to_lowercase :: "string \<Rightarrow> string list" where
  \<comment> \<open>\<open>char::to_lowercase\<close> as far as the slug can tell: an ASCII letter is lowered, U+0130 and U+212A are
    the two other characters whose image has an ASCII letter, every other image is non-ASCII\<close>
  "char_to_lowercase c =
     (case c of
        [a] \<Rightarrow> [[ascii_lower_char a]]
      | _ \<Rightarrow> if map byte c = [196, 176] then [''i'', [CHR 0xCC, CHR 0x87]]
            else if map byte c = [226, 132, 170] then [''k'']
            else [c])"

definition push_slug :: "string \<Rightarrow> string \<Rightarrow> string" where
  "push_slug slug c =
     (case c of
        [a] \<Rightarrow> if is_ascii_alphanumeric a then slug @ [a]
              else if slug = [] \<or> last slug \<noteq> CHR ''-'' then slug @ ''-'' else slug
      | _ \<Rightarrow> if slug = [] \<or> last slug \<noteq> CHR ''-'' then slug @ ''-'' else slug)"

definition trim_hyphens :: "string \<Rightarrow> string" where
  \<comment> \<open>\<open>trim_matches('-')\<close>\<close>
  "trim_hyphens s = rev (dropWhile (\<lambda>c. c = CHR ''-'') (rev (dropWhile (\<lambda>c. c = CHR ''-'') s)))"

definition normalized_participant_name :: "ext \<Rightarrow> string \<Rightarrow> string" where
  "normalized_participant_name E display_name =
     (let slug = trim_hyphens (foldl push_slug []
            (concat (map char_to_lowercase (filter (\<lambda>c. \<not> is_combining c) (utf8_chars (nfkd E display_name))))))
      in if slug = [] then ''participant'' else slug)"

definition participant_id_token :: "ext \<Rightarrow> uuid \<Rightarrow> string" where
  "participant_id_token E i =
     (let token = map ascii_lower_char (filter is_ascii_alphanumeric (uuid_text E i))
      in if token = [] then ''participant'' else token)"

subsection \<open>Tokens\<close>

abbreviation suffixed :: "string \<Rightarrow> string \<Rightarrow> nat \<Rightarrow> string" where
  \<comment> \<open>\<open>format!("{name}-{}", &id[..id_length])\<close>\<close>
  "suffixed name i n \<equiv> name @ ''-'' @ take n i"

definition pinned_codex :: "room_participant \<Rightarrow> bool" where
  "pinned_codex p \<longleftrightarrow> rp_id p = CODEX_AGENT_ID \<and> rp_role p = ''agent''"

definition needs_suffix :: "string list \<Rightarrow> room_participant \<times> string \<Rightarrow> bool" where
  "needs_suffix names q \<longleftrightarrow> \<not> pinned_codex (fst q) \<and>
     (snd q = ''codex-agent'' \<or> snd q \<in> set MENTION_ALIASES \<or> count_list names (snd q) > 1)"

fun plain_tokens ::
  "string list \<Rightarrow> (room_participant \<times> string) list \<Rightarrow> string list \<Rightarrow> string option list \<times> string list" where
  \<comment> \<open>the first loop: the tokens that need no suffix, and the occupied names\<close>
  "plain_tokens names [] occupied = ([], occupied)"
| "plain_tokens names (q # qs) occupied =
     (if needs_suffix names q then
        (let (ts, occ) = plain_tokens names qs occupied in (None # ts, occ))
      else
        (let (ts, occ) = plain_tokens names qs (snd q # occupied)
         in (Some (if pinned_codex (fst q) then ''codex-agent'' else snd q) # ts, occ)))"

definition disambiguated :: "ext \<Rightarrow> (room_participant \<times> string) list \<Rightarrow> (nat \<times> string \<times> string) list" where
  "disambiguated E qs =
     sort_key (\<lambda>(index, name, i). (name, i, index))
       (List.map_filter (\<lambda>(index, q).
          if needs_suffix (map snd qs) q then Some (index, snd q, participant_id_token E (rp_id (fst q))) else None)
        (List.enumerate 0 qs))"

function grow_group :: "string list \<Rightarrow> string \<Rightarrow> string list \<Rightarrow> nat \<Rightarrow> nat \<Rightarrow> nat" where
  \<comment> \<open>the \<open>while\<close> over the length of a group's suffixes\<close>
  "grow_group occupied name grp max_id_length id_length =
     (if id_length < max_id_length \<and>
         (card (set (map (take id_length) grp)) \<noteq> length grp \<or>
          list_ex (\<lambda>i. suffixed name i id_length \<in> set occupied) grp)
      then grow_group occupied name grp max_id_length (id_length + 1)
      else id_length)"
  by pat_completeness auto
termination
  by (relation "measure (\<lambda>(_, _, _, m, n). m - n)") auto

declare grow_group.simps [simp del]

definition group_of :: "(nat \<times> string \<times> string) list \<Rightarrow> string \<Rightarrow> (nat \<times> string \<times> string) list" where
  "group_of ds name = filter (\<lambda>(_, candidate, _). candidate = name) ds"

fun suffix_lengths :: "string list \<Rightarrow> (nat \<times> string \<times> string) list \<Rightarrow> (nat \<times> string \<times> string) list \<Rightarrow>
    (nat \<Rightarrow> nat option) \<Rightarrow> (nat \<Rightarrow> nat option)" where
  "suffix_lengths occupied ds [] lengths = lengths"
| "suffix_lengths occupied ds ((index, name, _) # rest) lengths =
     (if lengths index \<noteq> None then suffix_lengths occupied ds rest lengths
      else
        (let grp = group_of ds name;
             ids = map (\<lambda>(_, _, i). i) grp;
             max_id_length = foldr max (map length ids) 0;
             id_length = grow_group occupied name ids max_id_length (min 8 max_id_length)
         in suffix_lengths occupied ds rest
              (foldl (\<lambda>m g. m(fst g \<mapsto> id_length)) lengths grp)))"

function longer_token :: "string list \<Rightarrow> string \<Rightarrow> string \<Rightarrow> nat \<Rightarrow> string" where
  \<comment> \<open>the first \<open>while\<close> of the last loop\<close>
  "longer_token occupied name i id_length =
     (if suffixed name i id_length \<in> set occupied \<and> id_length < length i
      then longer_token occupied name i (id_length + 1) else suffixed name i id_length)"
  by pat_completeness auto
termination
  by (relation "measure (\<lambda>(_, _, i, n). length i - n)") auto

declare longer_token.simps [simp del]

abbreviation numbered :: "string \<Rightarrow> string \<Rightarrow> nat \<Rightarrow> string" where
  "numbered name i n \<equiv> name @ ''-'' @ i @ ''-'' @ decimal n"

lemma decimal_inject: "decimal m = decimal n \<longleftrightarrow> m = n"
  by (metis digits_read_decimal option.inject)

text \<open>
  The second \<open>while\<close> tries one number after another.  It stops because the occupied tokens are
  finitely many and the numbered ones are pairwise distinct.
\<close>

function numbered_token :: "string list \<Rightarrow> string \<Rightarrow> string \<Rightarrow> nat \<Rightarrow> string" where
  "numbered_token occupied name i duplicate =
     (if numbered name i duplicate \<in> set occupied then numbered_token occupied name i (duplicate + 1)
      else numbered name i duplicate)"
  by pat_completeness auto
termination
proof (relation "measure (\<lambda>(occ, name, i, n). card {k. n \<le> k \<and> numbered name i k \<in> set occ})")
  fix occ name i n
  assume hit: "numbered name i n \<in> set occ"
  have fin: "finite {k. n \<le> k \<and> numbered name i k \<in> set occ}"
  proof (rule finite_subset)
    show "{k. n \<le> k \<and> numbered name i k \<in> set occ} \<subseteq> (\<lambda>k. numbered name i k) -` set occ" by auto
    show "finite ((\<lambda>k. numbered name i k) -` set occ)"
      by (rule finite_vimageI) (auto simp: inj_def decimal_inject)
  qed
  have "n \<in> {k. n \<le> k \<and> numbered name i k \<in> set occ} - {k. n + 1 \<le> k \<and> numbered name i k \<in> set occ}"
    using hit by simp
  moreover have "{k. n + 1 \<le> k \<and> numbered name i k \<in> set occ} \<subseteq> {k. n \<le> k \<and> numbered name i k \<in> set occ}"
    by auto
  ultimately have "{k. n + 1 \<le> k \<and> numbered name i k \<in> set occ} \<subset> {k. n \<le> k \<and> numbered name i k \<in> set occ}"
    by blast
  then show "((occ, name, i, n + 1), occ, name, i, n)
      \<in> measure (\<lambda>(occ, name, i, n). card {k. n \<le> k \<and> numbered name i k \<in> set occ})"
    using psubset_card_mono [OF fin] by simp
qed simp

declare numbered_token.simps [simp del]

definition disambiguate :: "string list \<Rightarrow> string \<Rightarrow> string \<Rightarrow> nat option \<Rightarrow> string" where
  \<comment> \<open>one iteration of the last loop\<close>
  "disambiguate occupied name i len =
     (let id_length = min (case len of None \<Rightarrow> 8 | Some n \<Rightarrow> n) (length i);
          token = longer_token occupied name i id_length
      in if token \<in> set occupied then numbered_token occupied name i 2 else token)"

fun suffix_tokens :: "(nat \<Rightarrow> nat option) \<Rightarrow> (nat \<times> string \<times> string) list \<Rightarrow> string list \<Rightarrow> string option list \<Rightarrow>
    string option list" where
  "suffix_tokens lengths [] occupied tokens = tokens"
| "suffix_tokens lengths ((index, name, i) # ds) occupied tokens =
     (let token = disambiguate occupied name i (lengths index)
      in suffix_tokens lengths ds (token # occupied) (tokens[index := Some token]))"

definition participant_mention_tokens :: "ext \<Rightarrow> room_participant list \<Rightarrow> string list" where
  "participant_mention_tokens E participants =
     (let names = map (\<lambda>p. normalized_participant_name E (rp_display_name p)) participants;
          qs = zip participants names;
          (tokens, occupied) = plain_tokens names qs (''codex-agent'' # MENTION_ALIASES);
          ds = disambiguated E qs;
          lengths = suffix_lengths occupied ds ds (\<lambda>_. None)
      in map (\<lambda>t. case t of None \<Rightarrow> ''participant'' | Some x \<Rightarrow> x)
           (suffix_tokens lengths ds occupied tokens))"

subsection \<open>Validation and audience\<close>

fun check_mentions :: "(uuid \<Rightarrow> string option) \<Rightarrow> chat_mention list \<Rightarrow> uuid set \<Rightarrow> chat_mention_alias set \<Rightarrow>
    rpc_error + unit" where
  "check_mentions known [] ids als = Inr ()"
| "check_mentions known (Participant i token # ms) ids als =
     (case known i of
        None \<Rightarrow> Inl Unknown_mention_target
      | Some canonical \<Rightarrow>
          if i \<in> ids \<or> token \<noteq> canonical then Inl Unknown_mention_target
          else check_mentions known ms (insert i ids) als)"
| "check_mentions known (Alias a # ms) ids als =
     (if a \<in> als then Inl Unknown_mention_target else check_mentions known ms ids (insert a als))"

definition validate_mentions :: "ext \<Rightarrow> room_participant list \<Rightarrow> chat_mention list \<Rightarrow> rpc_error + unit" where
  "validate_mentions E participants mentions =
     (let tokens = participant_mention_tokens E participants;
          known = map_of (rev (zip (map rp_id participants) tokens))
      in check_mentions known mentions {} {})"

fun mention_targets :: "room_participant list \<Rightarrow> chat_mention \<Rightarrow> uuid list" where
  "mention_targets participants (Participant i _) = [i]"
| "mention_targets participants (Alias AllHumans) =
     map rp_id (filter (\<lambda>p. rp_role p = ''human'') participants)"
| "mention_targets participants (Alias AllAgents) =
     map rp_id (filter (\<lambda>p. rp_role p = ''agent'' \<or> rp_role p = ''human'') participants)"

definition resolve_chat_audience ::
  "ext \<Rightarrow> actor \<Rightarrow> room_participant list \<Rightarrow> chat_send \<Rightarrow> rpc_error + uuid list" where
  "resolve_chat_audience E actor participants request =
     rbind (validate_mentions E participants (cs_mentions request)) (\<lambda>_.
       if cs_delivery request = Room then Inr []
       else Inr (sorted_list_of_set
              (set (act_id actor # concat (map (mention_targets participants) (cs_mentions request))))))"

definition normalized_chat_payload :: "ext \<Rightarrow> chat_send \<Rightarrow> uuid list \<Rightarrow> json" where
  "normalized_chat_payload E request audience_ids = jobj [
     (''text'', JStr (cs_text request)),
     (''mentions'', mentions_json E (cs_mentions request)),
     (''delivery'', JStr (delivery_str (cs_delivery request))),
     (''audienceIds'', juuids E audience_ids)]"

definition action_items_task_payload :: "ext \<Rightarrow> uuid \<Rightarrow> uuid \<Rightarrow> uuid \<Rightarrow> json" where
  "action_items_task_payload E task_id source_event_id requester_id = jobj [
     (''taskId'', juuid E task_id),
     (''kind'', JStr ''action-items.v1''),
     (''sourceEventId'', juuid E source_event_id),
     (''requesterId'', juuid E requester_id),
     (''agentId'', juuid E ACTION_ITEMS_AGENT_ID)]"

definition invokes_action_items :: "actor \<Rightarrow> chat_send \<Rightarrow> bool" where
  "invokes_action_items actor request \<longleftrightarrow>
     act_role actor = Human \<and> cs_delivery request = Room \<and>
     list_ex (\<lambda>m. case m of Participant i _ \<Rightarrow> i = ACTION_ITEMS_AGENT_ID | Alias _ \<Rightarrow> False) (cs_mentions request)"

subsection \<open>Slugs\<close>

definition lower_alnum :: "char \<Rightarrow> bool" where
  "lower_alnum c \<longleftrightarrow> (48 \<le> byte c \<and> byte c \<le> 57) \<or> (97 \<le> byte c \<and> byte c \<le> 122)"

abbreviation hyphen :: char where
  "hyphen \<equiv> CHR ''-''"

definition slug_part :: "string \<Rightarrow> bool" where
  \<comment> \<open>lower-case letters, digits and hyphens, no two hyphens in a row\<close>
  "slug_part s \<longleftrightarrow> list_all (\<lambda>c. lower_alnum c \<or> c = hyphen) s \<and> successively (\<lambda>a b. a \<noteq> hyphen \<or> b \<noteq> hyphen) s"

definition slug :: "string \<Rightarrow> bool" where
  \<comment> \<open>the contract's pattern \<open>^[a-z0-9]+(-[a-z0-9]+)*$\<close>\<close>
  "slug s \<longleftrightarrow> s \<noteq> [] \<and> slug_part s \<and> hd s \<noteq> hyphen \<and> last s \<noteq> hyphen"

lemma not_lower_alnum_hyphen: "lower_alnum c \<Longrightarrow> c \<noteq> hyphen"
  by (auto simp: lower_alnum_def)

lemma lower_alnum_lowered: "is_ascii_alphanumeric c \<Longrightarrow> lower_alnum (ascii_lower_char c)"
  by (auto simp: is_ascii_alphanumeric_def lower_alnum_def ascii_lower_char_def is_ascii_upper_def of_char_of)

lemma ascii_lower_alnum: "is_ascii_alphanumeric (ascii_lower_char c) \<Longrightarrow> lower_alnum (ascii_lower_char c)"
proof (cases "is_ascii_upper c")
  case True
  then have "is_ascii_alphanumeric c" by (simp add: is_ascii_upper_def is_ascii_alphanumeric_def)
  then show ?thesis by (rule lower_alnum_lowered)
next
  case False
  assume "is_ascii_alphanumeric (ascii_lower_char c)"
  with False have "is_ascii_alphanumeric c" by (simp add: ascii_lower_char_def)
  then show ?thesis by (rule lower_alnum_lowered)
qed

lemma successively_snoc:
  "successively P (xs @ [x]) \<longleftrightarrow> successively P xs \<and> (xs = [] \<or> P (last xs) x)"
  by (auto simp: successively_append_iff)

lemma slug_part_snoc:
  assumes "slug_part s"
  shows "lower_alnum c \<Longrightarrow> slug_part (s @ [c])"
    and "s = [] \<or> last s \<noteq> hyphen \<Longrightarrow> slug_part (s @ [hyphen])"
  using assms not_lower_alnum_hyphen [of c] by (auto simp: slug_part_def successively_snoc)

definition lowered :: "string \<Rightarrow> bool" where
  "lowered c \<longleftrightarrow> (\<forall>a. c = [a] \<longrightarrow> is_ascii_alphanumeric a \<longrightarrow> lower_alnum a)"

lemma char_to_lowercase_lowered: "list_all lowered (char_to_lowercase c)"
proof (cases c)
  case Nil
  then show ?thesis by (simp add: char_to_lowercase_def lowered_def)
next
  case (Cons a cs)
  have ik: "lower_alnum (CHR ''i'')" "lower_alnum (CHR ''k'')" by (simp_all add: lower_alnum_def)
  show ?thesis
  proof (cases cs)
    case Nil
    with Cons show ?thesis using ascii_lower_alnum [of a] by (simp add: char_to_lowercase_def lowered_def)
  next
    case (Cons b bs)
    with \<open>c = a # cs\<close> ik show ?thesis by (simp add: char_to_lowercase_def lowered_def)
  qed
qed

lemma push_slug_part: "slug_part s \<Longrightarrow> lowered c \<Longrightarrow> slug_part (push_slug s c)"
  using slug_part_snoc [of s] by (cases "s = []") (auto simp: push_slug_def lowered_def split: list.splits)

lemma foldl_push_slug: "slug_part s \<Longrightarrow> list_all lowered cs \<Longrightarrow> slug_part (foldl push_slug s cs)"
  by (induction cs arbitrary: s) (auto simp: push_slug_part)

lemma slug_part_suffix: "slug_part (a @ b) \<Longrightarrow> slug_part a \<and> slug_part b"
  by (auto simp: slug_part_def successively_append_iff)

lemma slug_part_rev: "slug_part (rev s) = slug_part s"
proof -
  have sym: "(\<lambda>x y. y \<noteq> hyphen \<or> x \<noteq> hyphen) = (\<lambda>x y. x \<noteq> hyphen \<or> y \<noteq> hyphen)" by (auto simp: fun_eq_iff)
  show ?thesis unfolding slug_part_def successively_rev sym by (simp add: list_all_iff)
qed

lemma slug_part_dropWhile: "slug_part s \<Longrightarrow> slug_part (dropWhile P s)"
  using slug_part_suffix [of "takeWhile P s" "dropWhile P s"] by simp

lemma hd_rev_dropWhile: "dropWhile P (rev t) \<noteq> [] \<Longrightarrow> hd (rev (dropWhile P (rev t))) = hd t"
  by (cases t) (auto simp: dropWhile_append split: if_splits)

lemma trim_hyphens_slug:
  assumes "slug_part s" "trim_hyphens s \<noteq> []"
  shows "slug (trim_hyphens s)"
proof -
  let ?t = "dropWhile (\<lambda>c. c = hyphen) s"
  let ?u = "dropWhile (\<lambda>c. c = hyphen) (rev ?t)"
  have u: "trim_hyphens s = rev ?u" by (simp add: trim_hyphens_def)
  with assms(2) have ne: "?u \<noteq> []" by simp
  have "slug_part (trim_hyphens s)"
    unfolding u slug_part_rev using assms(1) by (intro slug_part_dropWhile) (simp add: slug_part_rev slug_part_dropWhile)
  moreover have "last (trim_hyphens s) \<noteq> hyphen"
    using hd_dropWhile [OF ne] by (simp add: u last_rev)
  moreover have "hd (trim_hyphens s) \<noteq> hyphen"
  proof -
    have "?t \<noteq> []"
    proof
      assume "?t = []"
      with ne show False by simp
    qed
    then have "hd ?t \<noteq> hyphen" by (rule hd_dropWhile)
    then show ?thesis unfolding u hd_rev_dropWhile [OF ne] .
  qed
  ultimately show ?thesis using assms(2) by (simp add: slug_def)
qed

lemma normalized_participant_name_slug: "slug (normalized_participant_name E n)"
proof -
  let ?cs = "concat (map char_to_lowercase (filter (\<lambda>c. \<not> is_combining c) (utf8_chars (nfkd E n))))"
  have "list_all lowered ?cs" using char_to_lowercase_lowered by (auto simp: list_all_iff)
  then have "slug_part (foldl push_slug [] ?cs)" by (intro foldl_push_slug) (simp_all add: slug_part_def)
  moreover have "slug ''participant''" by code_simp
  ultimately show ?thesis
    using trim_hyphens_slug by (simp add: normalized_participant_name_def Let_def)
qed

lemma slug_append: "slug a \<Longrightarrow> slug b \<Longrightarrow> slug (a @ ''-'' @ b)"
  by (auto simp: slug_def slug_part_def successively_append_iff successively_Cons)

lemma slug_alnum: "s \<noteq> [] \<Longrightarrow> list_all lower_alnum s \<Longrightarrow> slug s"
proof -
  assume ne: "s \<noteq> []" and al: "list_all lower_alnum s"
  then have nh: "\<forall>c \<in> set s. c \<noteq> hyphen" using not_lower_alnum_hyphen by (auto simp: list_all_iff)
  have "successively (\<lambda>a b. a \<noteq> hyphen \<or> b \<noteq> hyphen) s"
    using nh by (induction s rule: induct_list012) auto
  with ne al nh show ?thesis by (auto simp: slug_def slug_part_def list_all_iff)
qed

lemma participant_id_token_alnum: "participant_id_token E i \<noteq> [] \<and> list_all lower_alnum (participant_id_token E i)"
proof -
  have "list_all lower_alnum ''participant''" by code_simp
  then show ?thesis using lower_alnum_lowered by (auto simp: participant_id_token_def Let_def list_all_iff)
qed

lemma participant_id_token_ne [simp]: "participant_id_token E i \<noteq> []" "[] \<noteq> participant_id_token E i"
  using participant_id_token_alnum [of E i] by auto

lemma decimal_alnum: "decimal n \<noteq> [] \<and> list_all lower_alnum (decimal n)"
proof (induction n rule: decimal.induct)
  case (1 n)
  have "lower_alnum (char_of (48 + d))" if "d < 10" for d :: nat
    using that by (simp add: lower_alnum_def of_char_of)
  with 1 show ?case by (subst (1 2) decimal.simps) auto
qed


subsection \<open>Fresh tokens\<close>

lemma numbered_token_fresh: "numbered_token occ name i n \<notin> set occ"
proof (induction occ name i n rule: numbered_token.induct)
  case (1 occ name i n)
  then show ?case by (subst numbered_token.simps) auto
qed

lemma numbered_token_form: "\<exists>k. numbered_token occ name i n = numbered name i k"
proof (induction occ name i n rule: numbered_token.induct)
  case (1 occ name i n)
  then show ?case by (subst numbered_token.simps) auto
qed

lemma longer_token_form: "1 \<le> n \<Longrightarrow> \<exists>k \<ge> 1. longer_token occ name i n = suffixed name i k"
proof (induction occ name i n rule: longer_token.induct)
  case (1 occ name i n)
  show ?case
  proof (cases "suffixed name i n \<in> set occ \<and> n < length i")
    case True
    then have "longer_token occ name i n = longer_token occ name i (n + 1)"
      by (subst longer_token.simps) simp
    with 1 True show ?thesis by simp
  next
    case False
    then have "longer_token occ name i n = suffixed name i n"
      by (subst longer_token.simps) (rule if_not_P)
    with 1(2) show ?thesis by blast
  qed
qed

lemma disambiguate_fresh: "disambiguate occ name i len \<notin> set occ"
  using numbered_token_fresh by (simp add: disambiguate_def Let_def)

lemma disambiguate_slug:
  assumes "slug name" "i \<noteq> []" "list_all lower_alnum i" "case_option True (\<lambda>n. 1 \<le> n) len"
  shows "slug (disambiguate occ name i len)"
proof -
  let ?n = "min (case len of None \<Rightarrow> 8 | Some n \<Rightarrow> n) (length i)"
  have i: "slug i" using assms(2,3) by (rule slug_alnum)
  have "1 \<le> length i" using assms(2) by (cases i) auto
  then have "1 \<le> ?n" using assms(4) by (cases len) auto
  then obtain k where k: "1 \<le> k" "longer_token occ name i ?n = suffixed name i k"
    using longer_token_form by blast
  have "take k i \<noteq> []" "list_all lower_alnum (take k i)"
    using k(1) assms(2,3) by (auto simp: list_all_iff dest: in_set_takeD)
  then have "slug (longer_token occ name i ?n)"
    unfolding k(2) by (intro slug_append [OF assms(1)] slug_alnum)
  moreover have "slug (numbered_token occ name i 2)"
  proof -
    obtain m where m: "numbered_token occ name i 2 = numbered name i m" using numbered_token_form by blast
    have "slug (i @ ''-'' @ decimal m)" by (rule slug_append [OF i]) (use slug_alnum decimal_alnum in blast)
    then show ?thesis unfolding m by (rule slug_append [OF assms(1)])
  qed
  ultimately show ?thesis by (simp add: disambiguate_def Let_def)
qed

definition tokens_fresh :: "string option list \<Rightarrow> string list \<Rightarrow> bool" where
  "tokens_fresh tokens occ \<longleftrightarrow>
     (\<forall>i < length tokens. \<forall>t. tokens ! i = Some t \<longrightarrow> t \<in> set occ) \<and>
     (\<forall>i < length tokens. \<forall>j < length tokens. \<forall>t. tokens ! i = Some t \<and> tokens ! j = Some t \<longrightarrow> i = j)"

lemma tokens_fresh_update:
  assumes "tokens_fresh tokens occ" "t \<notin> set occ"
  shows "tokens_fresh (tokens[k := Some t]) (t # occ)"
proof (cases "k < length tokens")
  case True
  with assms show ?thesis unfolding tokens_fresh_def by (auto simp: nth_list_update split: if_splits)
next
  case False
  with assms(1) show ?thesis by (auto simp: tokens_fresh_def)
qed

lemma suffix_tokens_props:
  assumes "tokens_fresh tokens occ" "distinct (map fst ds)" "\<forall>d \<in> set ds. fst d < length tokens"
    "r = suffix_tokens lengths ds occ tokens"
  shows "length r = length tokens \<and> (\<exists>occ'. tokens_fresh r occ') \<and>
    (\<forall>k < length tokens. k \<notin> fst ` set ds \<longrightarrow> r ! k = tokens ! k) \<and>
    (\<forall>(k, name, i) \<in> set ds. \<exists>t occ'. r ! k = Some t \<and> t \<notin> set occ \<and> t = disambiguate occ' name i (lengths k))"
  using assms
proof (induction ds arbitrary: occ tokens)
  case Nil
  then show ?case by auto
next
  case (Cons d ds)
  obtain k name i where d: "d = (k, name, i)" by (cases d) auto
  define t where "t = disambiguate occ name i (lengths k)"
  have r: "r = suffix_tokens lengths ds (t # occ) (tokens[k := Some t])"
    using Cons.prems(4) by (simp add: d t_def Let_def)
  have fresh: "t \<notin> set occ" by (simp add: t_def disambiguate_fresh)
  have k: "k < length tokens" "k \<notin> fst ` set ds" using Cons.prems(2,3) d by auto
  note IH = Cons.IH [OF tokens_fresh_update [OF Cons.prems(1) fresh] _ _ r]
  have IH': "length r = length tokens \<and> (\<exists>occ'. tokens_fresh r occ') \<and>
    (\<forall>k' < length tokens. k' \<notin> fst ` set ds \<longrightarrow> r ! k' = tokens[k := Some t] ! k') \<and>
    (\<forall>(k, name, i) \<in> set ds. \<exists>u occ'. r ! k = Some u \<and> u \<notin> set (t # occ) \<and> u = disambiguate occ' name i (lengths k))"
    using IH Cons.prems(2,3) by simp
  then have "r ! k = Some t" using k by simp
  then have head: "\<exists>u occ'. r ! k = Some u \<and> u \<notin> set occ \<and> u = disambiguate occ' name i (lengths k)"
    using fresh t_def by blast
  have rest: "\<forall>(k, name, i) \<in> set ds. \<exists>u occ'. r ! k = Some u \<and> u \<notin> set occ \<and> u = disambiguate occ' name i (lengths k)"
    using IH' by fastforce
  have "\<forall>k' < length tokens. k' \<notin> fst ` set (d # ds) \<longrightarrow> r ! k' = tokens ! k'"
    using IH' d by auto
  with IH' head rest show ?case by (simp add: d)
qed

lemma plain_tokens_props:
  assumes "plain_tokens names qs occ = (ts, occ')"
  shows "length ts = length qs \<and> set occ' = set occ \<union> snd ` {q \<in> set qs. \<not> needs_suffix names q} \<and>
    (\<forall>k < length qs. ts ! k = (if needs_suffix names (qs ! k) then None
      else Some (if pinned_codex (fst (qs ! k)) then ''codex-agent'' else snd (qs ! k))))"
  using assms
proof (induction names qs occ arbitrary: ts occ' rule: plain_tokens.induct)
  case (2 names q qs occ)
  obtain ts1 occ1 where p1: "plain_tokens names qs occ = (ts1, occ1)" by fastforce
  obtain ts2 occ2 where p2: "plain_tokens names qs (snd q # occ) = (ts2, occ2)" by fastforce
  show ?case
  proof (cases "needs_suffix names q")
    case True
    with 2(3) p1 have "ts = None # ts1" "occ' = occ1" by simp_all
    with "2.IH"(1) [OF True p1] True show ?thesis by (auto simp: nth_Cons split: nat.splits)
  next
    case False
    with 2(3) p2 have "ts = Some (if pinned_codex (fst q) then ''codex-agent'' else snd q) # ts2" "occ' = occ2"
      by simp_all
    with "2.IH"(2) [OF False p2] False show ?thesis by (auto simp: nth_Cons split: nat.splits)
  qed
qed simp


lemma enumerate_filter_props:
  fixes P :: "'a \<Rightarrow> bool" and h :: "'a \<Rightarrow> 'b"
  defines "g \<equiv> \<lambda>(k :: nat, q). if P q then Some (k, h q) else None"
  shows "distinct (map fst (List.map_filter g (List.enumerate n qs))) \<and>
    (\<forall>k x. (k, x) \<in> set (List.map_filter g (List.enumerate n qs)) \<longleftrightarrow>
       n \<le> k \<and> k < n + length qs \<and> P (qs ! (k - n)) \<and> x = h (qs ! (k - n)))"
proof (induction qs arbitrary: n)
  case (Cons q qs)
  have mem: "(k, x) \<in> set (List.map_filter g (List.enumerate (Suc n) qs)) \<longleftrightarrow>
      Suc n \<le> k \<and> k < Suc n + length qs \<and> P (qs ! (k - Suc n)) \<and> x = h (qs ! (k - Suc n))" for k x
    using Cons [of "Suc n"] by blast
  then have "n \<notin> fst ` set (List.map_filter g (List.enumerate (Suc n) qs))" by force
  moreover have "(k, x) \<in> set (List.map_filter g (List.enumerate n (q # qs))) \<longleftrightarrow>
       n \<le> k \<and> k < n + length (q # qs) \<and> P ((q # qs) ! (k - n)) \<and> x = h ((q # qs) ! (k - n))" for k x
  proof (cases "k = n")
    case True
    then show ?thesis using mem [of n x] by (auto simp: g_def)
  next
    case False
    then have "n \<le> k \<Longrightarrow> k - n = Suc (k - Suc n)" by simp
    with False mem [of k x] show ?thesis by (auto simp: g_def)
  qed
  ultimately show ?case using Cons [of "Suc n"] by (auto simp: g_def)
qed simp

lemma disambiguated_props:
  shows "distinct (map fst (disambiguated E qs))"
    and "(k, name, i) \<in> set (disambiguated E qs) \<longleftrightarrow> k < length qs \<and> needs_suffix (map snd qs) (qs ! k) \<and>
      name = snd (qs ! k) \<and> i = participant_id_token E (rp_id (fst (qs ! k)))"
proof -
  let ?l = "List.map_filter (\<lambda>(index, q). if needs_suffix (map snd qs) q
      then Some (index, snd q, participant_id_token E (rp_id (fst q))) else None) (List.enumerate 0 qs)"
  note p = enumerate_filter_props [of "needs_suffix (map snd qs)"
      "\<lambda>q. (snd q, participant_id_token E (rp_id (fst q)))" 0 qs]
  have "mset (map fst (disambiguated E qs)) = mset (map fst ?l)"
    by (simp add: disambiguated_def)
  then have "distinct (map fst (disambiguated E qs)) = distinct (map fst ?l)"
    by (rule mset_eq_imp_distinct_iff)
  with p show "distinct (map fst (disambiguated E qs))" by simp
  show "(k, name, i) \<in> set (disambiguated E qs) \<longleftrightarrow> k < length qs \<and> needs_suffix (map snd qs) (qs ! k) \<and>
      name = snd (qs ! k) \<and> i = participant_id_token E (rp_id (fst (qs ! k)))"
    using p by (simp add: disambiguated_def)
qed

lemma grow_group_ge: "n \<le> grow_group occ name grp m n"
proof (induction occ name grp m n rule: grow_group.induct)
  case (1 occ name grp m n)
  then show ?case by (subst grow_group.simps) (auto intro: Suc_leD)
qed

lemma foldr_max_ge: "x \<in> set xs \<Longrightarrow> x \<le> foldr max xs (0 :: nat)"
  by (induction xs) auto

lemma foldl_upd_value:
  "foldl (\<lambda>m g. m(fst g \<mapsto> v)) m gs k = Some n \<Longrightarrow> m k = Some n \<or> n = v"
proof (induction gs arbitrary: m)
  case (Cons g gs)
  from Cons.prems have "foldl (\<lambda>m g. m(fst g \<mapsto> v)) (m(fst g \<mapsto> v)) gs k = Some n"
    by (simp only: foldl.simps)
  from Cons.IH [OF this] show ?case by (auto split: if_splits)
qed simp

lemma suffix_lengths_pos:
  assumes "\<forall>(_, _, i) \<in> set ds. i \<noteq> []" "set rest \<subseteq> set ds" "\<forall>k n. lengths k = Some n \<longrightarrow> 1 \<le> n"
    "suffix_lengths occ ds rest lengths k = Some n"
  shows "1 \<le> n"
  using assms(2-)
proof (induction rest arbitrary: lengths)
  case (Cons d rest)
  obtain index name i where d: "d = (index, name, i)" by (cases d) auto
  let ?ids = "map (\<lambda>(_, _, i). i) (group_of ds name)"
  let ?max = "foldr max (map length ?ids) 0"
  let ?n = "grow_group occ name ?ids ?max (min 8 ?max)"
  have "d \<in> set (group_of ds name)" using Cons.prems(1) d by (auto simp: group_of_def)
  then have "length i \<in> set (map length ?ids)" using d by force
  moreover have "1 \<le> length i" using assms(1) Cons.prems(1) d by (cases i) auto
  ultimately have "1 \<le> ?max" using foldr_max_ge by (metis le_trans)
  then have "1 \<le> min 8 ?max" by simp
  then have n: "1 \<le> ?n" using grow_group_ge by (rule le_trans)
  show ?case
  proof (cases "lengths index")
    case None
    let ?m = "foldl (\<lambda>m g. m(fst g \<mapsto> ?n)) lengths (group_of ds name)"
    have "suffix_lengths occ ds rest ?m k = Some n" using Cons.prems(3) None d by (simp only: suffix_lengths.simps Let_def simp_thms if_False)
    moreover have "\<forall>k n. ?m k = Some n \<longrightarrow> 1 \<le> n" using foldl_upd_value [of ?n] Cons.prems(2) n by metis
    ultimately show ?thesis using Cons.IH [of ?m] Cons.prems(1) by simp
  next
    case (Some x)
    with Cons.prems Cons.IH [of lengths] d show ?thesis by simp
  qed
qed simp


text \<open>The first loop gives no token twice: names that need no suffix occur once.\<close>

lemma count_list_twice:
  assumes "i < length xs" "j < length xs" "i \<noteq> j" "xs ! i = xs ! j"
  shows "1 < count_list xs (xs ! i)"
proof -
  have "card {i, j} \<le> card {k. k < length xs \<and> xs ! k = xs ! i}"
    using assms by (intro card_mono) auto
  then show ?thesis
    using assms(3) by (simp add: count_list_eq_length_filter length_filter_conv_card eq_commute)
qed

lemma plain_fresh:
  assumes ids: "distinct (map rp_id ps)" and len: "length names = length ps"
    and pt: "plain_tokens names (zip ps names) (''codex-agent'' # als) = (ts, occ)"
  shows "tokens_fresh ts occ"
proof -
  note plain = plain_tokens_props [OF pt]
  have ts: "ts ! k = (if needs_suffix names (ps ! k, names ! k) then None
      else Some (if pinned_codex (ps ! k) then ''codex-agent'' else names ! k))" if "k < length ps" for k
    using plain that len by simp
  have occ: "t \<in> set occ" if "k < length ps" "ts ! k = Some t" for k t
  proof -
    have "(ps ! k, names ! k) \<in> set (zip ps names)" using that(1) len by (auto simp: set_zip)
    then have "\<not> needs_suffix names (ps ! k, names ! k) \<Longrightarrow> names ! k \<in> set occ" "''codex-agent'' \<in> set occ"
      using plain by (auto intro: rev_image_eqI)
    then show ?thesis using that(2) ts [OF that(1)] by (simp split: if_splits)
  qed
  have "i = j" if "i < length ps" "j < length ps" "ts ! i = Some t" "ts ! j = Some t" for i j t
  proof (rule ccontr)
    assume ne: "i \<noteq> j"
    have n: "\<not> needs_suffix names (ps ! i, names ! i)" "\<not> needs_suffix names (ps ! j, names ! j)"
      using that ts by (auto split: if_splits)
    have "\<not> (pinned_codex (ps ! i) \<and> pinned_codex (ps ! j))"
      using nth_eq_iff_index_eq [OF ids, of i j] that(1,2) ne by (auto simp: pinned_codex_def)
    then have np: "\<not> pinned_codex (ps ! i)" "\<not> pinned_codex (ps ! j)" "names ! i = names ! j"
      using that ts n by (auto simp: needs_suffix_def split: if_splits)
    then have "1 < count_list names (names ! i)" using count_list_twice [of i names j] that(1,2) ne len by simp
    with n(1) np(1) show False by (simp add: needs_suffix_def)
  qed
  with occ show ?thesis using plain len by (auto simp: tokens_fresh_def)
qed

lemma suffix_lengths_ge_1:
  "case_option True (\<lambda>n. 1 \<le> n)
     (suffix_lengths occ (disambiguated E qs) (disambiguated E qs) (\<lambda>_. None) k)"
proof (cases "suffix_lengths occ (disambiguated E qs) (disambiguated E qs) (\<lambda>_. None) k")
  case (Some n)
  have "\<forall>(_, _, i) \<in> set (disambiguated E qs). i \<noteq> []"
    by (auto simp: disambiguated_props(2))
  from suffix_lengths_pos [OF this subset_refl _ Some] show ?thesis using Some by simp
qed simp

text \<open>What the assignment gives each participant.\<close>

lemma assigned_tokens:
  assumes ids: "distinct (map rp_id ps)"
    and names: "names = map (\<lambda>p. normalized_participant_name E (rp_display_name p)) ps"
  obtains r occ' where "participant_mention_tokens E ps = map (\<lambda>t. case t of None \<Rightarrow> ''participant'' | Some x \<Rightarrow> x) r"
    "length r = length ps" "tokens_fresh r occ'"
    "\<forall>k < length ps. \<exists>t. r ! k = Some t \<and> slug t \<and>
       (t = ''codex-agent'' \<longleftrightarrow> pinned_codex (ps ! k)) \<and> t \<notin> set MENTION_ALIASES \<and>
       (\<not> needs_suffix names (ps ! k, names ! k) \<longrightarrow> t = (if pinned_codex (ps ! k) then ''codex-agent'' else names ! k))"
proof -
  let ?qs = "zip ps names"
  obtain ts occ where pt: "plain_tokens names ?qs (''codex-agent'' # MENTION_ALIASES) = (ts, occ)" by fastforce
  define ds where "ds = disambiguated E ?qs"
  define lengths where "lengths = suffix_lengths occ ds ds (\<lambda>_. None)"
  define r where "r = suffix_tokens lengths ds occ ts"
  have len: "length names = length ps" by (simp add: names)
  then have msn: "map snd ?qs = names" by simp
  note plain = plain_tokens_props [OF pt]
  have slugs: "slug (names ! k)" if "k < length ps" for k
    using that by (simp add: names normalized_participant_name_slug)
  have dsm: "(k, name, i) \<in> set ds \<longleftrightarrow> k < length ps \<and> needs_suffix names (ps ! k, names ! k) \<and>
      name = names ! k \<and> i = participant_id_token E (rp_id (ps ! k))" for k name i
    using disambiguated_props(2) [of k name i E ?qs] len unfolding ds_def msn by auto
  have "\<forall>d \<in> set ds. fst d < length ts" using dsm plain len by auto
  note st = suffix_tokens_props [OF plain_fresh [OF ids len pt] disambiguated_props(1) [of E ?qs, folded ds_def] this r_def]
  have "\<exists>t. r ! k = Some t \<and> slug t \<and> (t = ''codex-agent'' \<longleftrightarrow> pinned_codex (ps ! k)) \<and>
      t \<notin> set MENTION_ALIASES \<and>
      (\<not> needs_suffix names (ps ! k, names ! k) \<longrightarrow> t = (if pinned_codex (ps ! k) then ''codex-agent'' else names ! k))"
    if k: "k < length ps" for k
  proof (cases "needs_suffix names (ps ! k, names ! k)")
    case True
    then have "(k, names ! k, participant_id_token E (rp_id (ps ! k))) \<in> set ds" using dsm k by simp
    then obtain t occ' where t: "r ! k = Some t" "t \<notin> set occ"
      "t = disambiguate occ' (names ! k) (participant_id_token E (rp_id (ps ! k))) (lengths k)"
      using st by fast
    have "slug t" unfolding t(3)
      by (rule disambiguate_slug [OF slugs [OF k]])
         (use participant_id_token_alnum in blast, use participant_id_token_alnum in blast,
          unfold lengths_def ds_def, rule suffix_lengths_ge_1)
    moreover have "\<not> pinned_codex (ps ! k)" using True by (simp add: needs_suffix_def)
    moreover have "''codex-agent'' \<in> set occ" "set MENTION_ALIASES \<subseteq> set occ" using plain by auto
    ultimately show ?thesis using t(1,2) True by blast
  next
    case False
    then have "k \<notin> fst ` set ds" using dsm by force
    then have "r ! k = Some (if pinned_codex (ps ! k) then ''codex-agent'' else names ! k)"
      using st False k plain len by auto
    moreover have "slug ''codex-agent''" "''codex-agent'' \<notin> set MENTION_ALIASES" by code_simp+
    ultimately show ?thesis using slugs [OF k] False by (auto simp: needs_suffix_def)
  qed
  moreover have "participant_mention_tokens E ps = map (\<lambda>t. case t of None \<Rightarrow> ''participant'' | Some x \<Rightarrow> x) r"
    using pt by (simp add: participant_mention_tokens_def names [symmetric] Let_def r_def lengths_def ds_def)
  moreover have "length r = length ps" using st plain len by simp
  moreover obtain occ' where "tokens_fresh r occ'" using st by blast
  ultimately show ?thesis using that by blast
qed


lemma mention_tokens_props:
  assumes "distinct (map rp_id ps)"
  shows "length (participant_mention_tokens E ps) = length ps"
    and "distinct (participant_mention_tokens E ps)"
    and "k < length ps \<Longrightarrow> slug (participant_mention_tokens E ps ! k) \<and>
      (participant_mention_tokens E ps ! k = ''codex-agent'' \<longleftrightarrow> pinned_codex (ps ! k)) \<and>
      participant_mention_tokens E ps ! k \<notin> set MENTION_ALIASES"
proof -
  obtain r occ where r: "participant_mention_tokens E ps = map (\<lambda>t. case t of None \<Rightarrow> ''participant'' | Some x \<Rightarrow> x) r"
    "length r = length ps" "tokens_fresh r occ"
    "\<forall>k < length ps. \<exists>t. r ! k = Some t \<and> slug t \<and> (t = ''codex-agent'' \<longleftrightarrow> pinned_codex (ps ! k)) \<and>
       t \<notin> set MENTION_ALIASES"
    by (rule assigned_tokens [OF assms refl, of E]) blast
  have at: "r ! k = Some (participant_mention_tokens E ps ! k)" if "k < length ps" for k
    using r that by force
  show "length (participant_mention_tokens E ps) = length ps" using r(1,2) by simp
  show "distinct (participant_mention_tokens E ps)"
    unfolding distinct_conv_nth using r(1-3) at by (metis length_map tokens_fresh_def)
  show "slug (participant_mention_tokens E ps ! k) \<and>
      (participant_mention_tokens E ps ! k = ''codex-agent'' \<longleftrightarrow> pinned_codex (ps ! k)) \<and>
      participant_mention_tokens E ps ! k \<notin> set MENTION_ALIASES" if "k < length ps"
    using r(4) at [OF that] that by auto
qed

subsection \<open>Accepted mentions\<close>

lemma check_mentions_iff:
  "check_mentions known ms ids als = Inr () \<longleftrightarrow>
     distinct (mentioned_ids ms) \<and> set (mentioned_ids ms) \<inter> ids = {} \<and>
     distinct (mentioned_aliases ms) \<and> set (mentioned_aliases ms) \<inter> als = {} \<and>
     (\<forall>i t. Participant i t \<in> set ms \<longrightarrow> known i = Some t)"
proof (induction known ms ids als rule: check_mentions.induct)
  case (2 known i token ms ids als)
  show ?case
  proof (cases "known i")
    case (Some c)
    with 2 show ?thesis by (auto simp: mentioned_ids_def mentioned_aliases_def)
  qed auto
qed (auto simp: mentioned_ids_def mentioned_aliases_def)

lemma check_mentions_error: "check_mentions known ms ids als = Inl e \<Longrightarrow> e = Unknown_mention_target"
  by (induction known ms ids als rule: check_mentions.induct) (auto split: option.splits if_splits)

lemma mention_targets_set:
  "u \<in> set (mention_targets ps m) \<longleftrightarrow>
     (case m of Participant i _ \<Rightarrow> u = i
      | Alias a \<Rightarrow> \<exists>p \<in> set ps. rp_id p = u \<and> (rp_role p = ''human'' \<or> a = AllAgents \<and> rp_role p = ''agent''))"
proof (cases m)
  case (Alias a)
  then show ?thesis by (cases a) auto
qed auto

lemma bex_mention:
  "(\<exists>m \<in> set ms. case m of Participant i _ \<Rightarrow> u = i | Alias a \<Rightarrow> Q a) \<longleftrightarrow>
     (\<exists>t. Participant u t \<in> set ms) \<or> (\<exists>a. Alias a \<in> set ms \<and> Q a)"
proof (induction ms)
  case (Cons m ms)
  then show ?case by (cases m) auto
qed simp

subsection \<open>Properties\<close>

text \<open>
  Mention tokens identify participants.  In a roster with distinct identifiers every participant gets
  exactly one token, all tokens differ and match the contract's pattern
  \<open>^[a-z0-9]+(-[a-z0-9]+)*$\<close>, none is an alias, and \<open>codex-agent\<close> belongs to the pinned agent alone.
  The searches for a free suffix therefore always end.
\<close>

theorem mention_tokens_unambiguous:
  assumes "distinct (map rp_id ps)"
  shows "length (participant_mention_tokens E ps) = length ps \<and> distinct (participant_mention_tokens E ps) \<and>
    list_all (\<lambda>t. slug t \<and> t \<notin> set MENTION_ALIASES) (participant_mention_tokens E ps) \<and>
    list_all2 (\<lambda>p t. t = ''codex-agent'' \<longleftrightarrow> pinned_codex p) ps (participant_mention_tokens E ps)"
  using mention_tokens_props [OF assms] by (auto simp: list_all_length list_all2_conv_all_nth)

theorem mention_tokens_unambiguous_witness:
  "(let p = \<lparr>rp_id = 1, rp_role = ''human'', rp_display_name = ''Maya'', rp_online = True\<rparr>;
        ps = [p, p\<lparr>rp_id := 2\<rparr>]
    in distinct (map rp_id ps) \<and> distinct (participant_mention_tokens sample_ext ps))"
proof -
  let ?p = "\<lparr>rp_id = 1, rp_role = ''human'', rp_display_name = ''Maya'', rp_online = True\<rparr>"
  have d: "distinct (map rp_id [?p, ?p\<lparr>rp_id := 2\<rparr>])" by simp
  from mention_tokens_unambiguous [OF d, of sample_ext] d show ?thesis unfolding Let_def by blast
qed

text \<open>
  A mention list is accepted exactly when no participant and no alias is mentioned twice and every
  direct mention carries the canonical token of a participant in the roster; every other list is
  refused with the error for an unknown target.
\<close>

theorem validate_mentions_iff:
  "validate_mentions E ps ms =
     (if distinct (mentioned_ids ms) \<and> distinct (mentioned_aliases ms) \<and>
         list_all (\<lambda>m. case m of Alias _ \<Rightarrow> True
           | Participant i t \<Rightarrow> map_of (rev (zip (map rp_id ps) (participant_mention_tokens E ps))) i = Some t) ms
      then Inr () else Inl Unknown_mention_target)"
proof -
  let ?known = "map_of (rev (zip (map rp_id ps) (participant_mention_tokens E ps)))"
  have all: "list_all (\<lambda>m. case m of Alias _ \<Rightarrow> True | Participant i t \<Rightarrow> ?known i = Some t) ms \<longleftrightarrow>
      (\<forall>i t. Participant i t \<in> set ms \<longrightarrow> ?known i = Some t)"
    by (auto simp: list_all_iff split: chat_mention.splits)
  have v: "validate_mentions E ps ms = check_mentions ?known ms {} {}" by (simp add: validate_mentions_def)
  show ?thesis
  proof (cases "validate_mentions E ps ms")
    case (Inl e)
    then show ?thesis
      using check_mentions_error [of ?known ms "{}" "{}" e] check_mentions_iff [of ?known ms "{}" "{}"]
      unfolding all v by auto
  next
    case (Inr u)
    then show ?thesis
      using check_mentions_iff [of ?known ms "{}" "{}"] unfolding all v by auto
  qed
qed

text \<open>
  C35: a stored message is visible to exactly its audience.  A room message is visible to everybody; a
  targeted one to its sender, to the participants it mentions, to the humans of the roster when it
  mentions an alias, and to the agents of the roster when that alias is \<open>allagents\<close>.  The stored audience
  is sorted and without repetitions.
\<close>

theorem message_audience:
  assumes "uuid_ok E" "resolve_chat_audience E actor ps request = Inr audience"
    "ev_payload event = normalized_chat_payload E request audience"
  shows "sorted_wrt (<) audience \<and> (event_visible_to E event u \<longleftrightarrow>
    cs_delivery request = Room \<or> u = act_id actor \<or>
    (\<exists>t. Participant u t \<in> set (cs_mentions request)) \<or>
    (\<exists>a p. Alias a \<in> set (cs_mentions request) \<and> p \<in> set ps \<and> rp_id p = u \<and>
       (rp_role p = ''human'' \<or> a = AllAgents \<and> rp_role p = ''agent'')))"
proof (cases "cs_delivery request")
  case Room
  then show ?thesis
    using assms(2,3) by (auto simp: resolve_chat_audience_def result_simps event_visible_to_def
        normalized_chat_payload_def wire_simps)
next
  case Mentioned
  let ?aud = "set (act_id actor # concat (map (mention_targets ps) (cs_mentions request)))"
  have aud: "audience = sorted_list_of_set ?aud"
    using assms(2) Mentioned by (auto simp: resolve_chat_audience_def result_simps)
  have "event_visible_to E event u \<longleftrightarrow> u \<in> set audience"
    using assms(1,3) Mentioned parse_uuid_json_juuid [OF assms(1)]
    by (auto simp: event_visible_to_def normalized_chat_payload_def wire_simps list_ex_iff)
  also have "\<dots> \<longleftrightarrow> u \<in> ?aud" by (simp add: aud del: set_concat set_map list.set)
  also have "\<dots> \<longleftrightarrow> u = act_id actor \<or> (\<exists>m \<in> set (cs_mentions request). u \<in> set (mention_targets ps m))" by auto
  finally have "event_visible_to E event u \<longleftrightarrow>
      u = act_id actor \<or> (\<exists>m \<in> set (cs_mentions request). u \<in> set (mention_targets ps m))" .
  moreover have "sorted_wrt (<) audience" unfolding aud strict_sorted_iff by (simp only: sorted_sorted_list_of_set distinct_sorted_list_of_set simp_thms)
  ultimately show ?thesis
    using Mentioned by (simp only: mention_targets_set bex_mention) blast
qed

theorem message_audience_witness:
  "\<exists>E event audience. resolve_chat_audience E \<lparr>act_id = 1, act_role = Human, act_display_name = ''A'', act_expires_at = 0\<rparr>
      [] \<lparr>cs_id = ''1'', cs_contract_version = ''n2n.room.v1'', cs_request_id = 7, cs_room_id = 8,
      cs_occurred_at = 0, cs_text = ''hi'', cs_mentions = [Alias AllHumans], cs_delivery = Mentioned\<rparr> = Inr audience \<and>
     event_visible_to E event 1 \<and> \<not> event_visible_to E event 2"
proof -
  let ?a = "\<lparr>act_id = 1, act_role = Human, act_display_name = ''A'', act_expires_at = 0\<rparr> :: actor"
  let ?r = "\<lparr>cs_id = ''1'', cs_contract_version = ''n2n.room.v1'', cs_request_id = 7, cs_room_id = 8,
      cs_occurred_at = 0, cs_text = ''hi'', cs_mentions = [Alias AllHumans], cs_delivery = Mentioned\<rparr> :: chat_send"
  define event where "event = \<lparr>ev_event_id = 1, ev_room_id = 8, ev_sequence = 1, ev_request_id = 7,
      ev_event_type = ''message.created'', ev_actor_id = 1, ev_actor_role = ''human'', ev_actor_display_name = None,
      ev_payload = normalized_chat_payload sample_ext ?r [1], ev_occurred_at = 0\<rparr>"
  have aud: "resolve_chat_audience sample_ext ?a [] ?r = Inr [1]"
    by (simp add: resolve_chat_audience_def validate_mentions_def)
  have "ev_payload event = normalized_chat_payload sample_ext ?r [1]" by (simp add: event_def)
  note m = message_audience [OF uuid_ok_sample aud this]
  have "event_visible_to sample_ext event 1" "\<not> event_visible_to sample_ext event 2"
    using m [of 1] m [of 2] by simp_all
  with aud show ?thesis by blast
qed

end
