(* ===== verification/Decisions.thy ===== *)
theory Decisions
  imports Event_Store
begin

text \<open>
  Decisions: the governed transitions of \<open>src/rooms.rs\<close> on the \<open>decisions\<close> table, and the projection of
  the event log to the active decisions in \<open>src/agent_service.rs\<close>.  The table is updated in the
  transaction that appends the event, so the table and the projection describe the same decisions: the
  locale \<open>projection\<close> states this refinement for any log, and is interpreted on the two definitions.
\<close>

abbreviation internal :: "store_error + 'a \<Rightarrow> rpc_error + 'a" where
  \<comment> \<open>\<open>.map_err(|_| RpcError::internal_error())\<close>\<close>
  "internal r \<equiv> map_err (\<lambda>_. Internal_error) r"

definition actor_event :: "actor \<Rightarrow> uuid \<Rightarrow> uuid \<Rightarrow> timestamp \<Rightarrow> string \<Rightarrow> json \<Rightarrow> new_event" where
  \<comment> \<open>the \<open>NewEvent\<close> literal of an event caused by the actor of a request\<close>
  "actor_event actor room_id request_id occurred_at event_type payload =
     \<lparr>ne_room_id = room_id, ne_request_id = request_id, ne_event_type = event_type,
      ne_actor_id = act_id actor, ne_actor_role = role_str (act_role actor),
      ne_actor_display_name = Some (act_display_name actor), ne_payload = payload,
      ne_occurred_at = occurred_at\<rparr>"

definition insert_decision :: "decision_row \<Rightarrow> db \<Rightarrow> rpc_error + db" where
  "insert_decision row d =
     rbind (ensure Internal_error
        (dc_decision_id row \<notin> dc_decision_id ` set (decisions d) \<and> text_ok (dc_title row) \<and> text_ok (dc_summary row)))
       (\<lambda>_. Inr (d\<lparr>decisions := decisions d @ [row]\<rparr>))"

definition select_decision :: "uuid \<Rightarrow> uuid \<Rightarrow> db \<Rightarrow> rpc_error + decision_row" where
  "select_decision decision_id room_id d =
     ok_or Not_found (find (\<lambda>x. dc_decision_id x = decision_id \<and> dc_room_id x = room_id) (decisions d))"

definition set_decision_status :: "ext \<Rightarrow> uuid \<Rightarrow> decision_status \<Rightarrow> timestamp \<Rightarrow> db \<Rightarrow> db" where
  "set_decision_status E decision_id status occurred_at d =
     d\<lparr>decisions := row_update (\<lambda>x. dc_decision_id x = decision_id)
        (\<lambda>x. x\<lparr>dc_status := status, dc_updated_at := pg_time E occurred_at\<rparr>) (decisions d)\<rparr>"

definition decision_payload :: "ext \<Rightarrow> uuid \<Rightarrow> decision_status \<Rightarrow> string \<Rightarrow> string \<Rightarrow> uuid list \<Rightarrow> json" where
  "decision_payload E decision_id status title summary source_event_ids = jobj [
     (''decisionId'', juuid E decision_id),
     (''status'', JStr (decision_status_str status)),
     (''title'', JStr title),
     (''summary'', JStr summary),
     (''sourceEventIds'', juuids E source_event_ids)]"

definition propose_decision ::
  "ext \<Rightarrow> uuid \<Rightarrow> uuid \<Rightarrow> actor \<Rightarrow> decision_propose \<Rightarrow> db \<Rightarrow> rpc_error + (room_event list \<times> db)" where
  \<comment> \<open>\<open>decision_id\<close> and \<open>event_id\<close> are fresh\<close>
  "propose_decision E decision_id event_id actor request d =
     rbind (insert_decision
              \<lparr>dc_decision_id = decision_id, dc_room_id = dp_room_id request, dc_status = Draft,
               dc_title = dp_title request, dc_summary = dp_summary request, dc_derived_from = None,
               dc_source_event_ids = dp_source_event_ids request,
               dc_created_at = pg_time E (dp_occurred_at request),
               dc_updated_at = pg_time E (dp_occurred_at request)\<rparr> d) (\<lambda>d.
     rbind (internal (append_event_in_transaction E event_id
              (actor_event actor (dp_room_id request) (dp_request_id request) (dp_occurred_at request)
                 ''decision.proposed''
                 (decision_payload E decision_id Draft (dp_title request) (dp_summary request)
                    (dp_source_event_ids request))) d)) (\<lambda>(event, d).
       Inr ([event], d)))"

definition settle_decision ::
  "ext \<Rightarrow> uuid \<Rightarrow> actor \<Rightarrow> decision_transition \<Rightarrow> decision_status \<Rightarrow> string \<Rightarrow> decision_row \<Rightarrow> db \<Rightarrow>
   rpc_error + (room_event list \<times> db)" where
  \<comment> \<open>the arm for \<open>Confirm\<close> and \<open>Dismiss\<close>\<close>
  "settle_decision E event_id actor request status event_type row d =
     rbind (internal (append_event_in_transaction E event_id
              (actor_event actor (dt_room_id request) (dt_request_id request) (dt_occurred_at request) event_type
                 (decision_payload E (dt_decision_id request) status (dc_title row) (dc_summary row)
                    (dc_source_event_ids row)))
              (set_decision_status E (dt_decision_id request) status (dt_occurred_at request) d))) (\<lambda>(event, d).
       Inr ([event], d))"

definition edit_decision ::
  "ext \<Rightarrow> uuid \<Rightarrow> uuid \<Rightarrow> uuid \<Rightarrow> actor \<Rightarrow> decision_transition \<Rightarrow> decision_row \<Rightarrow> db \<Rightarrow>
   rpc_error + (room_event list \<times> db)" where
  \<comment> \<open>the arm for \<open>Edit\<close>\<close>
  "edit_decision E replacement_id edited_id activated_id actor request row d =
     rbind (ok_or Invalid_request (dt_edited_title request)) (\<lambda>edited_title.
     rbind (ok_or Invalid_request (dt_edited_summary request)) (\<lambda>edited_summary.
     rbind (insert_decision
              \<lparr>dc_decision_id = replacement_id, dc_room_id = dt_room_id request, dc_status = Active,
               dc_title = edited_title, dc_summary = edited_summary,
               dc_derived_from = Some (dt_decision_id request),
               dc_source_event_ids = dc_source_event_ids row,
               dc_created_at = pg_time E (dt_occurred_at request),
               dc_updated_at = pg_time E (dt_occurred_at request)\<rparr>
              (set_decision_status E (dt_decision_id request) Superseded (dt_occurred_at request) d)) (\<lambda>d.
     rbind (internal (append_event_in_transaction E edited_id
              (actor_event actor (dt_room_id request) (dt_request_id request) (dt_occurred_at request)
                 ''decision.edited''
                 (jobj [(''decisionId'', juuid E (dt_decision_id request)),
                        (''status'', JStr ''superseded''),
                        (''replacementDecisionId'', juuid E replacement_id)])) d)) (\<lambda>(edited, d).
     rbind (internal (append_event_in_transaction E activated_id
              (actor_event actor (dt_room_id request) (dt_request_id request) (dt_occurred_at request)
                 ''decision.confirmed''
                 (jset (decision_payload E replacement_id Active edited_title edited_summary
                          (dc_source_event_ids row))
                    ''derivedFromDecisionId'' (juuid E (dt_decision_id request)))) d)) (\<lambda>(activated, d).
       Inr ([edited, activated], d))))))"

definition transition_decision_in_transaction ::
  "ext \<Rightarrow> uuid \<Rightarrow> uuid \<Rightarrow> uuid \<Rightarrow> actor \<Rightarrow> decision_transition \<Rightarrow> db \<Rightarrow>
   rpc_error + (room_event list \<times> db)" where
  "transition_decision_in_transaction E replacement_id id1 id2 actor request d =
     rbind (select_decision (dt_decision_id request) (dt_room_id request) d) (\<lambda>row.
     rbind (ensure Invalid_transition (dc_status row = Draft)) (\<lambda>_.
       case dt_action request of
         Confirm \<Rightarrow> settle_decision E id1 actor request Active ''decision.confirmed'' row d
       | Dismiss \<Rightarrow> settle_decision E id1 actor request Dismissed ''decision.dismissed'' row d
       | Edit \<Rightarrow> edit_decision E replacement_id id1 id2 actor request row d))"

definition delete_decision_in_transaction ::
  "ext \<Rightarrow> uuid \<Rightarrow> actor \<Rightarrow> decision_delete \<Rightarrow> db \<Rightarrow> rpc_error + (room_event list \<times> db)" where
  "delete_decision_in_transaction E event_id actor request d =
     rbind (select_decision (dd_decision_id request) (dd_room_id request) d) (\<lambda>row.
     rbind (internal (append_event_in_transaction E event_id
              (actor_event actor (dd_room_id request) (dd_request_id request) (dd_occurred_at request)
                 ''decision.deleted''
                 (jobj [(''decisionId'', juuid E (dd_decision_id request)),
                        (''priorStatus'', JStr (decision_status_str (dc_status row))),
                        (''title'', JStr (dc_title row)),
                        (''summary'', JStr (dc_summary row)),
                        (''sourceEventIds'', juuids E (dc_source_event_ids row))])) d)) (\<lambda>(event, d).
       Inr ([event],
         d\<lparr>decisions := row_delete (\<lambda>x. dc_decision_id x = dd_decision_id request \<and>
             dc_room_id x = dd_room_id request) (decisions d)\<rparr>)))"

subsection \<open>The projection of the log\<close>

record active_decision =
  ad_decision_id :: uuid
  ad_title :: string
  ad_summary :: string
  ad_source_event_ids :: "uuid list"

definition payload_sources :: "ext \<Rightarrow> json \<Rightarrow> uuid list" where
  "payload_sources E payload =
     (case jget_array payload ''sourceEventIds'' of
        None \<Rightarrow> [] | Some ids \<Rightarrow> List.map_filter (parse_uuid_json E) ids)"

definition apply_decision ::
  "ext \<Rightarrow> room_event \<Rightarrow> (uuid \<times> active_decision) list \<Rightarrow> (uuid \<times> active_decision) list" where
  \<comment> \<open>the body of the loop of \<open>active_decisions\<close>, on a \<open>BTreeMap\<close>\<close>
  "apply_decision E event ds =
     (let payload = ev_payload event in
      case Option.bind (jget payload ''decisionId'') (parse_uuid_json E) of
        None \<Rightarrow> ds
      | Some decision_id \<Rightarrow>
          if ev_event_type event = ''decision.confirmed'' \<and> jget_str payload ''status'' = Some ''active'' then
            (case jget_str payload ''title'' of
               None \<Rightarrow> ds
             | Some title \<Rightarrow>
                 (case jget_str payload ''summary'' of
                    None \<Rightarrow> ds
                  | Some summary \<Rightarrow>
                      upd decision_id
                        \<lparr>ad_decision_id = decision_id, ad_title = title, ad_summary = summary,
                         ad_source_event_ids = payload_sources E payload\<rparr> ds))
          else if ev_event_type event \<in> {''decision.dismissed'', ''decision.deleted'', ''decision.edited''} then
            del decision_id ds
          else ds)"

definition decision_map :: "ext \<Rightarrow> room_event list \<Rightarrow> (uuid \<times> active_decision) list" where
  "decision_map E events = fold (apply_decision E) events []"

definition active_decisions :: "ext \<Rightarrow> room_event list \<Rightarrow> active_decision list" where
  "active_decisions E events = map snd (decision_map E events)"


subsection \<open>The active rows of a room\<close>

definition decisions_ok :: "db \<Rightarrow> bool" where
  "decisions_ok d \<longleftrightarrow> distinct (map dc_decision_id (decisions d))"

definition active_row :: "decision_row \<Rightarrow> active_decision" where
  "active_row x = \<lparr>ad_decision_id = dc_decision_id x, ad_title = dc_title x, ad_summary = dc_summary x,
     ad_source_event_ids = dc_source_event_ids x\<rparr>"

definition active_view :: "db \<Rightarrow> uuid \<Rightarrow> (uuid \<times> active_decision) list" where
  \<comment> \<open>the active decisions of a room in the table, by identifier\<close>
  "active_view d r = map (\<lambda>x. (dc_decision_id x, active_row x))
     (sort_key dc_decision_id (filter (\<lambda>x. dc_room_id x = r \<and> dc_status x = Active) (decisions d)))"

lemma ordered_active_view:
  assumes "decisions_ok d"
  shows "ordered (active_view d r)"
proof -
  let ?xs = "sort_key dc_decision_id (filter (\<lambda>x. dc_room_id x = r \<and> dc_status x = Active) (decisions d))"
  have "distinct (map dc_decision_id ?xs)"
    using assms by (simp add: decisions_ok_def distinct_map inj_on_def)
  moreover have "sorted (map dc_decision_id ?xs)" by simp
  ultimately show ?thesis by (simp add: active_view_def strict_sorted_iff comp_def)
qed

definition active_as :: "uuid \<Rightarrow> uuid \<Rightarrow> active_decision \<Rightarrow> decision_row \<Rightarrow> bool" where
  "active_as r i a x \<longleftrightarrow> dc_decision_id x = i \<and> dc_room_id x = r \<and> dc_status x = Active \<and> a = active_row x"

definition active_in :: "db \<Rightarrow> uuid \<Rightarrow> uuid \<Rightarrow> active_decision \<Rightarrow> bool" where
  "active_in d r i a \<longleftrightarrow> (\<exists>x \<in> set (decisions d). active_as r i a x)"

lemma active_view_lookup:
  assumes "decisions_ok d"
  shows "map_of (active_view d r) i = Some a \<longleftrightarrow> active_in d r i a"
proof -
  have "map_of (active_view d r) i = Some a \<longleftrightarrow> (i, a) \<in> set (active_view d r)"
    by (rule map_of_eq_Some_iff) (rule ordered_distinct [OF ordered_active_view [OF assms]])
  then show ?thesis by (auto simp: active_view_def active_in_def active_as_def)
qed

lemma ordered_apply_decision: "ordered ds \<Longrightarrow> ordered (apply_decision E e ds)"
  by (auto simp: apply_decision_def Let_def ordered_upd ordered_del split: option.splits)

lemma ordered_fold_decisions: "ordered ds \<Longrightarrow> ordered (fold (apply_decision E) es ds)"
  by (induction es arbitrary: ds) (auto simp: ordered_apply_decision)

lemma option_eqI: "(\<And>a. x = Some a \<longleftrightarrow> y = Some a) \<Longrightarrow> x = y"
  by (metis not_Some_eq)

text \<open>A transaction keeps the view when the fold over its events says what happened to the rows.\<close>

lemma active_viewI:
  assumes "decisions_ok d" "decisions_ok d'"
    "\<And>i a. map_of (fold (apply_decision E) es (active_view d r)) i = Some a \<longleftrightarrow> active_in d' r i a"
  shows "active_view d' r = fold (apply_decision E) es (active_view d r)"
proof (rule ordered_map_of_eqI)
  show "ordered (active_view d' r)" by (rule ordered_active_view [OF assms(2)])
  show "ordered (fold (apply_decision E) es (active_view d r))"
    by (rule ordered_fold_decisions [OF ordered_active_view [OF assms(1)]])
  show "map_of (active_view d' r) = map_of (fold (apply_decision E) es (active_view d r))"
    by (rule ext, rule option_eqI) (simp only: active_view_lookup [OF assms(2)] assms(3))
qed

lemma apply_other: "ev_event_type e \<notin> {''decision.confirmed'', ''decision.dismissed'', ''decision.deleted'', ''decision.edited''} \<Longrightarrow>
    apply_decision E e ds = ds"
  by (auto simp: apply_decision_def Let_def split: option.splits)

lemma apply_removed:
  assumes "uuid_ok E" "jget (ev_payload e) ''decisionId'' = Some (juuid E i)"
    "ev_event_type e \<in> {''decision.dismissed'', ''decision.deleted'', ''decision.edited''}"
  shows "apply_decision E e ds = del i ds"
  using assms(2,3) parse_uuid_json_juuid [OF assms(1), of i] by (auto simp: apply_decision_def Let_def)

lemma apply_confirmed:
  assumes "uuid_ok E" "ev_payload e = jobj kvs" "ev_event_type e = ''decision.confirmed''"
    "map_of (rev kvs) ''decisionId'' = Some (juuid E i)" "map_of (rev kvs) ''status'' = Some (JStr ''active'')"
    "map_of (rev kvs) ''title'' = Some (JStr t)" "map_of (rev kvs) ''summary'' = Some (JStr s)"
    "map_of (rev kvs) ''sourceEventIds'' = Some (juuids E src)"
  shows "apply_decision E e ds =
    upd i \<lparr>ad_decision_id = i, ad_title = t, ad_summary = s, ad_source_event_ids = src\<rparr> ds"
  using assms(2-) parse_uuid_json_juuid [OF assms(1), of i] map_filter_parse_juuids [OF assms(1), of src]
  by (simp add: apply_decision_def Let_def wire_simps payload_sources_def)

lemma append_exact:
  assumes "jsonb_ok E" "append_event_in_transaction E i ev d = Inr (e, d')" "exact (ne_payload ev)"
  shows "ev_payload e = ne_payload ev"
  using assms jsonb_column.store_exact [OF assms(1,3)] by (auto simp: append_Inr)


subsection \<open>What the operations append and change\<close>

definition appends :: "db \<Rightarrow> uuid \<Rightarrow> uuid \<Rightarrow> room_event list \<Rightarrow> db \<Rightarrow> bool" where
  \<comment> \<open>a transaction added these events, all of one room and request, and kept the numbering of the logs\<close>
  "appends d r q es d' \<longleftrightarrow> room_events d' = room_events d @ es \<and>
     (\<forall>e \<in> set es. ev_room_id e = r \<and> ev_request_id e = q) \<and>
     (log_ok d \<longrightarrow> log_ok d')"

lemma appends_one:
  assumes "append_event_in_transaction E i ev d = Inr (e, d')"
  shows "appends d (ne_room_id ev) (ne_request_id ev) [e] d'"
proof -
  have "ev_request_id e = ne_request_id ev" using assms by (auto simp: append_Inr)
  then show ?thesis using append_frame [OF assms] log_ok_append [OF _ assms] by (simp add: appends_def)
qed

lemma appends_trans: "appends d r q es d1 \<Longrightarrow> appends d1 r q fs d2 \<Longrightarrow> appends d r q (es @ fs) d2"
  by (auto simp: appends_def)

lemma appends_before: "appends d0 r q es d' \<Longrightarrow> room_events d0 = room_events d \<Longrightarrow> appends d r q es d'"
  using log_ok_frame [of d0 d] by (simp add: appends_def)

lemma appends_after: "appends d r q es d0 \<Longrightarrow> room_events d' = room_events d0 \<Longrightarrow> appends d r q es d'"
  using log_ok_frame [of d' d0] by (simp add: appends_def)

lemma appends_log: "appends d r q es d' \<Longrightarrow> room_log d' r' = room_log d r' @ (if r' = r then es else [])"
  by (auto simp: appends_def room_log_def filter_empty_conv)

definition view_kept :: "ext \<Rightarrow> db \<Rightarrow> room_event list \<Rightarrow> db \<Rightarrow> bool" where
  \<comment> \<open>the rows changed the way the projection reads the events\<close>
  "view_kept E d es d' \<longleftrightarrow> (decisions_ok d \<longrightarrow> decisions_ok d' \<and>
     (\<forall>r. active_view d' r = fold (apply_decision E) (filter (\<lambda>e. ev_room_id e = r) es) (active_view d r)))"

lemma view_kept_frame:
  assumes "decisions d' = decisions d"
    "\<forall>e \<in> set es. ev_event_type e \<notin> {''decision.confirmed'', ''decision.dismissed'', ''decision.deleted'', ''decision.edited''}"
  shows "view_kept E d es d'"
proof -
  have "fold (apply_decision E) (filter (\<lambda>e. ev_room_id e = r) es) ds = ds" for r ds
    using assms(2)
  proof (induction es)
    case (Cons e es)
    then show ?case using apply_other [of e E ds] by auto
  qed simp
  then show ?thesis using assms(1) by (simp add: view_kept_def decisions_ok_def active_view_def)
qed

lemma exact_payloads:
  "exact (decision_payload E i st t s src)"
  "exact (jset (decision_payload E i st t s src) k (juuid E j))"
  by (auto simp: decision_payload_def intro!: exact_jobj exact_jset)

lemma select_decision_Inr:
  "select_decision i r d = Inr row \<Longrightarrow> row \<in> set (decisions d) \<and> dc_decision_id row = i \<and> dc_room_id row = r"
  by (auto simp: select_decision_def result_simps dest: find_Some_in)

lemma unique_row:
  "decisions_ok d \<Longrightarrow> row \<in> set (decisions d) \<Longrightarrow> x \<in> set (decisions d) \<Longrightarrow>
   dc_decision_id x = dc_decision_id row \<Longrightarrow> x = row"
  by (auto simp: decisions_ok_def intro: distinct_map_inj)

lemma propose_Inr:
  assumes "propose_decision E i ei actor req d = Inr (es, d')"
  shows "appends d (dp_room_id req) (dp_request_id req) es d'"
    and "\<exists>row. decisions d' = decisions d @ [row] \<and> dc_decision_id row = i \<and> dc_status row = Draft \<and>
      i \<notin> dc_decision_id ` set (decisions d)"
    and "\<forall>e \<in> set es. ev_event_type e = ''decision.proposed''"
    and "room_requests d' = room_requests d" and "agent_tasks d' = agent_tasks d"
proof -
  from assms obtain e d0 row where a:
    "append_event_in_transaction E ei (actor_event actor (dp_room_id req) (dp_request_id req) (dp_occurred_at req)
       ''decision.proposed'' (decision_payload E i Draft (dp_title req) (dp_summary req) (dp_source_event_ids req))) d0
     = Inr (e, d')" and es: "es = [e]"
    and d0: "d0 = d\<lparr>decisions := decisions d @ [row]\<rparr>" "dc_decision_id row = i" "dc_status row = Draft"
      "i \<notin> dc_decision_id ` set (decisions d)"
    by (fastforce simp: propose_decision_def insert_decision_def result_simps)
  note f = append_frame [OF a]
  from a have "ev_event_type e = ''decision.proposed''" by (auto simp: append_Inr actor_event_def)
  then show "\<forall>e \<in> set es. ev_event_type e = ''decision.proposed''" using es by simp
  show "appends d (dp_room_id req) (dp_request_id req) es d'"
    using appends_before [OF appends_one [OF a]] d0(1) es by (simp add: actor_event_def)
  show "\<exists>row. decisions d' = decisions d @ [row] \<and> dc_decision_id row = i \<and> dc_status row = Draft \<and>
      i \<notin> dc_decision_id ` set (decisions d)" using f d0 by auto
  show "room_requests d' = room_requests d" "agent_tasks d' = agent_tasks d" using f d0(1) by simp_all
qed

lemma propose_view:
  assumes "propose_decision E i ei actor req d = Inr (es, d')"
  shows "view_kept E d es d'"
proof -
  from propose_Inr [OF assms] obtain row where row: "decisions d' = decisions d @ [row]"
    "dc_decision_id row = i" "dc_status row = Draft" "i \<notin> dc_decision_id ` set (decisions d)" by blast
  have "view_kept E d es d" using propose_Inr(3) [OF assms] by (intro view_kept_frame) auto
  moreover have "active_view d' r = active_view d r" for r
    using row(1,3) by (simp add: active_view_def)
  moreover have "decisions_ok d \<Longrightarrow> decisions_ok d'" using row by (simp add: decisions_ok_def)
  ultimately show ?thesis by (simp add: view_kept_def)
qed


lemma settle_Inr:
  assumes "settle_decision E ei actor req st ty row d = Inr (es, d')"
  shows "appends d (dt_room_id req) (dt_request_id req) es d'"
    and "decisions d' = decisions (set_decision_status E (dt_decision_id req) st (dt_occurred_at req) d)"
    and "\<exists>e. es = [e] \<and> ev_event_type e = ty \<and> (jsonb_ok E \<longrightarrow> ev_payload e =
      decision_payload E (dt_decision_id req) st (dc_title row) (dc_summary row) (dc_source_event_ids row))"
    and "room_requests d' = room_requests d" and "agent_tasks d' = agent_tasks d"
proof -
  let ?d = "set_decision_status E (dt_decision_id req) st (dt_occurred_at req) d"
  let ?p = "decision_payload E (dt_decision_id req) st (dc_title row) (dc_summary row) (dc_source_event_ids row)"
  from assms obtain e where a: "append_event_in_transaction E ei
      (actor_event actor (dt_room_id req) (dt_request_id req) (dt_occurred_at req) ty ?p) ?d = Inr (e, d')"
    and es: "es = [e]"
    by (auto simp: settle_decision_def result_simps)
  note f = append_frame [OF a]
  have same: "room_events ?d = room_events d" "room_requests ?d = room_requests d" "agent_tasks ?d = agent_tasks d"
    by (simp_all add: set_decision_status_def)
  show "appends d (dt_room_id req) (dt_request_id req) es d'"
    using appends_before [OF appends_one [OF a] same(1)] es by (simp add: actor_event_def)
  show "decisions d' = decisions ?d" using f by simp
  have "ev_event_type e = ty" using a by (auto simp: append_Inr actor_event_def)
  moreover have "jsonb_ok E \<Longrightarrow> ev_payload e = ?p"
    using append_exact [OF _ a] by (simp add: actor_event_def exact_payloads)
  ultimately show "\<exists>e. es = [e] \<and> ev_event_type e = ty \<and> (jsonb_ok E \<longrightarrow> ev_payload e = ?p)" using es by blast
  show "room_requests d' = room_requests d" "agent_tasks d' = agent_tasks d" using f same by simp_all
qed

lemma set_status_ids: "map dc_decision_id (decisions (set_decision_status E i st t d)) = map dc_decision_id (decisions d)"
  using map_row_update [of "\<lambda>x. dc_decision_id x = i" dc_decision_id
    "\<lambda>x. x\<lparr>dc_status := st, dc_updated_at := pg_time E t\<rparr>" "decisions d"]
  by (simp add: set_decision_status_def)

lemma set_status_id_set:
  "dc_decision_id ` set (decisions (set_decision_status E i st t d)) = dc_decision_id ` set (decisions d)"
  using arg_cong [OF set_status_ids [of E i st t d], of set] by simp

lemma set_status_ok: "decisions_ok (set_decision_status E i st t d) = decisions_ok d"
  by (simp add: decisions_ok_def set_status_ids)

lemma set_status_rows:
  assumes "decisions_ok d" "row \<in> set (decisions d)"
  shows "x \<in> set (decisions (set_decision_status E (dc_decision_id row) st t d)) \<longleftrightarrow>
    x = row\<lparr>dc_status := st, dc_updated_at := pg_time E t\<rparr> \<or>
    x \<in> set (decisions d) \<and> dc_decision_id x \<noteq> dc_decision_id row"
proof -
  let ?f = "\<lambda>x. x\<lparr>dc_status := st, dc_updated_at := pg_time E t\<rparr>"
  have "x \<in> set (decisions (set_decision_status E (dc_decision_id row) st t d)) \<longleftrightarrow>
      (\<exists>y \<in> set (decisions d). x = (if dc_decision_id y = dc_decision_id row then ?f y else y))"
    by (simp add: set_decision_status_def set_row_update)
  also have "\<dots> \<longleftrightarrow> x = ?f row \<or> x \<in> set (decisions d) \<and> dc_decision_id x \<noteq> dc_decision_id row"
    using assms(2) unique_row [OF assms] by (metis (mono_tags, lifting))
  finally show ?thesis .
qed

lemma replaced_rows:
  assumes "decisions_ok d" "row \<in> set (decisions d)"
    "\<And>x. x \<in> set (decisions d') \<longleftrightarrow> x \<in> set new \<or> x \<in> set (decisions d) \<and> dc_decision_id x \<noteq> dc_decision_id row"
  shows "active_in d' r i a \<longleftrightarrow>
    list_ex (active_as r i a) new \<or> i \<noteq> dc_decision_id row \<and> active_in d r i a"
proof -
  have "active_in d' r i a \<longleftrightarrow> list_ex (active_as r i a) new \<or>
      (\<exists>x \<in> set (decisions d). dc_decision_id x \<noteq> dc_decision_id row \<and> active_as r i a x)"
    unfolding active_in_def list_ex_iff using assms(3) by blast
  then show ?thesis unfolding active_in_def by (auto simp: active_as_def)
qed

lemma draft_inactive:
  "decisions_ok d \<Longrightarrow> row \<in> set (decisions d) \<Longrightarrow> dc_status row \<noteq> Active \<Longrightarrow> \<not> active_in d r (dc_decision_id row) a"
  using unique_row by (fastforce simp: active_in_def active_as_def)

lemma settle_event:
  assumes "uuid_ok E" "(st, ty) = (Active, ''decision.confirmed'') \<or> (st, ty) = (Dismissed, ''decision.dismissed'')"
    "ev_event_type e = ty"
    "ev_payload e = decision_payload E (dc_decision_id row) st (dc_title row) (dc_summary row) (dc_source_event_ids row)"
  shows "map_of (apply_decision E e ds) =
    (map_of ds)(dc_decision_id row := if st = Active then Some (active_row row) else None)"
proof (cases "st = Active")
  case True
  with assms have "apply_decision E e ds = upd (dc_decision_id row) (active_row row) ds"
    unfolding active_row_def
    by (intro apply_confirmed [OF assms(1)]) (auto simp: decision_payload_def)
  with True show ?thesis by simp
next
  case False
  with assms have "apply_decision E e ds = del (dc_decision_id row) ds"
    by (intro apply_removed [OF assms(1)]) (auto simp: decision_payload_def)
  with False show ?thesis by (simp add: map_of_del)
qed

lemma settle_view:
  assumes "uuid_ok E" "jsonb_ok E" "settle_decision E ei actor req st ty row d = Inr (es, d')"
    "select_decision (dt_decision_id req) (dt_room_id req) d = Inr row" "dc_status row = Draft"
    "(st, ty) = (Active, ''decision.confirmed'') \<or> (st, ty) = (Dismissed, ''decision.dismissed'')"
  shows "view_kept E d es d'"
  unfolding view_kept_def
proof (intro impI conjI allI)
  note s = settle_Inr [OF assms(3)]
  from select_decision_Inr [OF assms(4)] have row: "row \<in> set (decisions d)"
    "dt_decision_id req = dc_decision_id row" "dt_room_id req = dc_room_id row" by auto
  from s(3) assms(2) row obtain e where e: "es = [e]" "ev_event_type e = ty" "ev_payload e =
      decision_payload E (dc_decision_id row) st (dc_title row) (dc_summary row) (dc_source_event_ids row)"
    by auto
  have room: "ev_room_id e = dc_room_id row" using s(1) e(1) row by (simp add: appends_def)
  note ap = settle_event [OF assms(1,6) e(2,3)]
  assume ok: "decisions_ok d"
  have "decisions_ok d' = decisions_ok (set_decision_status E (dt_decision_id req) st (dt_occurred_at req) d)"
    using s(2) by (simp add: decisions_ok_def)
  then show ok': "decisions_ok d'" using ok by (simp add: set_status_ok)
  fix r
  let ?row = "row\<lparr>dc_status := st, dc_updated_at := pg_time E (dt_occurred_at req)\<rparr>"
  have rows: "active_in d' r i a \<longleftrightarrow> list_ex (active_as r i a) [?row] \<or> i \<noteq> dc_decision_id row \<and> active_in d r i a" for i a
    by (rule replaced_rows [OF ok row(1)]) (use s(2) set_status_rows [OF ok row(1)] row(2) in auto)
  have new: "active_as r i a ?row \<longleftrightarrow> st = Active \<and> i = dc_decision_id row \<and> r = dc_room_id row \<and> a = active_row row" for i a
    by (auto simp: active_as_def active_row_def)
  show "active_view d' r = fold (apply_decision E) (filter (\<lambda>e. ev_room_id e = r) es) (active_view d r)"
  proof (rule active_viewI [OF ok ok'])
    fix i a
    show "map_of (fold (apply_decision E) (filter (\<lambda>e. ev_room_id e = r) es) (active_view d r)) i = Some a \<longleftrightarrow>
        active_in d' r i a"
      using draft_inactive [OF ok row(1), of r a] assms(5) active_view_lookup [OF ok, of r i a]
      by (auto simp: rows new e(1) room ap)
  qed
qed


lemma edit_Inr:
  assumes "edit_decision E rid i1 i2 actor req row d = Inr (es, d')"
  obtains t s e1 e2 where "dt_edited_title req = Some t" "dt_edited_summary req = Some s" "es = [e1, e2]"
    "appends d (dt_room_id req) (dt_request_id req) es d'"
    "ev_event_type e1 = ''decision.edited''" "ev_event_type e2 = ''decision.confirmed''"
    "jsonb_ok E \<Longrightarrow> jget (ev_payload e1) ''decisionId'' = Some (juuid E (dt_decision_id req))"
    "jsonb_ok E \<Longrightarrow> ev_payload e2 = jset (decision_payload E rid Active t s (dc_source_event_ids row))
       ''derivedFromDecisionId'' (juuid E (dt_decision_id req))"
    "rid \<notin> dc_decision_id ` set (decisions d)"
    "decisions d' = decisions (set_decision_status E (dt_decision_id req) Superseded (dt_occurred_at req) d) @
       [\<lparr>dc_decision_id = rid, dc_room_id = dt_room_id req, dc_status = Active, dc_title = t, dc_summary = s,
         dc_derived_from = Some (dt_decision_id req), dc_source_event_ids = dc_source_event_ids row,
         dc_created_at = pg_time E (dt_occurred_at req), dc_updated_at = pg_time E (dt_occurred_at req)\<rparr>]"
    "room_requests d' = room_requests d" "agent_tasks d' = agent_tasks d"
proof -
  let ?sup = "set_decision_status E (dt_decision_id req) Superseded (dt_occurred_at req) d"
  let ?row = "\<lambda>t s. \<lparr>dc_decision_id = rid, dc_room_id = dt_room_id req, dc_status = Active, dc_title = t,
    dc_summary = s, dc_derived_from = Some (dt_decision_id req), dc_source_event_ids = dc_source_event_ids row,
    dc_created_at = pg_time E (dt_occurred_at req), dc_updated_at = pg_time E (dt_occurred_at req)\<rparr>"
  let ?ev = "actor_event actor (dt_room_id req) (dt_request_id req) (dt_occurred_at req)"
  let ?p1 = "jobj [(''decisionId'', juuid E (dt_decision_id req)), (''status'', JStr ''superseded''),
     (''replacementDecisionId'', juuid E rid)]"
  let ?p2 = "\<lambda>t s. jset (decision_payload E rid Active t s (dc_source_event_ids row))
     ''derivedFromDecisionId'' (juuid E (dt_decision_id req))"
  from assms obtain t s e1 d1 e2 where ts: "dt_edited_title req = Some t" "dt_edited_summary req = Some s"
    and fresh: "rid \<notin> dc_decision_id ` set (decisions ?sup)"
    and a1: "append_event_in_transaction E i1 (?ev ''decision.edited'' ?p1)
        (?sup\<lparr>decisions := decisions ?sup @ [?row t s]\<rparr>) = Inr (e1, d1)"
    and a2: "append_event_in_transaction E i2 (?ev ''decision.confirmed'' (?p2 t s)) d1 = Inr (e2, d')"
    and es: "es = [e1, e2]"
    by (fastforce simp: edit_decision_def insert_decision_def result_simps)
  note f1 = append_frame [OF a1] and f2 = append_frame [OF a2]
  have ids: "dc_decision_id ` set (decisions ?sup) = dc_decision_id ` set (decisions d)"
    by (rule set_status_id_set)
  have "appends d (dt_room_id req) (dt_request_id req) ([e1] @ [e2]) d'"
  proof (rule appends_trans)
    show "appends d (dt_room_id req) (dt_request_id req) [e1] d1"
      using appends_before [OF appends_one [OF a1]] by (simp add: actor_event_def set_decision_status_def)
    show "appends d1 (dt_room_id req) (dt_request_id req) [e2] d'"
      using appends_one [OF a2] by (simp add: actor_event_def)
  qed
  moreover have "jsonb_ok E \<Longrightarrow> ev_payload e1 = ?p1"
    using append_exact [OF _ a1] by (simp add: actor_event_def exact_jobj)
  moreover have "jsonb_ok E \<Longrightarrow> ev_payload e2 = ?p2 t s"
    using append_exact [OF _ a2] by (simp add: actor_event_def exact_payloads)
  moreover have "ev_event_type e1 = ''decision.edited''" "ev_event_type e2 = ''decision.confirmed''"
    using a1 a2 by (auto simp: append_Inr actor_event_def)
  moreover have "decisions d' = decisions ?sup @ [?row t s]" using f1 f2 by simp
  moreover have "room_requests d' = room_requests d" "agent_tasks d' = agent_tasks d"
    using f1 f2 by (simp_all add: set_decision_status_def)
  ultimately show thesis using that ts es fresh ids by simp
qed

lemma edit_view:
  assumes "uuid_ok E" "jsonb_ok E" "edit_decision E rid i1 i2 actor req row d = Inr (es, d')"
    "select_decision (dt_decision_id req) (dt_room_id req) d = Inr row" "dc_status row = Draft"
  shows "view_kept E d es d'"
  unfolding view_kept_def
proof (intro impI conjI allI)
  from assms(3) obtain t s e1 e2 where q: "es = [e1, e2]" "appends d (dt_room_id req) (dt_request_id req) es d'"
    "ev_event_type e1 = ''decision.edited''" "ev_event_type e2 = ''decision.confirmed''"
    "jget (ev_payload e1) ''decisionId'' = Some (juuid E (dt_decision_id req))"
    "ev_payload e2 = jset (decision_payload E rid Active t s (dc_source_event_ids row))
       ''derivedFromDecisionId'' (juuid E (dt_decision_id req))"
    "rid \<notin> dc_decision_id ` set (decisions d)"
    and rows': "decisions d' = decisions (set_decision_status E (dt_decision_id req) Superseded (dt_occurred_at req) d) @
       [\<lparr>dc_decision_id = rid, dc_room_id = dt_room_id req, dc_status = Active, dc_title = t, dc_summary = s,
         dc_derived_from = Some (dt_decision_id req), dc_source_event_ids = dc_source_event_ids row,
         dc_created_at = pg_time E (dt_occurred_at req), dc_updated_at = pg_time E (dt_occurred_at req)\<rparr>]"
    by (rule edit_Inr) (use assms(2) in auto)
  let ?new = "\<lparr>dc_decision_id = rid, dc_room_id = dt_room_id req, dc_status = Active, dc_title = t, dc_summary = s,
         dc_derived_from = Some (dt_decision_id req), dc_source_event_ids = dc_source_event_ids row,
         dc_created_at = pg_time E (dt_occurred_at req), dc_updated_at = pg_time E (dt_occurred_at req)\<rparr>"
  let ?sup = "row\<lparr>dc_status := Superseded, dc_updated_at := pg_time E (dt_occurred_at req)\<rparr>"
  from select_decision_Inr [OF assms(4)] have row: "row \<in> set (decisions d)"
    "dt_decision_id req = dc_decision_id row" "dt_room_id req = dc_room_id row" by auto
  have room: "ev_room_id e1 = dc_room_id row" "ev_room_id e2 = dc_room_id row"
    using q(1,2) row by (simp_all add: appends_def)
  have ap1: "apply_decision E e1 ds = del (dc_decision_id row) ds" for ds
    using q row by (intro apply_removed [OF assms(1)]) auto
  have ap2: "apply_decision E e2 ds = upd rid (active_row ?new) ds" for ds
    using q unfolding active_row_def decision_row.simps
    by (intro apply_confirmed [OF assms(1)]) (auto simp: decision_payload_def jset_jobj)
  assume ok: "decisions_ok d"
  have "decisions_ok (set_decision_status E (dt_decision_id req) Superseded (dt_occurred_at req) d)"
    using ok by (simp add: set_status_ok)
  moreover have "rid \<notin> dc_decision_id ` set (decisions (set_decision_status E (dt_decision_id req) Superseded (dt_occurred_at req) d))"
    using q(7) by (simp only: set_status_id_set not_False_eq_True)
  ultimately show ok': "decisions_ok d'" by (simp add: decisions_ok_def rows')
  fix r
  have rows: "active_in d' r i a \<longleftrightarrow> list_ex (active_as r i a) [?sup, ?new] \<or> i \<noteq> dc_decision_id row \<and> active_in d r i a" for i a
    by (rule replaced_rows [OF ok row(1)]) (use rows' set_status_rows [OF ok row(1)] row(2) in auto)
  have new: "active_as r i a ?new \<longleftrightarrow> i = rid \<and> r = dc_room_id row \<and> a = active_row ?new" "\<not> active_as r i a ?sup" for i a
    using row by (auto simp: active_as_def)
  have none: "\<not> active_in d r rid a" for a using q(7) by (auto simp: active_in_def active_as_def)
  show "active_view d' r = fold (apply_decision E) (filter (\<lambda>e. ev_room_id e = r) es) (active_view d r)"
  proof (rule active_viewI [OF ok ok'])
    fix i a
    show "map_of (fold (apply_decision E) (filter (\<lambda>e. ev_room_id e = r) es) (active_view d r)) i = Some a \<longleftrightarrow>
        active_in d' r i a"
      using draft_inactive [OF ok row(1), of r a] assms(5) active_view_lookup [OF ok, of r i a] none [of a] q(7) row(1)
      by (auto simp: rows new q(1) room ap1 ap2 map_of_del)
  qed
qed

lemma delete_Inr:
  assumes "delete_decision_in_transaction E ei actor req d = Inr (es, d')"
  obtains row e where "select_decision (dd_decision_id req) (dd_room_id req) d = Inr row" "es = [e]"
    "appends d (dd_room_id req) (dd_request_id req) es d'" "ev_event_type e = ''decision.deleted''"
    "jsonb_ok E \<Longrightarrow> jget (ev_payload e) ''decisionId'' = Some (juuid E (dd_decision_id req))"
    "decisions d' = row_delete (\<lambda>x. dc_decision_id x = dd_decision_id req \<and> dc_room_id x = dd_room_id req) (decisions d)"
    "room_requests d' = room_requests d" "agent_tasks d' = agent_tasks d"
proof -
  let ?p = "\<lambda>row. jobj [(''decisionId'', juuid E (dd_decision_id req)),
      (''priorStatus'', JStr (decision_status_str (dc_status row))), (''title'', JStr (dc_title row)),
      (''summary'', JStr (dc_summary row)), (''sourceEventIds'', juuids E (dc_source_event_ids row))]"
  from assms obtain row e d1 where sel: "select_decision (dd_decision_id req) (dd_room_id req) d = Inr row"
    and a: "append_event_in_transaction E ei (actor_event actor (dd_room_id req) (dd_request_id req)
        (dd_occurred_at req) ''decision.deleted'' (?p row)) d = Inr (e, d1)" and es: "es = [e]"
    and d': "d' = d1\<lparr>decisions := row_delete (\<lambda>x. dc_decision_id x = dd_decision_id req \<and>
         dc_room_id x = dd_room_id req) (decisions d1)\<rparr>"
    by (auto simp: delete_decision_in_transaction_def result_simps)
  have "appends d (dd_room_id req) (dd_request_id req) es d'"
    using appends_after [OF appends_one [OF a], of d'] es d' by (simp add: actor_event_def)
  moreover have "jsonb_ok E \<Longrightarrow> jget (ev_payload e) ''decisionId'' = Some (juuid E (dd_decision_id req))"
    using append_exact [OF _ a] by (simp add: actor_event_def exact_jobj)
  moreover have "ev_event_type e = ''decision.deleted''" using a by (auto simp: append_Inr actor_event_def)
  ultimately show thesis using that sel es d' append_frame [OF a] by simp
qed

lemma delete_view:
  assumes "uuid_ok E" "jsonb_ok E" "delete_decision_in_transaction E ei actor req d = Inr (es, d')"
  shows "view_kept E d es d'"
  unfolding view_kept_def
proof (intro impI conjI allI)
  from assms(3) obtain row e where sel: "select_decision (dd_decision_id req) (dd_room_id req) d = Inr row"
    and q: "es = [e]" "appends d (dd_room_id req) (dd_request_id req) es d'" "ev_event_type e = ''decision.deleted''"
    "jget (ev_payload e) ''decisionId'' = Some (juuid E (dd_decision_id req))"
    and del: "decisions d' = row_delete (\<lambda>x. dc_decision_id x = dd_decision_id req \<and> dc_room_id x = dd_room_id req) (decisions d)"
    by (rule delete_Inr) (use assms(2) in auto)
  from select_decision_Inr [OF sel] have row: "row \<in> set (decisions d)"
    "dd_decision_id req = dc_decision_id row" "dd_room_id req = dc_room_id row" by auto
  have room: "ev_room_id e = dc_room_id row" using q(1,2) row by (simp add: appends_def)
  have ap: "apply_decision E e ds = del (dc_decision_id row) ds" for ds
    using q row by (intro apply_removed [OF assms(1)]) auto
  assume ok: "decisions_ok d"
  then show ok': "decisions_ok d'" by (simp add: decisions_ok_def del row_delete_def distinct_map_filter)
  fix r
  have rows: "active_in d' r i a \<longleftrightarrow> list_ex (active_as r i a) [] \<or> i \<noteq> dc_decision_id row \<and> active_in d r i a" for i a
    by (rule replaced_rows [OF ok row(1)])
      (use unique_row [OF ok row(1)] row(2,3) in \<open>auto simp: del set_row_delete\<close>)
  have only: "active_in d r (dc_decision_id row) a \<Longrightarrow> r = dc_room_id row" for a
    using unique_row [OF ok row(1)] by (auto simp: active_in_def active_as_def)
  show "active_view d' r = fold (apply_decision E) (filter (\<lambda>e. ev_room_id e = r) es) (active_view d r)"
  proof (rule active_viewI [OF ok ok'])
    fix i a
    show "map_of (fold (apply_decision E) (filter (\<lambda>e. ev_room_id e = r) es) (active_view d r)) i = Some a \<longleftrightarrow>
        active_in d' r i a"
      using active_view_lookup [OF ok, of r i a] only [of a]
      by (auto simp: rows q(1) room ap map_of_del)
  qed
qed

lemma transition_Inr:
  assumes "transition_decision_in_transaction E rid i1 i2 actor req d = Inr (es, d')"
  obtains row where "select_decision (dt_decision_id req) (dt_room_id req) d = Inr row" "dc_status row = Draft"
    "dt_action req = Confirm \<Longrightarrow> settle_decision E i1 actor req Active ''decision.confirmed'' row d = Inr (es, d')"
    "dt_action req = Dismiss \<Longrightarrow> settle_decision E i1 actor req Dismissed ''decision.dismissed'' row d = Inr (es, d')"
    "dt_action req = Edit \<Longrightarrow> edit_decision E rid i1 i2 actor req row d = Inr (es, d')"
  using assms by (cases "dt_action req") (auto simp: transition_decision_in_transaction_def result_simps)

lemma transition_view:
  assumes "uuid_ok E" "jsonb_ok E" "transition_decision_in_transaction E rid i1 i2 actor req d = Inr (es, d')"
  shows "view_kept E d es d'"
  using assms(3)
proof (rule transition_Inr)
  fix row
  assume row: "select_decision (dt_decision_id req) (dt_room_id req) d = Inr row" "dc_status row = Draft"
    and c: "dt_action req = Confirm \<Longrightarrow> settle_decision E i1 actor req Active ''decision.confirmed'' row d = Inr (es, d')"
    "dt_action req = Dismiss \<Longrightarrow> settle_decision E i1 actor req Dismissed ''decision.dismissed'' row d = Inr (es, d')"
    "dt_action req = Edit \<Longrightarrow> edit_decision E rid i1 i2 actor req row d = Inr (es, d')"
  show ?thesis
  proof (cases "dt_action req")
    case Confirm
    then show ?thesis using settle_view [OF assms(1,2) c(1) row] by simp
  next
    case Edit
    then show ?thesis using edit_view [OF assms(1,2) c(3) row] by simp
  next
    case Dismiss
    then show ?thesis using settle_view [OF assms(1,2) c(2) row] by simp
  qed
qed

lemma transition_appends:
  assumes "transition_decision_in_transaction E rid i1 i2 actor req d = Inr (es, d')"
  shows "appends d (dt_room_id req) (dt_request_id req) es d' \<and> room_requests d' = room_requests d \<and> agent_tasks d' = agent_tasks d"
  using assms
proof (rule transition_Inr)
  fix row
  assume c: "dt_action req = Confirm \<Longrightarrow> settle_decision E i1 actor req Active ''decision.confirmed'' row d = Inr (es, d')"
    "dt_action req = Dismiss \<Longrightarrow> settle_decision E i1 actor req Dismissed ''decision.dismissed'' row d = Inr (es, d')"
    "dt_action req = Edit \<Longrightarrow> edit_decision E rid i1 i2 actor req row d = Inr (es, d')"
  show ?thesis
  proof (cases "dt_action req")
    case Confirm
    then show ?thesis using settle_Inr [OF c(1)] by simp
  next
    case Edit
    from c(3) [OF this] show ?thesis by (rule edit_Inr) simp
  next
    case Dismiss
    then show ?thesis using settle_Inr [OF c(2)] by simp
  qed
qed


subsection \<open>What happens to a recorded decision\<close>

definition same_decision :: "decision_row \<Rightarrow> decision_row \<Rightarrow> bool" where
  \<comment> \<open>everything but the status and the time of the last update\<close>
  "same_decision x y \<longleftrightarrow> y = x\<lparr>dc_status := dc_status y, dc_updated_at := dc_updated_at y\<rparr>"

definition rows_kept :: "db \<Rightarrow> db \<Rightarrow> bool" where
  \<comment> \<open>no row is lost, its content is as it was, and its status only changes while it is a draft\<close>
  "rows_kept d d' \<longleftrightarrow> (\<forall>x \<in> set (decisions d). \<exists>y \<in> set (decisions d').
     same_decision x y \<and> (dc_status y = dc_status x \<or> dc_status x = Draft))"

lemma rows_keptI:
  assumes "set (decisions d) \<subseteq> set (decisions d')"
  shows "rows_kept d d'"
  unfolding rows_kept_def
proof
  fix x assume "x \<in> set (decisions d)"
  with assms show "\<exists>y \<in> set (decisions d'). same_decision x y \<and> (dc_status y = dc_status x \<or> dc_status x = Draft)"
    by (intro bexI [of _ x]) (auto simp: same_decision_def)
qed

lemma set_status_kept:
  assumes "decisions_ok d" "row \<in> set (decisions d)" "dc_status row = Draft"
  shows "rows_kept d (set_decision_status E (dc_decision_id row) st t d)"
  unfolding rows_kept_def
proof
  fix x assume x: "x \<in> set (decisions d)"
  show "\<exists>y \<in> set (decisions (set_decision_status E (dc_decision_id row) st t d)).
      same_decision x y \<and> (dc_status y = dc_status x \<or> dc_status x = Draft)"
  proof (cases "dc_decision_id x = dc_decision_id row")
    case True
    with assms x have "x = row" by (auto intro: unique_row)
    then show ?thesis
      using assms(3) set_status_rows [OF assms(1,2), of "row\<lparr>dc_status := st, dc_updated_at := pg_time E t\<rparr>" E st t]
      by (intro bexI [of _ "row\<lparr>dc_status := st, dc_updated_at := pg_time E t\<rparr>"]) (simp_all add: same_decision_def)
  next
    case False
    with x show ?thesis
      using set_status_rows [OF assms(1,2), of x E st t] by (intro bexI [of _ x]) (simp_all add: same_decision_def)
  qed
qed

lemma transition_rows:
  assumes "decisions_ok d" "transition_decision_in_transaction E rid i1 i2 actor req d = Inr (es, d')"
  shows "rows_kept d d'"
  using assms(2)
proof (rule transition_Inr)
  fix row
  assume row: "select_decision (dt_decision_id req) (dt_room_id req) d = Inr row" "dc_status row = Draft"
    and c: "dt_action req = Confirm \<Longrightarrow> settle_decision E i1 actor req Active ''decision.confirmed'' row d = Inr (es, d')"
    "dt_action req = Dismiss \<Longrightarrow> settle_decision E i1 actor req Dismissed ''decision.dismissed'' row d = Inr (es, d')"
    "dt_action req = Edit \<Longrightarrow> edit_decision E rid i1 i2 actor req row d = Inr (es, d')"
  from select_decision_Inr [OF row(1)] have r: "row \<in> set (decisions d)" "dt_decision_id req = dc_decision_id row" by auto
  note kept = set_status_kept [OF assms(1) r(1) row(2), folded r(2)]
  have incl: "rows_kept d d'"
    if "set (decisions (set_decision_status E (dt_decision_id req) st (dt_occurred_at req) d)) \<subseteq> set (decisions d')" for st
    using kept [of E st "dt_occurred_at req"] that unfolding rows_kept_def by blast
  show ?thesis
  proof (cases "dt_action req")
    case Confirm
    show ?thesis by (rule incl [of Active]) (simp add: settle_Inr(2) [OF c(1) [OF Confirm]])
  next
    case Edit
    from c(3) [OF this] show ?thesis by (rule edit_Inr) (rule incl [of Superseded], simp add: subset_insertI)
  next
    case Dismiss
    show ?thesis by (rule incl [of Dismissed]) (simp add: settle_Inr(2) [OF c(2) [OF Dismiss]])
  qed
qed

subsection \<open>Projections\<close>

text \<open>
  A table that every transaction updates the way a fold over the appended events does is the fold over
  the whole log, whatever the transactions were.
\<close>

locale projection =
  fixes inv :: "'s \<Rightarrow> bool"
    and log :: "'s \<Rightarrow> uuid \<Rightarrow> 'e list"
    and view :: "'s \<Rightarrow> uuid \<Rightarrow> 'm"
    and apply_event :: "'e \<Rightarrow> 'm \<Rightarrow> 'm"
    and start :: 'm
    and step :: "'o \<Rightarrow> 's \<Rightarrow> 's"
  assumes step_inv: "inv s \<Longrightarrow> inv (step x s)"
    and step_view: "inv s \<Longrightarrow> \<exists>es. log (step x s) r = log s r @ es \<and> view (step x s) r = fold apply_event es (view s r)"
begin

lemma run_inv: "inv s \<Longrightarrow> inv (fold step xs s)"
  by (induction xs arbitrary: s) (simp_all add: step_inv)

lemma run_view:
  assumes "inv s" "view s r = fold apply_event (log s r) start"
  shows "view (fold step xs s) r = fold apply_event (log (fold step xs s) r) start"
  using assms
proof (induction xs arbitrary: s)
  case (Cons x xs)
  from step_view [OF Cons.prems(1), of x r] obtain es where
    "log (step x s) r = log s r @ es" "view (step x s) r = fold apply_event es (view s r)" by blast
  then have "view (step x s) r = fold apply_event (log (step x s) r) start" using Cons.prems(2) by simp
  with Cons.IH [OF step_inv [OF Cons.prems(1)]] show ?case by simp
qed simp

end

end
