(* ===== verification/Rooms.thy ===== *)
theory Rooms
  imports Agent_Tasks Mentions Decisions "HOL-Library.AList"
begin

text \<open>
  The rooms of the gateway, \<open>src/rooms.rs\<close>: the origin policy of the WebSocket endpoint, the presence
  table, the roster of a room, and \<open>process\<close>, the one transaction behind every governed request.  A
  \<open>HashMap\<close> is an association list without repeated keys.  Every \<open>Uuid::new_v4()\<close> of a request is taken
  from the supply \<open>fresh\<close>, \<open>now\<close> is \<open>NOW()\<close>.  The room lock is held from the ledger lookup to the commit,
  so a request reads and writes one database; a failed one leaves it as it was.
\<close>

subsection \<open>The origin policy\<close>

record websocket_policy =
  wp_allowed_origins :: "string list"
  wp_authentication_timeout :: duration

definition origin_ok :: "(string \<Rightarrow> (string option \<times> string option) option) \<Rightarrow> string \<Rightarrow> bool" where
  \<comment> \<open>\<open>uri_parse\<close> gives the scheme and the authority of a \<open>Uri\<close>, if it parses\<close>
  "origin_ok uri_parse origin =
     (case uri_parse origin of
        Some (Some scheme, Some authority) \<Rightarrow>
          (scheme = ''http'' \<or> scheme = ''https'') \<and> origin = scheme @ ''://'' @ authority
      | _ \<Rightarrow> False)"

definition new_websocket_policy ::
  "(string \<Rightarrow> (string option \<times> string option) option) \<Rightarrow> string list \<Rightarrow> duration \<Rightarrow> websocket_policy option" where
  "new_websocket_policy uri_parse allowed_origins authentication_timeout =
     (if authentication_timeout < millis 1 \<or> authentication_timeout > seconds 30 then None
      else if \<not> list_all (origin_ok uri_parse) allowed_origins then None
      else if allowed_origins = [] then None
      else Some \<lparr>wp_allowed_origins = remdups allowed_origins, wp_authentication_timeout = authentication_timeout\<rparr>)"

definition deny_all :: websocket_policy where
  "deny_all = \<lparr>wp_allowed_origins = [], wp_authentication_timeout = seconds 5\<rparr>"

definition allows_origin :: "websocket_policy \<Rightarrow> string \<Rightarrow> bool" where
  "allows_origin policy origin \<longleftrightarrow> origin \<in> set (wp_allowed_origins policy)"

subsection \<open>Presence\<close>

record participant_presence =
  pp_role :: string
  pp_display_name :: string
  pp_connections :: nat

type_synonym presence = "uuid \<Rightarrow> (uuid \<times> participant_presence) list"

definition register_participant :: "uuid \<Rightarrow> actor \<Rightarrow> presence \<Rightarrow> presence" where
  "register_participant room_id actor presence =
     (let room = presence room_id;
          connections = (case map_of room (act_id actor) of None \<Rightarrow> 0 | Some p \<Rightarrow> pp_connections p)
      in presence(room_id := AList.update (act_id actor)
           \<lparr>pp_role = role_str (act_role actor), pp_display_name = act_display_name actor,
            pp_connections = connections + 1\<rparr> room))"

definition unregister_participant :: "uuid \<Rightarrow> uuid \<Rightarrow> presence \<Rightarrow> presence" where
  "unregister_participant room_id actor_id presence =
     (case map_of (presence room_id) actor_id of
        None \<Rightarrow> presence
      | Some p \<Rightarrow> presence(room_id := AList.update actor_id
          (p\<lparr>pp_connections := if pp_connections p > 1 then pp_connections p - 1 else 0\<rparr>) (presence room_id)))"

subsection \<open>The roster\<close>

definition default_display_name :: "ext \<Rightarrow> string \<Rightarrow> uuid \<Rightarrow> string" where
  "default_display_name E role actor_id =
     (if role = ''human'' then ''Human'' else ''Agent'') @ '' '' @ uuid_prefix8 E actor_id"

definition event_participant :: "ext \<Rightarrow> room_event \<Rightarrow> room_participant" where
  "event_participant E event =
     \<lparr>rp_id = ev_actor_id event, rp_role = ev_actor_role event,
      rp_display_name = (case ev_actor_display_name event of Some name \<Rightarrow> name
        | None \<Rightarrow> default_display_name E (ev_actor_role event) (ev_actor_id event)),
      rp_online = False\<rparr>"

definition present_participant :: "uuid \<times> participant_presence \<Rightarrow> room_participant" where
  "present_participant p =
     \<lparr>rp_id = fst p, rp_role = pp_role (snd p), rp_display_name = pp_display_name (snd p),
      rp_online = (pp_connections (snd p) > 0)\<rparr>"

definition action_items_participant :: room_participant where
  "action_items_participant =
     \<lparr>rp_id = ACTION_ITEMS_AGENT_ID, rp_role = ''agent'',
      rp_display_name = ACTION_ITEMS_AGENT_DISPLAY_NAME, rp_online = True\<rparr>"

definition codex_participant :: room_participant where
  "codex_participant =
     \<lparr>rp_id = CODEX_AGENT_ID, rp_role = ''agent'', rp_display_name = ''Codex Agent'', rp_online = True\<rparr>"

definition insert_participant ::
  "room_participant \<Rightarrow> (uuid \<times> room_participant) list \<Rightarrow> (uuid \<times> room_participant) list" where
  "insert_participant p = AList.update (rp_id p) p"

definition replay :: "uuid \<Rightarrow> int \<Rightarrow> db \<Rightarrow> room_event list" where
  "replay room_id after_sequence d = events_after room_id after_sequence d"

definition roster ::
  "ext \<Rightarrow> bool \<Rightarrow> (uuid \<times> participant_presence) list \<Rightarrow> room_event list \<Rightarrow> (uuid \<times> room_participant) list" where
  \<comment> \<open>the map of \<open>participant_snapshot\<close> before it is sorted; \<open>enabled\<close> is the conversation policy\<close>
  "roster E enabled room_presence events =
     (let ps = insert_participant action_items_participant [];
          ps = fold (\<lambda>e. insert_participant (event_participant E e)) events ps;
          ps = fold (\<lambda>p. insert_participant (present_participant p)) room_presence ps
      in if enabled then insert_participant codex_participant ps else ps)"

definition participant_snapshot :: "ext \<Rightarrow> bool \<Rightarrow> presence \<Rightarrow> uuid \<Rightarrow> db \<Rightarrow> room_participant list" where
  "participant_snapshot E enabled presence room_id d =
     sort_key (\<lambda>p. (rp_role p, rp_display_name p, rp_id p))
       (map snd (roster E enabled (presence room_id) (replay room_id 0 d)))"

subsection \<open>Requests\<close>

record processed_request =
  pr_events :: "room_event list"
  pr_duplicate :: bool

fun append_events :: "ext \<Rightarrow> (uuid \<times> new_event) list \<Rightarrow> db \<Rightarrow> store_error + (room_event list \<times> db)" where
  "append_events E [] d = Inr ([], d)"
| "append_events E ((event_id, event) # rest) d =
     rbind (append_event_in_transaction E event_id event d) (\<lambda>(e, d).
     rbind (append_events E rest d) (\<lambda>(es, d). Inr (e # es, d)))"

definition action_item_json :: "action_item \<Rightarrow> json" where
  "action_item_json i = jobj [
     (''text'', JStr (item_text i)), (''owner'', jopt JStr (item_owner i)), (''due'', jopt JStr (item_due i))]"

definition action_items_outcome :: "json \<Rightarrow> string \<Rightarrow> string \<times> json" where
  "action_items_outcome core message_text =
     (case extract_action_items message_text of
        Inr action_items \<Rightarrow>
          (''agent.task.succeeded'',
           jset core ''result'' (jobj [(''actionItems'', JArr (map action_item_json action_items))]))
      | Inl _ \<Rightarrow>
          (''agent.task.failed'',
           jset core ''failure'' (jobj [(''code'', JStr ''invalid_task_input'')])))"

definition action_items_event :: "chat_send \<Rightarrow> string \<Rightarrow> json \<Rightarrow> new_event" where
  "action_items_event request event_type payload =
     \<lparr>ne_room_id = cs_room_id request, ne_request_id = cs_request_id request, ne_event_type = event_type,
      ne_actor_id = ACTION_ITEMS_AGENT_ID, ne_actor_role = ''agent'',
      ne_actor_display_name = Some ACTION_ITEMS_AGENT_DISPLAY_NAME, ne_payload = payload,
      ne_occurred_at = cs_occurred_at request\<rparr>"

definition send_chat ::
  "ext \<Rightarrow> (nat \<Rightarrow> uuid) \<Rightarrow> actor \<Rightarrow> room_participant list \<Rightarrow> chat_send \<Rightarrow> db \<Rightarrow>
   rpc_error + (room_event list \<times> db)" where
  "send_chat E fresh actor participants request d =
     rbind (resolve_chat_audience E actor participants request) (\<lambda>audience_ids.
     rbind (internal (append_event_in_transaction E (fresh 0)
              (actor_event actor (cs_room_id request) (cs_request_id request) (cs_occurred_at request)
                 ''message.created'' (normalized_chat_payload E request audience_ids)) d)) (\<lambda>(message, d).
       if invokes_action_items actor request then
         (let core = action_items_task_payload E (fresh 1) (ev_event_id message) (act_id actor);
              (event_type, payload) = action_items_outcome core (cs_text request)
          in rbind (internal (append_events E
                 [(fresh 2, action_items_event request ''agent.task.queued'' core),
                  (fresh 3, action_items_event request ''agent.task.running'' core),
                  (fresh 4, action_items_event request event_type payload)] d)) (\<lambda>(events, d).
               Inr (message # events, d)))
       else Inr ([message], d)))"

fun perform_request ::
  "ext \<Rightarrow> (nat \<Rightarrow> uuid) \<Rightarrow> timestamp \<Rightarrow> actor \<Rightarrow> room_participant list \<Rightarrow> validated_request \<Rightarrow> db \<Rightarrow>
   rpc_error + (room_event list \<times> db)" where
  \<comment> \<open>the \<open>match\<close> of \<open>process\<close>; its two last arms are unreachable in the code\<close>
  "perform_request E fresh now actor participants (ChatSend request) d =
     send_chat E fresh actor participants request d"
| "perform_request E fresh now actor participants (DecisionPropose request) d =
     propose_decision E (fresh 0) (fresh 1) actor request d"
| "perform_request E fresh now actor participants (DecisionTransition request) d =
     transition_decision_in_transaction E (fresh 0) (fresh 1) (fresh 2) actor request d"
| "perform_request E fresh now actor participants (DecisionDelete request) d =
     delete_decision_in_transaction E (fresh 0) actor request d"
| "perform_request E fresh now actor participants (AgentTaskStart request) d =
     rbind (internal (start_agent_task_in_transaction E (fresh 0) (fresh 1) now
              (act_id actor) (act_display_name actor) request False d)) (\<lambda>(result, d).
       Inr (sr_events result, d))"
| "perform_request E fresh now actor participants (Join request) d = Inl Invalid_request"
| "perform_request E fresh now actor participants (SessionAuthenticate request) d = Inl Invalid_request"

fun humans_only :: "validated_request \<Rightarrow> bool" where
  "humans_only (DecisionTransition _) = True"
| "humans_only (DecisionDelete _) = True"
| "humans_only (AgentTaskStart _) = True"
| "humans_only _ = False"

fun not_processed :: "validated_request \<Rightarrow> bool" where
  "not_processed (Join _) = True"
| "not_processed (SessionAuthenticate _) = True"
| "not_processed _ = False"

definition process ::
  "ext \<Rightarrow> bool \<Rightarrow> presence \<Rightarrow> (nat \<Rightarrow> uuid) \<Rightarrow> timestamp \<Rightarrow> actor \<Rightarrow> validated_request \<Rightarrow> db \<Rightarrow>
   rpc_error + (processed_request \<times> db)" where
  "process E enabled presence fresh now actor request d =
     (if humans_only request \<and> act_role actor \<noteq> Human then Inl Forbidden
      else if not_processed request then Inl Invalid_request
      else
        rbind (ok_or Internal_error (request_room_id request)) (\<lambda>room_id.
        rbind (ok_or Internal_error (request_request_id request)) (\<lambda>request_id.
          case prior_request room_id request_id d of
            Some (prior_fingerprint, events) \<Rightarrow>
              if prior_fingerprint = fingerprint E request
              then Inr (\<lparr>pr_events = events, pr_duplicate = True\<rparr>, d)
              else Inl Conflicting_duplicate
          | None \<Rightarrow>
              rbind (perform_request E fresh now actor (participant_snapshot E enabled presence room_id d) request d)
                (\<lambda>(events, d).
              rbind (internal (record_request E room_id request_id (fingerprint E request) events d)) (\<lambda>d.
                Inr (\<lparr>pr_events = events, pr_duplicate = False\<rparr>, d))))))"

definition transition_decision ::
  "ext \<Rightarrow> bool \<Rightarrow> presence \<Rightarrow> (nat \<Rightarrow> uuid) \<Rightarrow> timestamp \<Rightarrow> actor \<Rightarrow> decision_transition \<Rightarrow> db \<Rightarrow>
   rpc_error + (room_event list \<times> db)" where
  "transition_decision E enabled presence fresh now actor request d =
     rbind (process E enabled presence fresh now actor (DecisionTransition request) d)
       (\<lambda>(processed, d). Inr (pr_events processed, d))"


subsection \<open>What a request does to the database\<close>

lemma append_events_appends:
  assumes "append_events E xs d = Inr (es, d')" "\<forall>x \<in> set xs. ne_room_id (snd x) = r \<and> ne_request_id (snd x) = q"
  shows "appends d r q es d' \<and> map ev_event_type es = map (ne_event_type \<circ> snd) xs \<and>
    decisions d' = decisions d \<and> agent_tasks d' = agent_tasks d \<and> room_requests d' = room_requests d"
  using assms
proof (induction xs arbitrary: d es)
  case Nil
  then show ?case by (simp add: appends_def)
next
  case (Cons x xs)
  from Cons.prems(1) obtain e d1 fs where a: "append_event_in_transaction E (fst x) (snd x) d = Inr (e, d1)"
    and rest: "append_events E xs d1 = Inr (fs, d')" and es: "es = e # fs"
    by (cases x) (auto simp: result_simps)
  have "ev_event_type e = ne_event_type (snd x)" using a by (auto simp: append_Inr)
  moreover have "appends d r q [e] d1" using appends_one [OF a] Cons.prems(2) by simp
  ultimately show ?case
    using Cons.IH [OF rest] Cons.prems(2) append_frame [OF a] es appends_trans [of d r q "[e]" d1 fs d'] by simp
qed

definition agent_step :: "string \<Rightarrow> bool" where
  \<comment> \<open>the types of the events of the built-in agent\<close>
  "agent_step t \<longleftrightarrow> t \<in> {''agent.task.queued'', ''agent.task.running'', ''agent.task.succeeded'', ''agent.task.failed''}"

lemma outcome_type: "agent_step (fst (action_items_outcome core t))"
  by (simp add: action_items_outcome_def agent_step_def split: sum.splits)

lemma send_chat_Inr:
  assumes "send_chat E fresh actor ps req d = Inr (es, d')"
  shows "appends d (cs_room_id req) (cs_request_id req) es d'" and "es \<noteq> []" and "ev_event_type (hd es) = ''message.created''"
    and "ev_actor_id (hd es) = act_id actor"
    and "\<forall>e \<in> set (tl es). agent_step (ev_event_type e)"
    and "decisions d' = decisions d" and "agent_tasks d' = agent_tasks d" and "room_requests d' = room_requests d"
proof -
  let ?ev = "\<lambda>aud. actor_event actor (cs_room_id req) (cs_request_id req) (cs_occurred_at req) ''message.created''
     (normalized_chat_payload E req aud)"
  from assms obtain aud m d1 where
    a: "append_event_in_transaction E (fresh 0) (?ev aud) d = Inr (m, d1)"
    and rest: "(if invokes_action_items actor req then
         (let core = action_items_task_payload E (fresh 1) (ev_event_id m) (act_id actor);
              (event_type, payload) = action_items_outcome core (cs_text req)
          in rbind (internal (append_events E
                 [(fresh 2, action_items_event req ''agent.task.queued'' core),
                  (fresh 3, action_items_event req ''agent.task.running'' core),
                  (fresh 4, action_items_event req event_type payload)] d1)) (\<lambda>(events, d).
               Inr (m # events, d)))
       else Inr ([m], d1)) = Inr (es, d')"
    by (auto simp: send_chat_def result_simps)
  note f = append_frame [OF a]
  have m: "ev_event_type m = ''message.created''" "ev_actor_id m = act_id actor"
    using a by (auto simp: append_Inr actor_event_def)
  have ap: "appends d (cs_room_id req) (cs_request_id req) [m] d1" using appends_one [OF a] by (simp add: actor_event_def)
  have "\<exists>fs. es = m # fs \<and> appends d1 (cs_room_id req) (cs_request_id req) fs d' \<and>
      (\<forall>e \<in> set fs. agent_step (ev_event_type e)) \<and>
      decisions d' = decisions d1 \<and> agent_tasks d' = agent_tasks d1 \<and> room_requests d' = room_requests d1"
  proof (cases "invokes_action_items actor req")
    case True
    let ?core = "action_items_task_payload E (fresh 1) (ev_event_id m) (act_id actor)"
    obtain ty pl where o: "action_items_outcome ?core (cs_text req) = (ty, pl)" by fastforce
    have ty: "agent_step ty"
      using outcome_type [of ?core "cs_text req"] o by simp
    from rest True o obtain fs where b: "append_events E
        [(fresh 2, action_items_event req ''agent.task.queued'' ?core),
         (fresh 3, action_items_event req ''agent.task.running'' ?core),
         (fresh 4, action_items_event req ty pl)] d1 = Inr (fs, d')" and es: "es = m # fs"
      by (auto simp: Let_def result_simps simp del: append_events.simps)
    have "appends d1 (cs_room_id req) (cs_request_id req) fs d' \<and> map ev_event_type fs = [''agent.task.queued'', ''agent.task.running'', ty] \<and>
        decisions d' = decisions d1 \<and> agent_tasks d' = agent_tasks d1 \<and> room_requests d' = room_requests d1"
      using append_events_appends [OF b, of "cs_room_id req" "cs_request_id req"] by (simp add: action_items_event_def)
    moreover have "list_all agent_step [''agent.task.queued'', ''agent.task.running'', ty]"
      using ty by (simp add: agent_step_def)
    ultimately have "list_all agent_step (map ev_event_type fs)" by simp
    then have "\<forall>e \<in> set fs. agent_step (ev_event_type e)" by (simp add: list_all_iff)
    with b es show ?thesis
      using append_events_appends [OF b, of "cs_room_id req" "cs_request_id req"] by (simp add: action_items_event_def)
  next
    case False
    with rest show ?thesis by (simp add: appends_def)
  qed
  then obtain fs where fs: "es = m # fs" "appends d1 (cs_room_id req) (cs_request_id req) fs d'"
    "\<forall>e \<in> set fs. agent_step (ev_event_type e)"
    "decisions d' = decisions d1" "agent_tasks d' = agent_tasks d1" "room_requests d' = room_requests d1" by blast
  show "appends d (cs_room_id req) (cs_request_id req) es d'" using appends_trans [OF ap fs(2)] fs(1) by simp
  show "es \<noteq> []" "ev_event_type (hd es) = ''message.created''" "ev_actor_id (hd es) = act_id actor"
    "\<forall>e \<in> set (tl es). agent_step (ev_event_type e)"
    "decisions d' = decisions d" "agent_tasks d' = agent_tasks d" "room_requests d' = room_requests d"
    using fs m f by simp_all
qed

lemma start_fresh_Inr:
  assumes "start_agent_task_in_transaction E task event now requester name start False d = Inr (res, d')"
    "prior_request (st_room_id start) (st_request_id start) d = None"
  shows "appends d (st_room_id start) (st_request_id start) (sr_events res) d'" and "sr_events res \<noteq> []"
    and "\<forall>e \<in> set (sr_events res). ev_event_type e = ''agent.task.requested'' \<and> ev_actor_id e = requester"
    and "decisions d' = decisions d" and "room_requests d' = room_requests d"
proof -
  from assms(1) have "appends d (st_room_id start) (st_request_id start) (sr_events res) d' \<and> sr_events res \<noteq> [] \<and>
      (\<forall>e \<in> set (sr_events res). ev_event_type e = ''agent.task.requested'' \<and> ev_actor_id e = requester) \<and>
      decisions d' = decisions d \<and> room_requests d' = room_requests d"
  proof (cases rule: start_Inr)
    case retry
    with assms(2) show ?thesis by simp
  next
    case (fresh requested d1 t)
    from fresh(2) have "ev_event_type requested = ''agent.task.requested'' \<and> ev_actor_id requested = requester"
      by (auto simp: append_Inr)
    moreover have "appends d (st_room_id start) (st_request_id start) [requested] d'"
      using appends_after [OF appends_one [OF fresh(2)], of d'] append_frame(1) [OF fresh(2)] fresh(6) by simp
    ultimately show ?thesis using fresh by simp
  qed
  then show "appends d (st_room_id start) (st_request_id start) (sr_events res) d'" "sr_events res \<noteq> []"
    "\<forall>e \<in> set (sr_events res). ev_event_type e = ''agent.task.requested'' \<and> ev_actor_id e = requester"
    "decisions d' = decisions d" "room_requests d' = room_requests d" by simp_all
qed


lemma perform_Inr:
  assumes "perform_request E fresh now actor ps request d = Inr (es, d')"
    "request_room_id request = Some r" "request_request_id request = Some q" "prior_request r q d = None"
  shows "appends d r q es d'" and "es \<noteq> []" and "room_requests d' = room_requests d"
proof -
  have "appends d r q es d' \<and> es \<noteq> [] \<and> room_requests d' = room_requests d"
  proof (cases request)
    case (ChatSend c)
    then show ?thesis using assms send_chat_Inr [of E fresh actor ps c d es d'] by simp
  next
    case (DecisionPropose p)
    have p: "propose_decision E (fresh 0) (fresh 1) actor p d = Inr (es, d')" using assms DecisionPropose by simp
    then have "es \<noteq> []" by (auto simp: propose_decision_def result_simps)
    then show ?thesis using assms DecisionPropose propose_Inr [OF p] by simp
  next
    case (DecisionTransition t)
    have t: "transition_decision_in_transaction E (fresh 0) (fresh 1) (fresh 2) actor t d = Inr (es, d')"
      using assms DecisionTransition by simp
    then have "es \<noteq> []"
      by (cases "dt_action t")
        (auto simp: transition_decision_in_transaction_def settle_decision_def edit_decision_def result_simps)
    then show ?thesis using assms DecisionTransition transition_appends [OF t] by simp
  next
    case (DecisionDelete c)
    then have "delete_decision_in_transaction E (fresh 0) actor c d = Inr (es, d')" using assms by simp
    then show ?thesis by (rule delete_Inr) (use assms DecisionDelete in simp)
  next
    case (AgentTaskStart c)
    with assms obtain res where res:
      "start_agent_task_in_transaction E (fresh 0) (fresh 1) now (act_id actor) (act_display_name actor) c False d = Inr (res, d')"
      "es = sr_events res" by (auto simp: result_simps)
    show ?thesis using start_fresh_Inr [OF res(1)] res(2) assms AgentTaskStart by simp
  qed (use assms in simp_all)
  then show "appends d r q es d'" "es \<noteq> []" "room_requests d' = room_requests d" by simp_all
qed

lemma agent_step_other:
  "agent_step t \<Longrightarrow> t \<notin> {''decision.confirmed'', ''decision.dismissed'', ''decision.deleted'', ''decision.edited''}"
  by (auto simp: agent_step_def)

lemma perform_view:
  assumes "uuid_ok E" "jsonb_ok E" "perform_request E fresh now actor ps request d = Inr (es, d')"
    "request_room_id request = Some r" "request_request_id request = Some q" "prior_request r q d = None"
  shows "view_kept E d es d'"
proof (cases request)
  case (ChatSend c)
  note s = send_chat_Inr [of E fresh actor ps c d es d']
  have c: "send_chat E fresh actor ps c d = Inr (es, d')" using assms ChatSend by simp
  have "ev_event_type e = ''message.created'' \<or> agent_step (ev_event_type e)" if "e \<in> set es" for e
    using s(2,3,5) [OF c] that by (cases es) auto
  then show ?thesis using agent_step_other s(6) [OF c] by (intro view_kept_frame) fastforce+
next
  case (DecisionPropose p)
  then show ?thesis using assms propose_view by simp
next
  case (DecisionTransition t)
  then show ?thesis using assms transition_view by simp
next
  case (DecisionDelete c)
  then show ?thesis using assms delete_view by simp
next
  case (AgentTaskStart c)
  with assms obtain res where res:
    "start_agent_task_in_transaction E (fresh 0) (fresh 1) now (act_id actor) (act_display_name actor) c False d = Inr (res, d')"
    "es = sr_events res" by (auto simp: result_simps)
  show ?thesis
    using start_fresh_Inr [OF res(1)] assms AgentTaskStart res(2) by (intro view_kept_frame) auto
qed (use assms in simp_all)

lemma perform_tasks:
  assumes "log_ok d" "tasks_ok d" "tasks_distinct d" "perform_request E fresh now actor ps request d = Inr (es, d')"
    "request_room_id request = Some r" "request_request_id request = Some q" "prior_request r q d = None"
  shows "tasks_ok d' \<and> tasks_distinct d'"
proof -
  note ap = perform_Inr [OF assms(4-7)]
  have ext: "tasks_ok d' \<and> tasks_distinct d'" if "agent_tasks d' = agent_tasks d"
    using that assms(2,3) ap(1) tasks_ok_extend [OF assms(2)] by (auto simp: appends_def tasks_distinct_def)
  show ?thesis
  proof (cases request)
    case (ChatSend c)
    then show ?thesis using assms send_chat_Inr(7) [of E fresh actor ps c d es d'] ext by simp
  next
    case (DecisionPropose p)
    then show ?thesis using assms propose_Inr(5) ext by simp
  next
    case (DecisionTransition t)
    then show ?thesis using assms transition_appends ext by simp
  next
    case (DecisionDelete c)
    then have "delete_decision_in_transaction E (fresh 0) actor c d = Inr (es, d')" using assms by simp
    then show ?thesis by (rule delete_Inr) (rule ext)
  next
    case (AgentTaskStart c)
    with assms obtain res where res:
      "start_agent_task_in_transaction E (fresh 0) (fresh 1) now (act_id actor) (act_display_name actor) c False d = Inr (res, d')"
      by (auto simp: result_simps)
    show ?thesis using start_ok(2,3) [OF assms(1-3) res] by simp
  qed (use assms in simp_all)
qed

lemma process_Inr:
  assumes "process E enabled presence fresh now actor request d = Inr (p, d')"
  obtains (duplicate) r q where "request_room_id request = Some r" "request_request_id request = Some q"
      "prior_request r q d = Some (fingerprint E request, pr_events p)" "pr_duplicate p" "d' = d"
  | (performed) r q d1 where "request_room_id request = Some r" "request_request_id request = Some q"
      "prior_request r q d = None"
      "perform_request E fresh now actor (participant_snapshot E enabled presence r d) request d = Inr (pr_events p, d1)"
      "record_request E r q (fingerprint E request) (pr_events p) d1 = Inr d'" "\<not> pr_duplicate p"
proof -
  from assms obtain r q where ids: "request_room_id request = Some r" "request_request_id request = Some q"
    by (auto simp: process_def result_simps split: if_splits)
  show ?thesis
  proof (cases "prior_request r q d")
    case None
    with assms ids have "rbind (perform_request E fresh now actor (participant_snapshot E enabled presence r d) request d)
        (\<lambda>(events, d). rbind (internal (record_request E r q (fingerprint E request) events d)) (\<lambda>d.
          Inr (\<lparr>pr_events = events, pr_duplicate = False\<rparr>, d))) = Inr (p, d')"
      by (simp add: process_def split: if_splits)
    then obtain es d1 where
      "perform_request E fresh now actor (participant_snapshot E enabled presence r d) request d = Inr (es, d1)"
      "record_request E r q (fingerprint E request) es d1 = Inr d'" "p = \<lparr>pr_events = es, pr_duplicate = False\<rparr>"
      by (auto simp: result_simps)
    then show ?thesis using performed [OF ids None, of d1] by simp
  next
    case (Some prior)
    obtain fp es where "prior = (fp, es)" by fastforce
    with assms ids Some have "fp = fingerprint E request" "p = \<lparr>pr_events = es, pr_duplicate = True\<rparr>" "d' = d"
      by (simp_all add: process_def split: if_splits)
    then show ?thesis using duplicate [OF ids] Some \<open>prior = (fp, es)\<close> by simp
  qed
qed

lemma process_allowed:
  "process E enabled presence fresh now actor request d = Inr (p, d') \<Longrightarrow>
     \<not> not_processed request \<and> (humans_only request \<longrightarrow> act_role actor = Human)"
  by (auto simp: process_def split: if_splits)

text \<open>The events of a request, the ledger and the invariants of the other tables.\<close>

lemma process_frame:
  assumes "process E enabled presence fresh now actor request d = Inr (p, d')"
  shows "\<exists>es. room_events d' = room_events d @ es" and "\<exists>rs. room_requests d' = room_requests d @ rs"
    and "log_ok d \<Longrightarrow> log_ok d'"
proof -
  have "(\<exists>es. room_events d' = room_events d @ es) \<and> (\<exists>rs. room_requests d' = room_requests d @ rs) \<and> (log_ok d \<longrightarrow> log_ok d')"
    using assms
  proof (cases rule: process_Inr)
    case (performed r q d1)
    note ap = perform_Inr [OF performed(4,1,2,3)]
    from performed(5) have "room_events d' = room_events d1" "\<exists>rs. room_requests d' = room_requests d1 @ rs"
      by (auto simp: record_request_def result_simps)
    then show ?thesis using ap log_ok_frame [of d' d1] by (simp add: appends_def)
  qed simp
  then show "\<exists>es. room_events d' = room_events d @ es" "\<exists>rs. room_requests d' = room_requests d @ rs"
    "log_ok d \<Longrightarrow> log_ok d'" by auto
qed


subsection \<open>Retries\<close>

definition later :: "db \<Rightarrow> db \<Rightarrow> bool" where
  \<comment> \<open>what any transaction leaves: a longer log and a longer ledger\<close>
  "later d d' \<longleftrightarrow> (\<exists>es. room_events d' = room_events d @ es) \<and> (\<exists>rs. room_requests d' = room_requests d @ rs) \<and>
     (log_ok d \<longrightarrow> log_ok d')"

lemma later_refl: "later d d"
  by (simp add: later_def)

lemma later_trans: "later a b \<Longrightarrow> later b c \<Longrightarrow> later a c"
  by (auto simp: later_def)

lemma later_same: "room_events d' = room_events d \<Longrightarrow> room_requests d' = room_requests d \<Longrightarrow> later d d'"
  using log_ok_frame [of d' d] by (simp add: later_def)

lemma process_later: "process E enabled presence fresh now actor request d = Inr (p, d') \<Longrightarrow> later d d'"
  using process_frame by (simp add: later_def)

lemma later_entry: "later d d' \<Longrightarrow> request_entry k d = Some w \<Longrightarrow> request_entry k d' = Some w"
  by (auto simp: later_def request_entry_def find_append)

lemma process_entry:
  assumes "jsonb_ok E" "log_ok d" "process E enabled presence fresh now actor request d = Inr (p, d')"
    "\<not> pr_duplicate p" "later d' d''"
  obtains r q where "request_room_id request = Some r" "request_request_id request = Some q"
    "prior_request r q d'' = Some (fingerprint E request, pr_events p)"
  using assms(3)
proof (cases rule: process_Inr)
  case (performed r q d1)
  note ap = perform_Inr [OF performed(4,1,2,3)]
  let ?v = "(fingerprint E request, map ev_event_id (pr_events p))"
  have "enter_request E (r, q) ?v d1 = Inr d'" using performed(5) by (simp add: record_request_enter)
  from requests.enter_lookup [OF this] have "request_entry (r, q) d' = Some ?v"
    using jsonb_column.store_exact [OF assms(1) exact_fingerprint] by auto
  then have entry: "request_entry (r, q) d'' = Some ?v" by (rule later_entry [OF assms(5)])
  from performed(5) have "room_events d' = room_events d1" by (rule record_request_Inr(1))
  then obtain b where b: "room_events d'' = room_events d @ pr_events p @ b"
    using ap(1) assms(5) by (auto simp: appends_def later_def)
  have "log_ok d''" using process_frame(3) [OF assms(3,2)] assms(5) by (simp add: later_def)
  moreover have "\<forall>e \<in> set (pr_events p). ev_room_id e = r" using ap(1) by (simp add: appends_def)
  ultimately have "events_by_id (map ev_event_id (pr_events p)) d'' = pr_events p"
    using b by (intro events_by_id_slice) auto
  then have "prior_request r q d'' = Some (fingerprint E request, pr_events p)"
    using entry by (simp add: prior_request_entry)
  with that performed(1,2) show ?thesis by blast
qed (use assms(4) in simp)

lemma same_ids:
  "without_rpc_id r = without_rpc_id r' \<Longrightarrow> request_room_id r = request_room_id r' \<and>
     request_request_id r = request_request_id r' \<and> humans_only r = humans_only r' \<and> not_processed r = not_processed r'"
  by (cases r; cases r') (auto dest: arg_cong [of _ _ cs_room_id] arg_cong [of _ _ cs_request_id]
      arg_cong [of _ _ dp_room_id] arg_cong [of _ _ dp_request_id] arg_cong [of _ _ dt_room_id] arg_cong [of _ _ dt_request_id]
      arg_cong [of _ _ dd_room_id] arg_cong [of _ _ dd_request_id] arg_cong [of _ _ st_room_id] arg_cong [of _ _ st_request_id]
      arg_cong [of _ _ jn_room_id] arg_cong [of _ _ jn_request_id])

lemma process_prior:
  assumes "request_room_id request = Some r" "request_request_id request = Some q"
    "prior_request r q d = Some (fp, es)" "\<not> not_processed request" "humans_only request \<Longrightarrow> act_role actor = Human"
  shows "process E enabled presence fresh now actor request d =
    (if fp = fingerprint E request then Inr (\<lparr>pr_events = es, pr_duplicate = True\<rparr>, d) else Inl Conflicting_duplicate)"
  using assms by (auto simp: process_def)

subsection \<open>Rosters\<close>

lemma map_of_insert_participant: "map_of (insert_participant p ps) = (map_of ps)(rp_id p \<mapsto> p)"
  by (simp add: insert_participant_def update_conv')

lemma distinct_insert_participant: "distinct (map fst ps) \<Longrightarrow> distinct (map fst (insert_participant p ps))"
  by (simp add: insert_participant_def distinct_update)

lemma keys_insert_participant:
  "\<forall>x \<in> set ps. rp_id (snd x) = fst x \<Longrightarrow> \<forall>x \<in> set (insert_participant p ps). rp_id (snd x) = fst x"
  by (induction ps) (auto simp: insert_participant_def)

lemma map_of_fold_events:
  "map_of (fold (\<lambda>e. insert_participant (event_participant E e)) es ps) u =
     (case find (\<lambda>e. ev_actor_id e = u) (rev es) of Some e \<Rightarrow> Some (event_participant E e) | None \<Rightarrow> map_of ps u)"
proof (induction es arbitrary: ps)
  case (Cons e es)
  show ?case
    unfolding fold_simps Cons.IH
    by (auto simp: map_of_insert_participant event_participant_def find_append split: option.splits)
qed simp

lemma map_of_fold_present:
  "distinct (map fst qs) \<Longrightarrow> map_of (fold (\<lambda>q. insert_participant (present_participant q)) qs ps) u =
     (case map_of qs u of Some p \<Rightarrow> Some (present_participant (u, p)) | None \<Rightarrow> map_of ps u)"
proof (induction qs arbitrary: ps)
  case (Cons q qs)
  obtain k p where q: "q = (k, p)" by fastforce
  from Cons.prems q have "map_of qs k = None" by (simp add: map_of_eq_None_iff)
  with Cons.IH [of "insert_participant (present_participant q) ps"] Cons.prems q show ?case
    by (auto simp: map_of_insert_participant present_participant_def split: option.splits)
qed simp

definition member :: "ext \<Rightarrow> bool \<Rightarrow> (uuid \<times> participant_presence) list \<Rightarrow> room_event list \<Rightarrow> uuid \<Rightarrow> room_participant option" where
  \<comment> \<open>who an identifier stands for: the enabled Codex agent, else the connected participant, else the
    author of the latest event, else the built-in agent\<close>
  "member E enabled room_presence events u =
     (if enabled \<and> u = CODEX_AGENT_ID then Some codex_participant
      else case map_of room_presence u of
        Some p \<Rightarrow> Some (present_participant (u, p))
      | None \<Rightarrow>
          (case find (\<lambda>e. ev_actor_id e = u) (rev events) of
             Some e \<Rightarrow> Some (event_participant E e)
           | None \<Rightarrow> if u = ACTION_ITEMS_AGENT_ID then Some action_items_participant else None))"

lemma map_of_roster:
  "distinct (map fst qs) \<Longrightarrow> map_of (roster E enabled qs es) u = member E enabled qs es u"
  by (auto simp: roster_def Let_def member_def map_of_insert_participant map_of_fold_present map_of_fold_events
      codex_participant_def action_items_participant_def split: option.splits)

lemma fold_invariant_list: "I x \<Longrightarrow> (\<And>a y. I y \<Longrightarrow> I (f a y)) \<Longrightarrow> I (fold f xs x)"
  by (induction xs arbitrary: x) auto

lemma roster_keys: "distinct (map fst (roster E enabled qs es)) \<and> (\<forall>x \<in> set (roster E enabled qs es). rp_id (snd x) = fst x)"
proof -
  let ?I = "\<lambda>ps. distinct (map fst ps) \<and> (\<forall>x \<in> set ps. rp_id (snd x) = fst x)"
  have step: "?I ps \<Longrightarrow> ?I (insert_participant p ps)" for p ps
    using distinct_insert_participant keys_insert_participant by blast
  have "?I (fold (\<lambda>p. insert_participant (present_participant p)) qs
      (fold (\<lambda>e. insert_participant (event_participant E e)) es (insert_participant action_items_participant [])))"
    by (intro fold_invariant_list [of ?I] step) simp
  with step show ?thesis by (simp add: roster_def Let_def)
qed

lemma distinct_map_sort: "distinct (map f xs) \<Longrightarrow> distinct (map f (sort_key k xs))"
  by (metis mset_eq_imp_distinct_iff mset_map mset_sort)

lemma snapshot_ids: "distinct (map rp_id (participant_snapshot E enabled presence r d))"
proof -
  let ?ps = "roster E enabled (presence r) (replay r 0 d)"
  have "map rp_id (map snd ?ps) = map fst ?ps" using roster_keys by (simp add: comp_def)
  then have "distinct (map rp_id (map snd ?ps))" using roster_keys by metis
  then show ?thesis unfolding participant_snapshot_def by (rule distinct_map_sort)
qed


subsection \<open>Properties\<close>


definition sample_actor :: actor where
  "sample_actor = \<lparr>act_id = 1, act_role = Human, act_display_name = ''Maya'', act_expires_at = 0\<rparr>"

definition sample_proposal :: decision_propose where
  "sample_proposal = \<lparr>dp_id = ''1'', dp_contract_version = ''n2n.room.v1'', dp_request_id = 7, dp_room_id = 8,
     dp_occurred_at = 0, dp_title = ''T'', dp_summary = ''S'', dp_source_event_ids = []\<rparr>"

lemma sample_proposal_ok:
  "\<exists>p d'. process plain_ext False (\<lambda>_. []) (\<lambda>n. word_of_nat n) 0 sample_actor (DecisionPropose sample_proposal) empty_db
     = Inr (p, d') \<and> \<not> pr_duplicate p"
proof -
  have valid: "is_valid_room_event plain_ext i (actor_event a r q t ''decision.proposed'' v)" for i a r q t v
    by (simp add: is_valid_room_event_def message_mentions_are_unique_def actor_event_def wire_simps plain_ext_def)
  have j: "jsonb plain_ext v = Some v" for v by (simp add: plain_ext_def)
  show ?thesis
    by (simp add: process_def sample_actor_def sample_proposal_def prior_request_def empty_db_def propose_decision_def
        insert_decision_def text_ok_def append_event_in_transaction_def valid j record_request_def Let_def i64_max_def)
      (simp add: actor_event_def text_ok_def)
qed


text \<open>
  C26: agents cannot govern.  Whatever a request of an agent is, if it is answered with success then no
  agent task was started or changed, no recorded decision was changed or removed, and the decisions it
  added, if any, are drafts.
\<close>

theorem agents_cannot_govern:
  assumes "act_role actor \<noteq> Human" "process E enabled presence fresh now actor request d = Inr (p, d')"
  shows "agent_tasks d' = agent_tasks d \<and>
    (\<exists>ds. decisions d' = decisions d @ ds \<and> list_all (\<lambda>x. dc_status x = Draft) ds)"
  using assms(2)
proof (cases rule: process_Inr)
  case (performed r q d1)
  have same: "agent_tasks d' = agent_tasks d1" "decisions d' = decisions d1"
    using record_request_Inr [OF performed(5)] by simp_all
  from process_allowed [OF assms(2)] assms(1) have allowed: "\<not> humans_only request" "\<not> not_processed request" by auto
  show ?thesis
  proof (cases request)
    case (ChatSend c)
    then show ?thesis
      using performed(4) same send_chat_Inr(6,7) [of E fresh actor _ c d "pr_events p" d1] by simp
  next
    case (DecisionPropose c)
    then have "propose_decision E (fresh 0) (fresh 1) actor c d = Inr (pr_events p, d1)" using performed(4) by simp
    then show ?thesis using propose_Inr(2,5) same by fastforce
  qed (use allowed in simp_all)
qed simp

theorem agents_cannot_govern_witness:
  "\<exists>p d'. process plain_ext False (\<lambda>_. []) (\<lambda>n. word_of_nat n) 0 (sample_actor\<lparr>act_role := Agent\<rparr>)
     (DecisionPropose sample_proposal) empty_db = Inr (p, d') \<and> agent_tasks d' = []"
proof -
  let ?a = "sample_actor\<lparr>act_role := Agent\<rparr>"
  have valid: "is_valid_room_event plain_ext i (actor_event a r q t ''decision.proposed'' v)" for i a r q t v
    by (simp add: is_valid_room_event_def message_mentions_are_unique_def actor_event_def wire_simps plain_ext_def)
  have j: "jsonb plain_ext v = Some v" for v by (simp add: plain_ext_def)
  have "\<exists>p d'. process plain_ext False (\<lambda>_. []) (\<lambda>n. word_of_nat n) 0 ?a (DecisionPropose sample_proposal) empty_db
     = Inr (p, d')"
    by (simp add: process_def sample_actor_def sample_proposal_def prior_request_def empty_db_def propose_decision_def
        insert_decision_def text_ok_def append_event_in_transaction_def valid j record_request_def Let_def i64_max_def)
      (simp add: actor_event_def text_ok_def)
  then obtain p d' where
    a: "process plain_ext False (\<lambda>_. []) (\<lambda>n. word_of_nat n) 0 ?a (DecisionPropose sample_proposal) empty_db = Inr (p, d')"
    by blast
  have "act_role ?a \<noteq> Human" by simp
  from agents_cannot_govern [OF this a] a show ?thesis by (auto simp: empty_db_def)
qed


text \<open>
  C27: a recorded decision is immutable.  Whatever request commits, every decision that was in the table
  is still there with its room, title, summary, sources and origin, and with its status unless it was a
  draft; only a human's \<open>decision.delete\<close> of exactly this decision removes it.
\<close>

theorem decisions_immutable:
  assumes "decisions_ok d" "process E enabled presence fresh now actor request d = Inr (p, d')" "x \<in> set (decisions d)"
  shows "(\<exists>y \<in> set (decisions d'). same_decision x y \<and> (dc_status y = dc_status x \<or> dc_status x = Draft)) \<or>
    act_role actor = Human \<and> (\<exists>c. request = DecisionDelete c \<and> dd_decision_id c = dc_decision_id x \<and>
      dd_room_id c = dc_room_id x)"
  using assms(2)
proof (cases rule: process_Inr)
  case duplicate
  then show ?thesis using rows_keptI [of d d'] assms(3) by (simp add: rows_kept_def)
next
  case (performed r q d1)
  have same: "decisions d' = decisions d1" using record_request_Inr [OF performed(5)] by simp
  have kept: ?thesis if "rows_kept d d1" using that assms(3) same by (simp add: rows_kept_def)
  show ?thesis
  proof (cases request)
    case (ChatSend c)
    then show ?thesis
      using performed(4) send_chat_Inr(6) [of E fresh actor _ c d "pr_events p" d1] by (intro kept rows_keptI) simp
  next
    case (DecisionPropose c)
    then have "propose_decision E (fresh 0) (fresh 1) actor c d = Inr (pr_events p, d1)" using performed(4) by simp
    then show ?thesis using propose_Inr(2) by (intro kept rows_keptI) fastforce
  next
    case (DecisionTransition c)
    then show ?thesis using performed(4) transition_rows [OF assms(1)] by (intro kept) simp
  next
    case (DecisionDelete c)
    then have "delete_decision_in_transaction E (fresh 0) actor c d = Inr (pr_events p, d1)" using performed(4) by simp
    then have del: "decisions d1 = row_delete (\<lambda>x. dc_decision_id x = dd_decision_id c \<and> dc_room_id x = dd_room_id c) (decisions d)"
      by (rule delete_Inr)
    show ?thesis
    proof (cases "dc_decision_id x = dd_decision_id c \<and> dc_room_id x = dd_room_id c")
      case True
      then show ?thesis using DecisionDelete process_allowed [OF assms(2)] by simp
    next
      case False
      with assms(3) have "x \<in> set (decisions d')" by (simp add: same del set_row_delete)
      then show ?thesis by (intro disjI1 bexI [of _ x]) (simp_all add: same_decision_def)
    qed
  next
    case (AgentTaskStart c)
    with performed obtain res where
      "start_agent_task_in_transaction E (fresh 0) (fresh 1) now (act_id actor) (act_display_name actor) c False d = Inr (res, d1)"
      by (auto simp: result_simps)
    then show ?thesis
      using start_fresh_Inr(4) performed(1-3) AgentTaskStart by (intro kept rows_keptI) simp
  qed (use process_allowed [OF assms(2)] in simp_all)
qed

definition sample_decision :: decision_row where
  "sample_decision = \<lparr>dc_decision_id = 5, dc_room_id = 8, dc_status = Active, dc_title = ''A'', dc_summary = ''B'',
     dc_derived_from = None, dc_source_event_ids = [], dc_created_at = 0, dc_updated_at = 0\<rparr>"

theorem decisions_immutable_witness:
  "\<exists>p d'. process plain_ext False (\<lambda>_. []) (\<lambda>n. word_of_nat n) 0 sample_actor (DecisionPropose sample_proposal)
     (empty_db\<lparr>decisions := [sample_decision]\<rparr>) = Inr (p, d') \<and>
     (\<exists>y \<in> set (decisions d'). dc_title y = ''A'' \<and> dc_status y = Active)"
proof -
  let ?d = "empty_db\<lparr>decisions := [sample_decision]\<rparr>"
  have valid: "is_valid_room_event plain_ext i (actor_event a r q t ''decision.proposed'' v)" for i a r q t v
    by (simp add: is_valid_room_event_def message_mentions_are_unique_def actor_event_def wire_simps plain_ext_def)
  have j: "jsonb plain_ext v = Some v" for v by (simp add: plain_ext_def)
  have "\<exists>p d'. process plain_ext False (\<lambda>_. []) (\<lambda>n. word_of_nat n) 0 sample_actor (DecisionPropose sample_proposal) ?d
     = Inr (p, d')"
    by (simp add: process_def sample_actor_def sample_proposal_def prior_request_def empty_db_def propose_decision_def
        insert_decision_def text_ok_def append_event_in_transaction_def valid j record_request_def Let_def i64_max_def
        sample_decision_def)
      (simp add: actor_event_def text_ok_def)
  then obtain p d' where a: "process plain_ext False (\<lambda>_. []) (\<lambda>n. word_of_nat n) 0 sample_actor
      (DecisionPropose sample_proposal) ?d = Inr (p, d')" by blast
  have "decisions_ok ?d" "sample_decision \<in> set (decisions ?d)" by (simp_all add: decisions_ok_def)
  from decisions_immutable [OF this(1) a this(2)] obtain y where
    "y \<in> set (decisions d')" "same_decision sample_decision y" "dc_status y = Active"
    by (auto simp: sample_decision_def)
  moreover from this(2) have "dc_title y = ''A''" unfolding same_decision_def sample_decision_def
    by (metis decision_row.select_convs(4) decision_row.update_convs(3) decision_row.update_convs(9))
  ultimately show ?thesis using a by blast
qed

text \<open>
  The roster of a room.  It is sorted by role, name and identifier without repeating an identifier,
  and has for each identifier what it should: the enabled Codex agent, else the connected participant
  (online while a connection is open), else the author of the latest event under its latest name, else
  the built-in agent.
\<close>

theorem participant_snapshot_spec:
  assumes "log_ok d" "distinct (map fst (presence r))"
  shows "sorted (map (\<lambda>p. (rp_role p, rp_display_name p, rp_id p)) (participant_snapshot E enabled presence r d)) \<and>
    distinct (map rp_id (participant_snapshot E enabled presence r d)) \<and>
    (p \<in> set (participant_snapshot E enabled presence r d) \<longleftrightarrow>
       member E enabled (presence r) (room_log d r) (rp_id p) = Some p)"
proof -
  let ?ps = "roster E enabled (presence r) (replay r 0 d)"
  have "replay r 0 d = room_log d r" using events_after_log [OF assms(1), of r 0] by (simp add: replay_def)
  then have m: "map_of ?ps u = member E enabled (presence r) (room_log d r) u" for u
    using map_of_roster [OF assms(2), of E enabled "replay r 0 d" u] by simp
  have "p \<in> set (participant_snapshot E enabled presence r d) \<longleftrightarrow> p \<in> snd ` set ?ps"
    by (simp add: participant_snapshot_def)
  also have "\<dots> \<longleftrightarrow> (rp_id p, p) \<in> set ?ps" using roster_keys by force
  also have "\<dots> \<longleftrightarrow> map_of ?ps (rp_id p) = Some p"
    using roster_keys by (metis map_of_eq_Some_iff)
  finally show ?thesis using m snapshot_ids by (simp add: participant_snapshot_def)
qed

theorem participant_snapshot_spec_witness:
  "(let p = \<lparr>rp_id = 1, rp_role = ''human'', rp_display_name = ''Maya'', rp_online = True\<rparr>
    in p \<in> set (participant_snapshot sample_ext False (register_participant 8 sample_actor (\<lambda>_. [])) 8 empty_db))"
proof -
  have ok: "log_ok empty_db" by (simp add: log_ok_def room_log_def empty_db_def)
  have d: "distinct (map fst (register_participant 8 sample_actor (\<lambda>_. []) 8))"
    by (simp add: register_participant_def Let_def)
  show ?thesis
    using ok d participant_snapshot_spec [of empty_db "register_participant 8 sample_actor (\<lambda>_. [])" 8 sample_ext False
        "\<lparr>rp_id = 1, rp_role = ''human'', rp_display_name = ''Maya'', rp_online = True\<rparr>"]
    by (simp add: member_def register_participant_def present_participant_def sample_actor_def)
qed


text \<open>
  The contract's \<open>actionItem\<close> has string members \<open>owner\<close> and \<open>due\<close> that may be absent; null is not a
  string.
\<close>

definition typed_action_items :: "json \<Rightarrow> bool" where
  "typed_action_items event =
     (case jget_array (jidx (jidx event ''payload'') ''result'') ''actionItems'' of
        None \<Rightarrow> True
      | Some items \<Rightarrow> list_all (\<lambda>i. jget i ''owner'' \<noteq> Some JNull \<and> jget i ''due'' \<noteq> Some JNull) items)"

lemma untyped_items_rejected:
  assumes "\<And>v. event_schema E v \<Longrightarrow> typed_action_items v" "extract_action_items t = Inr items"
    "i \<in> set items" "item_owner i = None \<or> item_due i = None"
    "action_items_outcome (action_items_task_payload E a b c) t = (ty, payload)"
  shows "\<not> is_valid_room_event E ei (action_items_event req ty payload)"
proof
  assume "is_valid_room_event E ei (action_items_event req ty payload)"
  then have "typed_action_items (jobj [
        (''contractVersion'', JStr ''n2n.room.v1''),
        (''requestId'', juuid E (cs_request_id req)), (''roomId'', juuid E (cs_room_id req)),
        (''occurredAt'', jtime E (cs_occurred_at req)), (''sequence'', JInt 1), (''eventId'', juuid E ei),
        (''eventType'', JStr ty),
        (''actor'', jobj [(''id'', juuid E ACTION_ITEMS_AGENT_ID), (''role'', JStr ''agent'')]),
        (''payload'', payload)])"
    using assms(1) by (simp add: is_valid_room_event_def action_items_event_def Let_def)
  moreover have "payload = jset (action_items_task_payload E a b c) ''result''
      (jobj [(''actionItems'', JArr (map action_item_json items))])"
    using assms(2,5) by (simp add: action_items_outcome_def)
  ultimately have "list_all (\<lambda>i. jget i ''owner'' \<noteq> Some JNull \<and> jget i ''due'' \<noteq> Some JNull) (map action_item_json items)"
    by (simp add: typed_action_items_def wire_simps action_items_task_payload_def)
  with assms(3) have "jget (action_item_json i) ''owner'' \<noteq> Some JNull \<and> jget (action_item_json i) ''due'' \<noteq> Some JNull"
    by (simp add: list_all_iff)
  with assms(4) show False by (auto simp: action_item_json_def)
qed



definition sample_message :: chat_send where
  "sample_message = \<lparr>cs_id = ''1'', cs_contract_version = ''n2n.room.v1'', cs_request_id = 7, cs_room_id = 8,
     cs_occurred_at = 0, cs_text = ''- Buy milk'',
     cs_mentions = [Participant ACTION_ITEMS_AGENT_ID ''action-items''], cs_delivery = Room\<rparr>"

lemma sample_roster: "participant_snapshot E False (\<lambda>_. []) r empty_db = [action_items_participant]"
  by (simp add: participant_snapshot_def replay_def events_after_def by_sequence_def empty_db_def roster_def
      insert_participant_def Let_def)

lemma sample_token: "participant_mention_tokens (sample_ext\<lparr>event_schema := f\<rparr>) [action_items_participant] = [''action-items'']"
  by code_simp


end
