(* ===== verification/Agent_Service.thy ===== *)
theory Agent_Service
  imports Rooms
begin

text \<open>
  The internal HTTP surface for the external agent, \<open>src/agent_service.rs\<close>: claiming a task, reading
  its context packet and reporting an update, each behind the workload authentication.  The store calls
  of a handler are separate transactions, so a handler takes one database per call; other transactions
  may have run between them.  \<open>now\<close> is \<open>NOW()\<close>, \<open>utc_now\<close> is \<open>Utc::now()\<close>.  A handler returns its
  response and the events it publishes to the room.
\<close>

record normalized_agent_task_update =
  nu_event_type :: string
  nu_payload :: json
  nu_occurred_at :: timestamp

record task_update_request =
  tr_update_id :: uuid
  tr_context_revision :: int
  tr_update :: normalized_agent_task_update

record room_context_packet =
  rc_task_id :: uuid
  rc_room_id :: uuid
  rc_requester_id :: uuid
  rc_agent_id :: uuid
  rc_skill_id :: agent_skill_id
  rc_context_revision :: int
  rc_issued_at :: timestamp
  rc_expires_at :: timestamp
  rc_input :: string
  rc_events :: "json list"
  rc_active_decisions :: "active_decision list"
  rc_canonical_sha256 :: string

datatype response =
    Status nat
  | Context_response room_context_packet uuid
  | Events_response "json list"

subsection \<open>The context packet\<close>

fun join_texts :: "string list \<Rightarrow> string" where
  "join_texts [] = []"
| "join_texts [x] = x"
| "join_texts (x # xs) = x @ '','' @ join_texts xs"

definition struct_text :: "(string \<times> string) list \<Rightarrow> string" where
  \<comment> \<open>\<open>serde_json\<close> writes a struct with its fields in the order of their declaration\<close>
  "struct_text fs = ''{'' @ join_texts (map (\<lambda>(k, v). [CHR 0x22] @ k @ [CHR 0x22] @ '':'' @ v) fs) @ ''}''"

definition array_text :: "string list \<Rightarrow> string" where
  "array_text xs = ''['' @ join_texts xs @ '']''"

definition active_decision_text :: "ext \<Rightarrow> active_decision \<Rightarrow> string" where
  "active_decision_text E a = struct_text [
     (''decisionId'', json_text E (juuid E (ad_decision_id a))),
     (''title'', json_text E (JStr (ad_title a))),
     (''summary'', json_text E (JStr (ad_summary a))),
     (''sourceEventIds'', json_text E (juuids E (ad_source_event_ids a)))]"

definition canonical_room_context_packet ::
  "ext \<Rightarrow> agent_task_record \<Rightarrow> timestamp \<Rightarrow> timestamp \<Rightarrow> json list \<Rightarrow> active_decision list \<Rightarrow> string" where
  "canonical_room_context_packet E task issued_at expires_at events active = struct_text [
     (''taskId'', json_text E (juuid E (tk_task_id task))),
     (''roomId'', json_text E (juuid E (tk_room_id task))),
     (''requesterId'', json_text E (juuid E (tk_requester_id task))),
     (''agentId'', json_text E (juuid E (tk_agent_id task))),
     (''skillId'', json_text E (JStr (skill_str (tk_skill_id task)))),
     (''contextRevision'', json_text E (JInt (tk_context_revision task))),
     (''issuedAt'', json_text E (jtime E issued_at)),
     (''expiresAt'', json_text E (jtime E expires_at)),
     (''input'', json_text E (JStr (tk_input task))),
     (''events'', array_text (map (json_text E) events)),
     (''activeDecisions'', array_text (map (active_decision_text E) active))]"

definition context_packet :: "ext \<Rightarrow> agent_task_context \<Rightarrow> agent_task_lease \<Rightarrow> room_context_packet" where
  \<comment> \<open>the serialisation of these values cannot fail\<close>
  "context_packet E context lease =
     (let task = cx_task context;
          visible_events = filter (\<lambda>e. event_visible_to E e (tk_requester_id task)) (cx_events context);
          active = active_decisions E visible_events;
          events = map (event_to_wire_value E) visible_events;
          issued_at = ls_expires_at lease - AGENT_TASK_LEASE_DURATION
      in \<lparr>rc_task_id = tk_task_id task, rc_room_id = tk_room_id task, rc_requester_id = tk_requester_id task,
          rc_agent_id = tk_agent_id task, rc_skill_id = tk_skill_id task,
          rc_context_revision = tk_context_revision task, rc_issued_at = issued_at,
          rc_expires_at = ls_expires_at lease, rc_input = tk_input task, rc_events = events,
          rc_active_decisions = active,
          rc_canonical_sha256 = sha256_hex E
            (canonical_room_context_packet E task issued_at (ls_expires_at lease) events active)\<rparr>)"

definition context_response :: "ext \<Rightarrow> timestamp \<Rightarrow> agent_task_lease \<Rightarrow> db \<Rightarrow> response" where
  "context_response E now lease d =
     (case context_for_lease E now lease d of
        None \<Rightarrow> Status 404
      | Some context \<Rightarrow> Context_response (context_packet E context lease) (ls_owner_id lease))"

definition terminal_citations_are_visible ::
  "ext \<Rightarrow> room_context_packet \<Rightarrow> normalized_agent_task_update \<Rightarrow> bool" where
  "terminal_citations_are_visible E packet update =
     (if nu_event_type update \<noteq> ''agent.task.succeeded'' then True
      else case Option.bind (jget (nu_payload update) ''result'') (\<lambda>result. jget result ''citations'') of
        None \<Rightarrow> True
      | Some citations \<Rightarrow>
          (case as_array citations of
             None \<Rightarrow> False
           | Some citations \<Rightarrow>
               (let event_ids = List.map_filter (\<lambda>e. Option.bind (jget e ''eventId'') (parse_uuid_json E)) (rc_events packet);
                    decision_ids = map ad_decision_id (rc_active_decisions packet);
                    visible_ids = event_ids @ decision_ids
                in list_all (\<lambda>c. case parse_uuid_json E c of None \<Rightarrow> False | Some i \<Rightarrow> i \<in> set visible_ids) citations)))"

subsection \<open>Handlers\<close>

definition authenticate_agent_gateway ::
  "'k jwt_lib \<Rightarrow> 'k auth_validator \<Rightarrow> int \<Rightarrow> string option \<Rightarrow> response option" where
  \<comment> \<open>the middleware: \<open>None\<close> hands the request on\<close>
  "authenticate_agent_gateway J validator now authorization =
     (case authenticate_agent_gateway_bearer J validator now authorization of
        Inr _ \<Rightarrow> None
      | Inl Unauthenticated \<Rightarrow> Some (Status 401)
      | Inl Forbidden_workload \<Rightarrow> Some (Status 403))"

definition claim ::
  "ext \<Rightarrow> uuid \<Rightarrow> timestamp \<Rightarrow> timestamp \<Rightarrow> (db \<Rightarrow> db) \<Rightarrow> db \<Rightarrow> response \<times> db" where
  \<comment> \<open>\<open>token\<close> is the fresh lease token, \<open>between\<close> what other transactions do before the context is read\<close>
  "claim E token utc_now now between d =
     (case claim_oldest_queued_agent_task E REFERENCE_AGENT_ID token utc_now d of
        (None, d) \<Rightarrow> (Status 204, between d)
      | (Some lease, d) \<Rightarrow> (context_response E now lease (between d), between d))"

definition matching_live_lease ::
  "ext \<Rightarrow> timestamp \<Rightarrow> uuid \<Rightarrow> string option \<Rightarrow> db \<Rightarrow> agent_task_lease option" where
  "matching_live_lease E utc_now task_id header d =
     Option.bind (Option.bind header (uuid_parse E)) (\<lambda>lease_token.
       case agent_task task_id d of
         Inl _ \<Rightarrow> None
       | Inr task \<Rightarrow>
           Option.bind (tk_lease_expires_at task) (\<lambda>expires_at.
             if tk_agent_id task = REFERENCE_AGENT_ID \<and> tk_lease_owner task = Some lease_token \<and>
                expires_at > utc_now
             then Some \<lparr>ls_task_id = task_id, ls_owner_id = lease_token, ls_expires_at = expires_at\<rparr>
             else None))"

definition read_context ::
  "ext \<Rightarrow> timestamp \<Rightarrow> timestamp \<Rightarrow> uuid \<Rightarrow> string option \<Rightarrow> db \<Rightarrow> db \<Rightarrow> response" where
  \<comment> \<open>the handler \<open>context\<close>\<close>
  "read_context E utc_now now task_id header d1 d2 =
     (case matching_live_lease E utc_now task_id header d1 of
        None \<Rightarrow> Status 404
      | Some lease \<Rightarrow> context_response E now lease d2)"

definition update_status :: "store_error \<Rightarrow> nat" where
  "update_status e =
     (case e of ConflictingDuplicate \<Rightarrow> 409
      | InvalidAgentTask \<Rightarrow> 422 | InvalidEvent \<Rightarrow> 422
      | Database \<Rightarrow> 500)"

definition update ::
  "ext \<Rightarrow> uuid \<Rightarrow> uuid \<Rightarrow> timestamp \<Rightarrow> timestamp \<Rightarrow> timestamp \<Rightarrow> timestamp \<Rightarrow> uuid \<Rightarrow> string option \<Rightarrow>
   task_update_request \<Rightarrow> db \<Rightarrow> db \<Rightarrow> db \<Rightarrow> response \<times> room_event list \<times> db" where
  \<comment> \<open>\<open>now1\<close> and \<open>now2\<close> are \<open>NOW()\<close> of the two statements, \<open>utc1\<close> and \<open>utc2\<close> the clock of the process\<close>
  "update E request_id event_id utc1 now1 now2 utc2 task_id header request d1 d2 d3 =
     (case matching_live_lease E utc1 task_id header d1 of
        None \<Rightarrow> (Status 404, [], d3)
      | Some lease \<Rightarrow>
          (case context_for_lease E now1 lease d2 of
             None \<Rightarrow> (Status 404, [], d3)
           | Some context \<Rightarrow>
               if tr_context_revision request \<noteq> tk_context_revision (cx_task context) then (Status 409, [], d3)
               else
                 (let packet = context_packet E context lease in
                  if \<not> terminal_citations_are_visible E packet (tr_update request) then (Status 422, [], d3)
                  else
                    (case record_agent_task_update_with_outcome E request_id event_id now2 utc2 lease
                            \<lparr>up_update_id = tr_update_id request, up_event_type = nu_event_type (tr_update request),
                             up_payload = nu_payload (tr_update request),
                             up_occurred_at = nu_occurred_at (tr_update request)\<rparr> d3 of
                       Inl e \<Rightarrow> (Status (update_status e), [], d3)
                     | Inr (result, d) \<Rightarrow>
                         (Events_response (map (event_to_wire_value E) (ur_events result)),
                          (if ur_duplicate result then [] else ur_events result), d)))))"

subsection \<open>Leases and packets\<close>

lemma matching_live_lease_Some:
  assumes "matching_live_lease E utc_now task_id header d = Some lease"
  shows "\<exists>task token. task \<in> set (agent_tasks d) \<and> tk_task_id task = task_id \<and>
    Option.bind header (uuid_parse E) = Some token \<and> tk_lease_owner task = Some token \<and>
    tk_agent_id task = REFERENCE_AGENT_ID \<and> tk_lease_expires_at task = Some (ls_expires_at lease) \<and>
    ls_task_id lease = task_id \<and> ls_owner_id lease = token \<and> utc_now < ls_expires_at lease"
  using assms
  by (auto simp: matching_live_lease_def agent_task_def ok_or_def bind_eq_Some_conv
      split: if_splits sum.splits option.splits dest!: find_Some_in)

lemma packet_fields:
  "rc_requester_id (context_packet E c lease) = tk_requester_id (cx_task c)"
  "rc_events (context_packet E c lease) =
     map (event_to_wire_value E) (filter (\<lambda>e. event_visible_to E e (tk_requester_id (cx_task c))) (cx_events c))"
  "rc_active_decisions (context_packet E c lease) =
     active_decisions E (filter (\<lambda>e. event_visible_to E e (tk_requester_id (cx_task c))) (cx_events c))"
  by (simp_all add: context_packet_def Let_def)

lemma wire_event_id: "jget (event_to_wire_value E e) ''eventId'' = Some (juuid E (ev_event_id e))"
  by (simp add: event_to_wire_value_def Let_def wire_simps split: option.splits)

lemma wire_event_ids:
  "uuid_ok E \<Longrightarrow> List.map_filter (\<lambda>e. Option.bind (jget e ''eventId'') (parse_uuid_json E)) (map (event_to_wire_value E) es)
     = map ev_event_id es"
  by (induction es) (simp_all add: List.map_filter_simps wire_event_id parse_uuid_json_juuid)

text \<open>An identifier that the packet shows: a visible event, or a decision active after the visible events.\<close>

definition citable :: "ext \<Rightarrow> uuid \<Rightarrow> room_event list \<Rightarrow> uuid \<Rightarrow> bool" where
  "citable E requester events i \<longleftrightarrow>
     (let visible = filter (\<lambda>e. event_visible_to E e requester) events
      in i \<in> ev_event_id ` set visible \<or> i \<in> ad_decision_id ` set (active_decisions E visible))"

lemma citations_iff:
  assumes "uuid_ok E"
  shows "terminal_citations_are_visible E (context_packet E c lease) u \<longleftrightarrow>
    nu_event_type u \<noteq> ''agent.task.succeeded'' \<or>
    (case Option.bind (jget (nu_payload u) ''result'') (\<lambda>result. jget result ''citations'') of
       None \<Rightarrow> True
     | Some citations \<Rightarrow> \<exists>cs. citations = JArr cs \<and>
         list_all (\<lambda>c'. \<exists>i. parse_uuid_json E c' = Some i \<and> citable E (tk_requester_id (cx_task c)) (cx_events c) i) cs)"
proof -
  have arr: "as_array v = Some cs \<longleftrightarrow> v = JArr cs" for v cs by (cases v) auto
  have ids: "i \<in> set (List.map_filter (\<lambda>e. Option.bind (jget e ''eventId'') (parse_uuid_json E)) (rc_events (context_packet E c lease)) @
      map ad_decision_id (rc_active_decisions (context_packet E c lease))) \<longleftrightarrow>
      citable E (tk_requester_id (cx_task c)) (cx_events c) i" for i
    by (auto simp: citable_def packet_fields wire_event_ids [OF assms])
  have one: "(case parse_uuid_json E v of None \<Rightarrow> False | Some i \<Rightarrow> citable E (tk_requester_id (cx_task c)) (cx_events c) i) \<longleftrightarrow>
      (\<exists>i. parse_uuid_json E v = Some i \<and> citable E (tk_requester_id (cx_task c)) (cx_events c) i)" for v
    by (auto split: option.splits)
  show ?thesis
    unfolding terminal_citations_are_visible_def Let_def ids one
    by (auto simp: arr split: option.splits)
qed


lemma update_handler_cases:
  assumes "update E rid eid utc1 now1 now2 utc2 task_id header request d1 d2 d3 = (resp, evs, d')"
  obtains (refused) st where "resp = Status st" "evs = []" "d' = d3"
  | (recorded) lease c res where "matching_live_lease E utc1 task_id header d1 = Some lease"
      "context_for_lease E now1 lease d2 = Some c" "tr_context_revision request = tk_context_revision (cx_task c)"
      "terminal_citations_are_visible E (context_packet E c lease) (tr_update request)"
      "record_agent_task_update_with_outcome E rid eid now2 utc2 lease
         \<lparr>up_update_id = tr_update_id request, up_event_type = nu_event_type (tr_update request),
          up_payload = nu_payload (tr_update request), up_occurred_at = nu_occurred_at (tr_update request)\<rparr> d3 = Inr (res, d')"
      "resp = Events_response (map (event_to_wire_value E) (ur_events res))"
      "evs = (if ur_duplicate res then [] else ur_events res)"
  using assms unfolding update_def Let_def
  by (auto split: option.splits if_splits sum.splits prod.splits)

subsection \<open>Properties\<close>


text \<open>
  C29: a context packet discloses nothing the requester may not see.  Its events are exactly the wire
  forms of those events of the room up to the task's revision that are visible to the requester, in
  order, and its decisions are those active after these events.
\<close>

theorem context_packet_visible:
  assumes "log_ok d" "context_response E now lease d = Context_response packet token"
  shows "\<exists>task visible. task \<in> set (agent_tasks d) \<and> tk_task_id task = ls_task_id lease \<and>
    visible = filter (\<lambda>e. event_visible_to E e (tk_requester_id task))
      (take (nat (tk_context_revision task)) (room_log d (tk_room_id task))) \<and>
    rc_events packet = map (event_to_wire_value E) visible \<and> rc_active_decisions packet = active_decisions E visible \<and>
    token = ls_owner_id lease \<and> now < pg_time E (ls_expires_at lease)"
proof -
  from assms(2) obtain c where c: "context_for_lease E now lease d = Some c"
    and p: "packet = context_packet E c lease" "token = ls_owner_id lease"
    by (auto simp: context_response_def split: option.splits)
  from c have lt: "leased_task E now lease d = Some (cx_task c)" by (auto simp: context_for_lease_def)
  show ?thesis
    using leased_task_in [OF lt] context_events [OF assms(1) c] p
    by (intro exI [of _ "cx_task c"]) (simp add: packet_fields)
qed

text \<open>
  A waiting task is handed out.  If the external agent has a task whose lease is absent or expired,
  a claim answers with the context packet of a task and the fresh token, as long as the lease has not
  already run out on the database clock.
\<close>

theorem claim_hands_out:
  assumes "column_ok E" "t \<in> set (agent_tasks d)" "tk_agent_id t = REFERENCE_AGENT_ID" "claimable (pg_time E utc_now) t"
    "now < pg_time E (utc_now + AGENT_TASK_LEASE_DURATION)"
  shows "\<exists>packet. fst (claim E token utc_now now id d) = Context_response packet token"
proof -
  let ?now = "pg_time E utc_now" and ?exp = "pg_time E (utc_now + AGENT_TASK_LEASE_DURATION)"
  let ?q = "sort_key (\<lambda>t. (tk_created_at t, tk_task_id t))
      (filter (\<lambda>t. tk_agent_id t = REFERENCE_AGENT_ID \<and> claimable ?now t) (agent_tasks d))"
  have "t \<in> set ?q" using assms(2-4) by simp
  then obtain h rest where h: "?q = h # rest" by (cases ?q) auto
  then have "h \<in> set ?q" by simp
  then have hd: "h \<in> set (agent_tasks d)" by simp
  let ?lease = "\<lparr>ls_task_id = tk_task_id h, ls_owner_id = token, ls_expires_at = ?exp\<rparr>"
  let ?f = "\<lambda>t. t\<lparr>tk_lease_owner := Some token, tk_lease_expires_at := Some ?exp, tk_state := Running, tk_updated_at := ?now\<rparr>"
  let ?d = "d\<lparr>agent_tasks := row_update (\<lambda>t. tk_task_id t = tk_task_id h) ?f (agent_tasks d)\<rparr>"
  have c: "claim_oldest_queued_agent_task E REFERENCE_AGENT_ID token utc_now d = (Some ?lease, ?d)"
    using h by (simp add: claim_oldest_queued_agent_task_def Let_def)
  have "?f h \<in> set (agent_tasks ?d)" using hd by (auto simp: set_row_update)
  then have "leased_task E now ?lease ?d \<noteq> None"
    unfolding leased_task_def find_None_iff not_not
    using assms(5) column_time.store_idem [OF assms(1)] by (intro exI [of _ "?f h"]) simp
  then obtain x where "context_for_lease E now ?lease ?d = Some x" by (auto simp: context_for_lease_def)
  then show ?thesis by (simp add: claim_def c context_response_def)
qed


theorem claim_hands_out_witness:
  "\<exists>packet. fst (claim sample_ext 20 0 1 id (empty_db\<lparr>agent_tasks := [sample_task]\<rparr>)) = Context_response packet 20"
proof (rule claim_hands_out [OF column_ok_sample])
  show "sample_task \<in> set (agent_tasks (empty_db\<lparr>agent_tasks := [sample_task]\<rparr>))" by simp
qed (simp_all add: sample_task_def claimable_def open_state_def store_micros_def AGENT_TASK_LEASE_DURATION_def)

definition packet_db :: db where
  "packet_db = leased_db\<lparr>room_events := [requested_sample]\<rparr>"

lemma packet_db_ok: "log_ok packet_db"
  by (auto simp: packet_db_def log_ok_def room_log_def requested_sample_def upto_rec1)

lemma packet_db_context: "context_for_lease E 0 sample_lease packet_db =
    (if pg_time E (seconds 2000000000) = seconds 2000000000
     then Some \<lparr>cx_task = leased_sample, cx_events = [requested_sample]\<rparr> else None)"
  by (auto simp: context_for_lease_def leased_task_def sample_lease_def leased_db_def packet_db_def leased_sample_def
      sample_task_def requested_sample_def by_sequence_def)

theorem context_packet_visible_witness:
  "\<exists>packet token. context_response sample_ext 0 sample_lease packet_db = Context_response packet token \<and>
     rc_events packet = [event_to_wire_value sample_ext requested_sample]"
proof -
  obtain packet token where r: "context_response sample_ext 0 sample_lease packet_db = Context_response packet token"
    by (simp add: context_response_def packet_db_context store_micros_def)
  from context_packet_visible [OF packet_db_ok r] have "rc_events packet = [event_to_wire_value sample_ext requested_sample]"
    by (auto simp: packet_db_def leased_db_def leased_sample_def sample_task_def room_log_def requested_sample_def
        event_visible_to_def jget_str_def)
  with r show ?thesis by blast
qed

lemma sample_handler:
  "\<exists>resp e d'. update plain_ext 40 41 0 0 0 0 10 (Some (hyphenated_text 20))
     \<lparr>tr_update_id = 30, tr_context_revision = 1,
      tr_update = \<lparr>nu_event_type = ''agent.task.progressed'', nu_payload = jobj [], nu_occurred_at = seconds 1000000000\<rparr>\<rparr>
     packet_db packet_db leased_db = (resp, [e], d')"
proof -
  have m: "matching_live_lease plain_ext 0 10 (Some (hyphenated_text 20)) packet_db = Some sample_lease"
    by (simp add: matching_live_lease_def plain_ext_def hyphenated.parse_to_text agent_task_def packet_db_def
        leased_db_def leased_sample_def sample_task_def sample_lease_def)
  have c: "context_for_lease plain_ext 0 sample_lease packet_db = Some \<lparr>cx_task = leased_sample, cx_events = [requested_sample]\<rparr>"
    by (simp add: packet_db_context plain_ext_def store_micros_def)
  obtain res d' where r: "record_agent_task_update_with_outcome plain_ext 40 41 0 0 sample_lease sample_update leased_db = Inr (res, d')"
    using sample_update_ok by blast
  from r obtain e where "ur_events res = [e]" "\<not> ur_duplicate res"
  proof (cases rule: update_Inr)
    case duplicate
    then show ?thesis by (simp add: update_entry_def leased_db_def empty_db_def)
  next
    case recorded
    then show ?thesis using that by simp
  qed
  moreover have "record_agent_task_update_with_outcome plain_ext 40 41 0 0 sample_lease
      \<lparr>up_update_id = 30, up_event_type = ''agent.task.progressed'', up_payload = jobj [],
       up_occurred_at = 1000000000000000000\<rparr> leased_db = Inr (res, d')" using r by (simp add: sample_update_def)
  ultimately show ?thesis
    by (simp add: update_def m c terminal_citations_are_visible_def Let_def leased_sample_def sample_task_def)
qed


end
