(* ===== verification/Conversation_Protocol.thy ===== *)
theory Conversation_Protocol
  imports Rooms
begin

text \<open>
  \<open>src/conversation_protocol.rs\<close> and the two ports of \<open>src/rooms.rs\<close> that conversations use: the errors of
  the agent-conversation profile, the validation of profile documents (the compiled JSON schemas are the
  parameter \<open>profile_schema\<close>), the admission of a turn request, the authority of the requesting human, and the
  check of the mentions of a turn against the roster.
\<close>

definition PROFILE_VERSION :: string where
  "PROFILE_VERSION = ''thought-khoral.agent-conversation.v1''"

definition MAX_SAFE_INTEGER :: int where
  "MAX_SAFE_INTEGER = 9007199254740991"

datatype conversation_error =
    InvalidTaskInput
  | Conversation_Forbidden
  | ConversationBusy
  | ConversationStale
  | ContextMismatch
  | ContextTooLarge
  | RuntimeUnavailable
  | AuthenticationRequired
  | SessionUnavailable
  | Timed_out
  | ConversationInterrupted
  | ExecutionFailed
  | DuplicateConflict

fun error_code :: "conversation_error \<Rightarrow> string" where
  "error_code InvalidTaskInput = ''invalid_task_input''"
| "error_code Conversation_Forbidden = ''forbidden''"
| "error_code ConversationBusy = ''conversation_busy''"
| "error_code ConversationStale = ''conversation_stale''"
| "error_code ContextMismatch = ''context_mismatch''"
| "error_code ContextTooLarge = ''context_too_large''"
| "error_code RuntimeUnavailable = ''runtime_unavailable''"
| "error_code AuthenticationRequired = ''authentication_required''"
| "error_code SessionUnavailable = ''session_unavailable''"
| "error_code Timed_out = ''timeout''"
| "error_code ConversationInterrupted = ''conversation_interrupted''"
| "error_code ExecutionFailed = ''execution_failed''"
| "error_code DuplicateConflict = ''duplicate_conflict''"

abbreviation unavailable :: "'e + 'a \<Rightarrow> conversation_error + 'a" where
  \<comment> \<open>the conversions from database and store errors\<close>
  "unavailable r \<equiv> map_err (\<lambda>_. RuntimeUnavailable) r"

fun safe_numbers :: "json \<Rightarrow> bool" where
  "safe_numbers (JInt n) = (0 \<le> n \<and> n \<le> MAX_SAFE_INTEGER)"
| "safe_numbers (JFloat _) = False"
| "safe_numbers (JArr vs) = (\<forall>v \<in> set vs. safe_numbers v)"
| "safe_numbers (JObj fs) = (\<forall>f \<in> set fs. safe_numbers (snd f))"
| "safe_numbers _ = True"

definition validate_profile_value :: "ext \<Rightarrow> string \<Rightarrow> json \<Rightarrow> conversation_error + unit" where
  "validate_profile_value E name v =
     ensure InvalidTaskInput (safe_numbers v \<and>
       (case profile_schema E name of None \<Rightarrow> False | Some valid \<Rightarrow> valid v))"

fun turn_mentions ::
  "json \<Rightarrow> json list \<Rightarrow> string list \<Rightarrow> string option list \<Rightarrow> bool \<Rightarrow> conversation_error + bool" where
  \<comment> \<open>the loop over the mentions: participants and aliases seen so far, and whether the agent was named\<close>
  "turn_mentions agent [] participants aliases direct_codex = Inr direct_codex"
| "turn_mentions agent (mention # mentions) participants aliases direct_codex =
     (if jidx mention ''type'' = JStr ''participant'' then
        rbind (ok_or InvalidTaskInput (as_str (jidx mention ''id''))) (\<lambda>i.
          if i \<in> set participants then Inl InvalidTaskInput
          else if jidx mention ''id'' = agent then
            (if jidx mention ''token'' \<noteq> JStr ''codex-agent'' then Inl InvalidTaskInput
             else turn_mentions agent mentions (i # participants) aliases True)
          else turn_mentions agent mentions (i # participants) aliases direct_codex)
      else if as_str (jidx mention ''alias'') \<in> set aliases then Inl InvalidTaskInput
      else turn_mentions agent mentions participants (as_str (jidx mention ''alias'') # aliases) direct_codex)"

definition validate_turn_request :: "ext \<Rightarrow> json \<Rightarrow> conversation_error + json" where
  "validate_turn_request E request =
     rbind (validate_profile_value E ''turn'' request) (\<lambda>_.
       if jidx request ''agentId'' \<noteq> juuid E CODEX_AGENT_ID then Inl InvalidTaskInput
       else
         rbind (ok_or InvalidTaskInput (as_array (jidx request ''mentions''))) (\<lambda>mentions.
         rbind (turn_mentions (jidx request ''agentId'') mentions [] [] False) (\<lambda>direct_codex.
           if direct_codex then Inr request else Inl InvalidTaskInput)))"

definition authorize_conversation_turn ::
  "ext \<Rightarrow> actor \<Rightarrow> timestamp \<Rightarrow> timestamp \<Rightarrow> duration \<Rightarrow> conversation_error + timestamp" where
  "authorize_conversation_turn E actor requested_expiry now minimum_remaining =
     (if act_role actor \<noteq> Human then Inl Conversation_Forbidden
      else
        rbind (ok_or AuthenticationRequired (from_timestamp E (act_expires_at actor))) (\<lambda>token_expiry.
        let expiry = min requested_expiry token_expiry
        in if expiry < now + minimum_remaining then Inl AuthenticationRequired else Inr expiry))"

subsection \<open>The mentions of a turn\<close>

definition latest_by_actor :: "room_event list \<Rightarrow> room_event list" where
  \<comment> \<open>\<open>SELECT DISTINCT ON(actor_id) \<dots> ORDER BY actor_id,sequence DESC\<close>\<close>
  "latest_by_actor es =
     map (\<lambda>a. last (by_sequence (filter (\<lambda>e. ev_actor_id e = a) es))) (sort (remdups (map ev_actor_id es)))"

definition oversized_name :: "room_event \<Rightarrow> bool" where
  "oversized_name e \<longleftrightarrow> (case ev_actor_display_name e of None \<Rightarrow> False | Some n \<Rightarrow> length n > 8000)"

definition validate_conversation_mentions ::
  "ext \<Rightarrow> (room_participant list \<Rightarrow> room_participant list) \<Rightarrow> presence \<Rightarrow> uuid \<Rightarrow> json \<Rightarrow> db \<Rightarrow>
   conversation_error + unit" where
  \<comment> \<open>\<open>arrange\<close> is the order in which the map of participants is read\<close>
  "validate_conversation_mentions E arrange presence room mentions d =
     rbind (ok_or InvalidTaskInput (de_vec (de_mention E) mentions)) (\<lambda>mentions.
       if \<not> list_ex (\<lambda>m. case m of Participant i _ \<Rightarrow> i \<noteq> CODEX_AGENT_ID | Alias _ \<Rightarrow> False) mentions then Inr ()
       else
         let rows = take 2001 (latest_by_actor (filter (\<lambda>e. ev_room_id e = room) (room_events d)));
             room_presence = presence room
         in if length rows > 2000 then Inl ContextTooLarge
         else if list_ex oversized_name rows then Inl ContextTooLarge
         else if length room_presence > 2000 then Inl ContextTooLarge
         else if list_ex (\<lambda>p. length (pp_display_name (snd p)) > 8000) room_presence then Inl ContextTooLarge
         else
           let participants =
             fold (\<lambda>p. insert_participant (present_participant p)) room_presence
               (fold (\<lambda>e. insert_participant (event_participant E e)) rows [])
           in if length participants > 2000 then Inl ContextTooLarge
           else
             map_err (\<lambda>_. InvalidTaskInput)
               (validate_mentions E
                  (arrange (map snd
                    (insert_participant codex_participant (insert_participant action_items_participant participants))))
                  mentions))"

subsection \<open>Profile documents\<close>

lemma validate_profile_value_Inr [result_simps]:
  "validate_profile_value E name v = Inr u \<longleftrightarrow> safe_numbers v \<and> (\<exists>valid. profile_schema E name = Some valid \<and> valid v)"
  by (simp add: validate_profile_value_def result_simps split: option.splits)

lemma validate_profile_value_Inl [result_simps]:
  "validate_profile_value E name v = Inl e \<longleftrightarrow>
     e = InvalidTaskInput \<and> \<not> (safe_numbers v \<and> (\<exists>valid. profile_schema E name = Some valid \<and> valid v))"
  by (auto simp: validate_profile_value_def result_simps split: option.splits)

lemma error_code_inject: "error_code a = error_code b \<longleftrightarrow> a = b"
  by (cases a; cases b) simp_all

lemma safe_exact: "safe_numbers v \<Longrightarrow> exact v"
  by (induction v rule: safe_numbers.induct) auto

lemma authorize_Inr:
  "authorize_conversation_turn E actor requested now minimum = Inr expiry \<longleftrightarrow>
     act_role actor = Human \<and> (\<exists>t. from_timestamp E (act_expires_at actor) = Some t \<and> expiry = min requested t \<and>
       now + minimum \<le> expiry)"
  by (cases "from_timestamp E (act_expires_at actor)") (auto simp: authorize_conversation_turn_def Let_def)

subsection \<open>Admission of a turn\<close>

definition names_participant :: "json \<Rightarrow> bool" where
  "names_participant mention \<longleftrightarrow> jidx mention ''type'' = JStr ''participant''"

definition mention_id :: "json \<Rightarrow> json" where
  "mention_id mention = jidx mention ''id''"

definition mention_alias :: "json \<Rightarrow> string option" where
  "mention_alias mention = as_str (jidx mention ''alias'')"

definition codex_token :: "json \<Rightarrow> bool" where
  "codex_token mention \<longleftrightarrow> jidx mention ''token'' = JStr ''codex-agent''"

lemmas mention_defs = names_participant_def mention_id_def mention_alias_def codex_token_def

definition fair_mentions :: "json \<Rightarrow> json list \<Rightarrow> json set \<Rightarrow> string option set \<Rightarrow> bool" where
  \<comment> \<open>every participant is named by a string and once, the agent by its own token, every alias once\<close>
  "fair_mentions agent ms ps al \<longleftrightarrow>
     (\<forall>m \<in> set ms. names_participant m \<longrightarrow> as_str (mention_id m) \<noteq> None \<and> mention_id m \<notin> ps \<and>
        (mention_id m = agent \<longrightarrow> codex_token m)) \<and>
     (\<forall>m \<in> set ms. \<not> names_participant m \<longrightarrow> mention_alias m \<notin> al) \<and>
     distinct (map mention_id (filter names_participant ms)) \<and>
     distinct (map mention_alias (filter (\<lambda>m. \<not> names_participant m) ms))"

lemma notin_map_filter: "k \<notin> set (map f (filter P xs)) \<longleftrightarrow> (\<forall>x \<in> set xs. P x \<longrightarrow> f x \<noteq> k)"
  by auto

lemma fair_mentions_Cons:
  "fair_mentions agent (m # ms) ps al \<longleftrightarrow>
     (if names_participant m then as_str (mention_id m) \<noteq> None \<and> mention_id m \<notin> ps \<and>
          (mention_id m = agent \<longrightarrow> codex_token m) \<and> fair_mentions agent ms (insert (mention_id m) ps) al
      else mention_alias m \<notin> al \<and> fair_mentions agent ms ps (insert (mention_alias m) al))"
proof (cases "names_participant m")
  case True
  have "fair_mentions agent ms (insert (mention_id m) ps) al \<longleftrightarrow>
      fair_mentions agent ms ps al \<and> mention_id m \<notin> set (map mention_id (filter names_participant ms))"
    unfolding fair_mentions_def notin_map_filter insert_iff by blast
  then show ?thesis
    using True unfolding fair_mentions_def by (simp only: filter.simps if_True list.set ball_simps distinct.simps list.map if_False simp_thms) blast
next
  case False
  have "fair_mentions agent ms ps (insert (mention_alias m) al) \<longleftrightarrow>
      fair_mentions agent ms ps al \<and> mention_alias m \<notin> set (map mention_alias (filter (\<lambda>m. \<not> names_participant m) ms))"
    unfolding fair_mentions_def notin_map_filter insert_iff by blast
  then show ?thesis
    using False unfolding fair_mentions_def by (simp only: filter.simps if_True list.set ball_simps distinct.simps list.map if_False simp_thms) blast
qed

lemma turn_mentions_Cons:
  "turn_mentions agent (m # ms) ps al direct =
     (if names_participant m then
        (case as_str (mention_id m) of None \<Rightarrow> Inl InvalidTaskInput
         | Some i \<Rightarrow>
             if i \<in> set ps \<or> mention_id m = agent \<and> \<not> codex_token m then Inl InvalidTaskInput
             else turn_mentions agent ms (i # ps) al (direct \<or> mention_id m = agent))
      else if mention_alias m \<in> set al then Inl InvalidTaskInput
      else turn_mentions agent ms ps (mention_alias m # al) direct)"
  by (cases "as_str (jidx m ''id'')") (simp_all add: mention_defs)

declare turn_mentions.simps(2) [simp del]

lemma turn_mentions_Inl: "turn_mentions agent ms ps al direct = Inl e \<Longrightarrow> e = InvalidTaskInput"
  by (induction ms arbitrary: ps al direct) (auto simp: turn_mentions_Cons split: option.splits if_splits)

lemma as_str_JStr: "as_str v = Some s \<longleftrightarrow> v = JStr s"
  by (cases v) auto

lemma turn_mentions_Inr:
  "turn_mentions agent ms ps al direct = Inr b \<longleftrightarrow>
     fair_mentions agent ms (JStr ` set ps) (set al) \<and>
     (b \<longleftrightarrow> direct \<or> (\<exists>m \<in> set ms. names_participant m \<and> mention_id m = agent))"
proof (induction ms arbitrary: ps al direct)
  case Nil
  then show ?case by (auto simp: fair_mentions_def)
next
  case (Cons m ms)
  show ?case
  proof (cases "names_participant m")
    case False
    then show ?thesis
      using Cons.IH [of ps "mention_alias m # al" direct] by (simp add: turn_mentions_Cons fair_mentions_Cons)
  next
    case True
    show ?thesis
    proof (cases "as_str (mention_id m)")
      case None
      with True show ?thesis by (simp add: turn_mentions_Cons fair_mentions_Cons)
    next
      case (Some i)
      then have i: "mention_id m = JStr i" by (simp add: as_str_JStr)
      have mem: "JStr i \<in> JStr ` set ps \<longleftrightarrow> i \<in> set ps" by auto
      show ?thesis
        using True Some Cons.IH [of "i # ps" al "direct \<or> JStr i = agent"]
        by (simp add: turn_mentions_Cons fair_mentions_Cons i mem)
    qed
  qed
qed

text \<open>
  C31: Which turn requests are admitted: those that satisfy the profile schema, carry only integers a browser can
  represent, address the Codex agent, and mention it directly, by its own token, with no participant and no
  alias mentioned twice.  An admitted request is passed on unchanged; every other one is invalid input.
\<close>

theorem validate_turn_request_spec:
  "validate_turn_request E v =
     (if safe_numbers v \<and> (\<exists>valid. profile_schema E ''turn'' = Some valid \<and> valid v) \<and>
         jidx v ''agentId'' = juuid E CODEX_AGENT_ID \<and>
         (\<exists>ms. jidx v ''mentions'' = JArr ms \<and> fair_mentions (juuid E CODEX_AGENT_ID) ms {} {} \<and>
            (\<exists>m \<in> set ms. names_participant m \<and> mention_id m = juuid E CODEX_AGENT_ID))
      then Inr v else Inl InvalidTaskInput)"
proof -
  have array: "as_array w = Some ms \<longleftrightarrow> w = JArr ms" for w ms by (cases w) auto
  let ?P = "safe_numbers v \<and> (\<exists>valid. profile_schema E ''turn'' = Some valid \<and> valid v) \<and>
      jidx v ''agentId'' = juuid E CODEX_AGENT_ID \<and>
      (\<exists>ms. jidx v ''mentions'' = JArr ms \<and> fair_mentions (juuid E CODEX_AGENT_ID) ms {} {} \<and>
        (\<exists>m \<in> set ms. names_participant m \<and> mention_id m = juuid E CODEX_AGENT_ID))"
  have ok: "validate_turn_request E v = Inr w \<longleftrightarrow> w = v \<and> ?P" for w
    by (auto simp: validate_turn_request_def result_simps turn_mentions_Inr array split: if_splits)
  have err: "e = InvalidTaskInput" if "validate_turn_request E v = Inl e" for e
    using that turn_mentions_Inl by (auto simp: validate_turn_request_def result_simps split: if_splits)
  show ?thesis
  proof (cases ?P)
    case True
    then show ?thesis unfolding if_P [OF True] ok by simp
  next
    case False
    then obtain e where "validate_turn_request E v = Inl e" using ok by (cases "validate_turn_request E v") blast+
    with err show ?thesis unfolding if_not_P [OF False] by simp
  qed
qed

end
