(* ===== verification/Conversation_Policy.thy ===== *)
theory Conversation_Policy
  imports Conversation_Protocol
begin

text \<open>
  The operator's policy of \<open>src/conversation_store.rs\<close> and the check of a selection against the provider's
  catalog of \<open>src/conversation_service.rs\<close>.  A catalog is a \<open>CatalogQuery\<close>: a function from the agent, a
  cursor and a limit to an answer and the provider's next state, where \<open>None\<close> is a call that did not return
  before the surrounding timeout of five seconds.
\<close>

record conversation_model =
  cm_id :: string
  cm_reasoning_efforts :: "string list"

record conversation_policy =
  cp_enabled :: bool
  cp_policy_revision :: string
  cp_guidance_revision :: string
  cp_catalog_revision :: string
  cp_model :: string
  cp_reasoning_effort :: string
  cp_models :: "conversation_model list"
  cp_max_context_bytes :: nat
  cp_max_records :: nat
  cp_turn_deadline_seconds :: int
  cp_interrupt_grace_seconds :: int

definition default_policy :: conversation_policy where
  "default_policy =
     \<lparr>cp_enabled = False, cp_policy_revision = [], cp_guidance_revision = [], cp_catalog_revision = [],
      cp_model = [], cp_reasoning_effort = [], cp_models = [], cp_max_context_bytes = 1048576,
      cp_max_records = 2000, cp_turn_deadline_seconds = 180, cp_interrupt_grace_seconds = 5\<rparr>"

definition valid_id :: "string \<Rightarrow> bool" where
  "valid_id s \<longleftrightarrow> s \<noteq> [] \<and> char_count s \<le> 128"

definition offers :: "conversation_policy \<Rightarrow> json \<Rightarrow> json \<Rightarrow> bool" where
  \<comment> \<open>\<open>models.iter().any(|model| m == model.id && model.reasoning_efforts.iter().any(|effort| e == *effort))\<close>\<close>
  "offers policy m e \<longleftrightarrow>
     list_ex (\<lambda>x. m = JStr (cm_id x) \<and> list_ex (\<lambda>f. e = JStr f) (cm_reasoning_efforts x)) (cp_models policy)"

definition resolve_settings :: "conversation_policy \<Rightarrow> json option \<Rightarrow> conversation_error + json" where
  "resolve_settings policy settings =
     (let defaults = jobj [(''model'', JStr (cp_model policy)),
                           (''reasoningEffort'', JStr (cp_reasoning_effort policy)),
                           (''catalogRevision'', JStr (cp_catalog_revision policy))];
          selected = (case settings of None \<Rightarrow> defaults | Some s \<Rightarrow> s)
      in if jidx selected ''catalogRevision'' \<noteq> JStr (cp_catalog_revision policy) \<or>
            \<not> offers policy (jidx selected ''model'') (jidx selected ''reasoningEffort'')
         then Inl InvalidTaskInput else Inr selected)"

definition model_ok :: "conversation_model \<Rightarrow> bool" where
  "model_ok x \<longleftrightarrow> valid_id (cm_id x) \<and> cm_reasoning_efforts x \<noteq> [] \<and> length (cm_reasoning_efforts x) \<le> 100 \<and>
     list_all valid_id (cm_reasoning_efforts x) \<and> distinct (cm_reasoning_efforts x)"

fun check_models :: "conversation_model list \<Rightarrow> string list \<Rightarrow> bool" where
  \<comment> \<open>the loop over the models with the set of identifiers seen\<close>
  "check_models [] seen = True"
| "check_models (x # xs) seen = (cm_id x \<notin> set seen \<and> model_ok x \<and> check_models xs (cm_id x # seen))"

definition validate_policy :: "conversation_policy \<Rightarrow> conversation_error + unit" where
  "validate_policy policy =
     (if cp_max_context_bytes policy = 0 \<or> cp_max_context_bytes policy > 1048576 \<or>
         cp_max_records policy = 0 \<or> cp_max_records policy > 2000 \<or>
         \<not> (1 \<le> cp_turn_deadline_seconds policy \<and> cp_turn_deadline_seconds policy \<le> 180) \<or>
         \<not> (1 \<le> cp_interrupt_grace_seconds policy \<and> cp_interrupt_grace_seconds policy \<le> 5)
      then Inl InvalidTaskInput
      else if \<not> cp_enabled policy then Inr ()
      else if \<not> list_all valid_id [cp_policy_revision policy, cp_guidance_revision policy,
                 cp_catalog_revision policy, cp_model policy, cp_reasoning_effort policy] \<or>
              cp_models policy = [] \<or> length (cp_models policy) > 100
      then Inl InvalidTaskInput
      else if \<not> check_models (cp_models policy) [] then Inl InvalidTaskInput
      else rbind (resolve_settings policy None) (\<lambda>_. Inr ()))"

subsection \<open>The catalog\<close>

type_synonym 's catalog = "uuid \<Rightarrow> string option \<Rightarrow> nat \<Rightarrow> 's \<Rightarrow> (conversation_error + json) option \<times> 's"

definition unavailable_catalog :: "'s catalog" where
  "unavailable_catalog agent cursor limit s = (Some (Inl RuntimeUnavailable), s)"

fun catalog_efforts :: "json list \<Rightarrow> string option list \<Rightarrow> conversation_error + string option list" where
  "catalog_efforts [] efforts = Inr efforts"
| "catalog_efforts (effort # es) efforts =
     (if as_str (jidx effort ''id'') \<in> set efforts then Inl RuntimeUnavailable
      else catalog_efforts es (as_str (jidx effort ''id'') # efforts))"

fun catalog_models :: "json list \<Rightarrow> string option list \<Rightarrow> conversation_error + unit" where
  "catalog_models [] models = Inr ()"
| "catalog_models (model # ms) models =
     (if as_str (jidx model ''id'') \<in> set models then Inl RuntimeUnavailable
      else
        rbind (ok_or RuntimeUnavailable (as_array (jidx model ''supportedReasoningEfforts''))) (\<lambda>es.
        rbind (catalog_efforts es []) (\<lambda>efforts.
          if \<not> is_null (jidx model ''defaultReasoningEffort'') \<and>
             as_str (jidx model ''defaultReasoningEffort'') \<notin> set efforts
          then Inl RuntimeUnavailable
          else catalog_models ms (as_str (jidx model ''id'') # models))))"

definition validate_catalog :: "ext \<Rightarrow> json \<Rightarrow> conversation_policy \<Rightarrow> conversation_error + unit" where
  "validate_catalog E page policy =
     rbind (unavailable (validate_profile_value E ''catalog'' page)) (\<lambda>_.
       if length (json_text E page) > 1048576 then Inl RuntimeUnavailable
       else if jidx page ''catalogRevision'' \<noteq> JStr (cp_catalog_revision policy) then Inl ConversationStale
       else rbind (ok_or RuntimeUnavailable (as_array (jidx page ''data''))) (\<lambda>data. catalog_models data []))"

fun select_models :: "json \<Rightarrow> json list \<Rightarrow> string list \<Rightarrow> bool \<Rightarrow> conversation_error + (string list \<times> bool)" where
  \<comment> \<open>one page: the models seen so far and whether the selection was found\<close>
  "select_models selected [] models found = Inr (models, found)"
| "select_models selected (model # ms) models found =
     rbind (ok_or RuntimeUnavailable (as_str (jidx model ''id''))) (\<lambda>i.
       if i \<in> set models then Inl RuntimeUnavailable
       else if jidx model ''id'' = jidx selected ''model'' then
         rbind (ok_or RuntimeUnavailable (as_array (jidx model ''supportedReasoningEfforts''))) (\<lambda>es.
           select_models selected ms (i # models)
             (list_ex (\<lambda>effort. jidx effort ''id'' = jidx selected ''reasoningEffort'') es))
       else select_models selected ms (i # models) found)"

fun selection_pages ::
  "ext \<Rightarrow> 's catalog \<Rightarrow> conversation_policy \<Rightarrow> json \<Rightarrow> nat \<Rightarrow> string option \<Rightarrow> string list \<Rightarrow> string list \<Rightarrow> bool \<Rightarrow> 's \<Rightarrow>
   (conversation_error + unit) option \<times> 's" where
  \<comment> \<open>at most so many more pages\<close>
  "selection_pages E catalog policy selected 0 cursor cursors models found s = (Some (Inl RuntimeUnavailable), s)"
| "selection_pages E catalog policy selected (Suc n) cursor cursors models found s =
     (case catalog CODEX_AGENT_ID cursor 100 s of
        (None, s) \<Rightarrow> (None, s)
      | (Some (Inl e), s) \<Rightarrow> (Some (Inl e), s)
      | (Some (Inr page), s) \<Rightarrow>
          (case rbind (validate_catalog E page policy) (\<lambda>_.
                rbind (ok_or RuntimeUnavailable (as_array (jidx page ''data''))) (\<lambda>data.
                  select_models selected data models found)) of
             Inl e \<Rightarrow> (Some (Inl e), s)
           | Inr (models, found) \<Rightarrow>
               (case as_str (jidx page ''nextCursor'') of
                  None \<Rightarrow> (Some (if found then Inr () else Inl InvalidTaskInput), s)
                | Some next \<Rightarrow>
                    if next \<in> set cursors then (Some (Inl RuntimeUnavailable), s)
                    else selection_pages E catalog policy selected n (Some next) (next # cursors) models found s)))"

definition validate_catalog_selection ::
  "ext \<Rightarrow> 's catalog \<Rightarrow> conversation_policy \<Rightarrow> json \<Rightarrow> 's \<Rightarrow> (conversation_error + unit) option \<times> 's" where
  "validate_catalog_selection E catalog policy selected s =
     selection_pages E catalog policy selected 100 None [] [] False s"

subsection \<open>Policies\<close>

lemma check_models_iff:
  "check_models xs seen \<longleftrightarrow> list_all model_ok xs \<and> distinct (map cm_id xs) \<and> cm_id ` set xs \<inter> set seen = {}"
  by (induction xs seen rule: check_models.induct) auto

lemma resolve_settings_Inr:
  "resolve_settings policy settings = Inr v \<Longrightarrow>
     offers policy (jidx v ''model'') (jidx v ''reasoningEffort'') \<and>
     jidx v ''catalogRevision'' = JStr (cp_catalog_revision policy)"
  by (auto simp: resolve_settings_def Let_def split: if_splits)

lemma validate_policy_bounds:
  assumes "validate_policy policy = Inr ()"
  shows "0 < cp_max_context_bytes policy" "cp_max_context_bytes policy \<le> 1048576" "0 < cp_max_records policy"
    "cp_max_records policy \<le> 2000" "1 \<le> cp_turn_deadline_seconds policy" "cp_turn_deadline_seconds policy \<le> 180"
    "1 \<le> cp_interrupt_grace_seconds policy" "cp_interrupt_grace_seconds policy \<le> 5"
  using assms by (auto simp: validate_policy_def not_less split: if_splits)

end
