(* ===== verification/Conversation_Context.thy ===== *)
theory Conversation_Context
  imports Conversation_Policy
begin

text \<open>
  \<open>src/conversation_context.rs\<close>: the canonical bytes of a context, the frozen context of a turn and the
  manifest of its sources.  The SQL of the file is written over the rows of the tables: \<open>text_field\<close> is the
  operator \<open>->>\<close>, \<open>left_join\<close> the outer join with the turn that a message replies to.
\<close>

definition is_ascii :: "string \<Rightarrow> bool" where
  "is_ascii s \<longleftrightarrow> list_all (\<lambda>c. byte c < 128) s"

lemma size_object_value: "(k, v) \<in> set fs \<Longrightarrow> size v < Suc (size_list (size_prod (\<lambda>x. 0) size) fs)"
  by (induction fs) auto

lemma traverse_cong [fundef_cong]:
  "xs = ys \<Longrightarrow> (\<And>x. x \<in> set ys \<Longrightarrow> f x = g x) \<Longrightarrow> traverse f xs = traverse g ys"
  by (induction ys arbitrary: xs) auto

function (sequential) sorted_value :: "json \<Rightarrow> conversation_error + json" where
  "sorted_value (JInt n) = (if 0 \<le> n \<and> n \<le> MAX_SAFE_INTEGER then Inr (JInt n) else Inl ContextMismatch)"
| "sorted_value (JFloat w) = Inl ContextMismatch"
| "sorted_value (JObj fs) =
     (if list_ex (\<lambda>f. \<not> is_ascii (fst f)) fs then Inl ContextMismatch
      else rbind (traverse (\<lambda>f. rbind (sorted_value (snd f)) (\<lambda>v. Inr (fst f, v))) (sort_key fst fs)) (\<lambda>fs.
             Inr (jobj fs)))"
| "sorted_value (JArr vs) = rbind (traverse sorted_value vs) (\<lambda>vs. Inr (JArr vs))"
| "sorted_value v = Inr v"
  by pat_completeness auto
termination
  by (relation "measure size") (auto dest: size_object_value simp: size_list_estimation less_Suc_eq_le size_list_estimation')

definition canonical_context_bytes :: "ext \<Rightarrow> json \<Rightarrow> conversation_error + string" where
  "canonical_context_bytes E v = rbind (sorted_value v) (\<lambda>w. Inr (json_text E w))"

subsection \<open>What a turn may be shown\<close>

definition text_field :: "ext \<Rightarrow> json \<Rightarrow> string \<Rightarrow> string option" where
  \<comment> \<open>\<open>v->>'k'\<close>\<close>
  "text_field E v k =
     (case jget v k of
        None \<Rightarrow> None
      | Some JNull \<Rightarrow> None
      | Some (JStr s) \<Rightarrow> Some s
      | Some x \<Rightarrow> Some (jsonb_text E x))"

definition room_wide :: "ext \<Rightarrow> room_event \<Rightarrow> bool" where
  "room_wide E e \<longleftrightarrow>
     (case text_field E (ev_payload e) ''delivery'' of None \<Rightarrow> True | Some t \<Rightarrow> t = ''room'') \<and>
     (case jget (ev_payload e) ''audienceIds'' of None \<Rightarrow> True | Some a \<Rightarrow> a = JArr [])"

definition reply_turns :: "uuid \<Rightarrow> int \<Rightarrow> db \<Rightarrow> room_event \<Rightarrow> turn_row list" where
  "reply_turns conversation generation d e =
     filter (\<lambda>t. ct_reply_event_id t = Some (ev_event_id e) \<and> ct_room_id t = ev_room_id e \<and>
       ct_conversation_id t = conversation \<and> ct_generation t = generation \<and> ct_state t = Turn_completed)
       (conversation_tasks d)"

definition left_join :: "uuid \<Rightarrow> int \<Rightarrow> db \<Rightarrow> room_event \<Rightarrow> (room_event \<times> turn_row option) list" where
  "left_join conversation generation d e =
     (case reply_turns conversation generation d e of
        [] \<Rightarrow> [(e, None)]
      | ts \<Rightarrow> map (\<lambda>t. (e, Some t)) ts)"

definition context_messages :: "ext \<Rightarrow> uuid \<Rightarrow> int \<Rightarrow> int \<Rightarrow> db \<Rightarrow> room_event list" where
  "context_messages E room base revision d =
     by_sequence (filter (\<lambda>e. ev_room_id e = room \<and> base < ev_sequence e \<and> ev_sequence e \<le> revision \<and>
       ev_event_type e = ''message.created'' \<and> room_wide E e) (room_events d))"

definition context_rows ::
  "ext \<Rightarrow> uuid \<Rightarrow> uuid \<Rightarrow> int \<Rightarrow> int \<Rightarrow> int \<Rightarrow> db \<Rightarrow> (room_event \<times> turn_row option) list" where
  "context_rows E room conversation generation base revision d =
     concat (map (left_join conversation generation d) (context_messages E room base revision d))"

definition acknowledgement_of :: "room_event \<times> turn_row option \<Rightarrow> json option" where
  "acknowledgement_of row = Option.bind (snd row) ct_receipt_acknowledgement"

definition native_reply :: "int \<Rightarrow> room_event \<times> turn_row option \<Rightarrow> bool" where
  "native_reply base row \<longleftrightarrow> base > 0 \<and> ev_actor_id (fst row) = CODEX_AGENT_ID \<and>
     ev_actor_role (fst row) = ''agent'' \<and> acknowledgement_of row \<noteq> None"

definition row_bytes :: "ext \<Rightarrow> int \<Rightarrow> room_event \<times> turn_row option \<Rightarrow> nat" where
  \<comment> \<open>a null length does not count in the sum\<close>
  "row_bytes E base row =
     (if native_reply base row then 0
      else case text_field E (ev_payload (fst row)) ''text'' of
        None \<Rightarrow> 0
      | Some t \<Rightarrow> length t + (case ev_actor_display_name (fst row) of None \<Rightarrow> 0 | Some n \<Rightarrow> length n))"

definition oversized_reply :: "ext \<Rightarrow> int \<Rightarrow> room_event \<times> turn_row option \<Rightarrow> bool" where
  "oversized_reply E base row \<longleftrightarrow> native_reply base row \<and>
     (case text_field E (ev_payload (fst row)) ''text'' of None \<Rightarrow> False | Some t \<Rightarrow> length t > 65536)"

definition context_entry :: "ext \<Rightarrow> room_event \<Rightarrow> string \<Rightarrow> json" where
  "context_entry E e text =
     (let entry = jobj [(''eventId'', juuid E (ev_event_id e)), (''sequence'', JInt (ev_sequence e)),
                        (''authorId'', juuid E (ev_actor_id e)), (''authorRole'', JStr (ev_actor_role e)),
                        (''occurredAt'', jtime E (ev_occurred_at e)), (''text'', JStr text)]
      in case ev_actor_display_name e of None \<Rightarrow> entry | Some n \<Rightarrow> jset entry ''displayName'' (JStr n))"

definition reply_binding :: "ext \<Rightarrow> int \<Rightarrow> room_event \<Rightarrow> turn_row \<Rightarrow> string \<Rightarrow> json" where
  "reply_binding E generation e t text_digest =
     jobj [(''eventId'', juuid E (ev_event_id e)), (''sequence'', JInt (ev_sequence e)),
           (''sourceTaskId'', juuid E (ct_task_id t)), (''generation'', JInt generation),
           (''textDigest'', JStr text_digest)]"

definition verify_reply ::
  "ext \<Rightarrow> uuid \<Rightarrow> int \<Rightarrow> int \<Rightarrow> room_event \<Rightarrow> turn_row \<Rightarrow> json \<Rightarrow> string \<Rightarrow> conversation_error + json" where
  "verify_reply E conversation generation base e t ack text =
     rbind (map_err (\<lambda>_. ContextMismatch) (validate_profile_value E ''ack'' ack)) (\<lambda>_.
     rbind (ok_or RuntimeUnavailable (text_field E (jidx (ct_frozen_input t) ''context'') ''digest'')) (\<lambda>source_digest.
     let text_digest = sha256_hex E text
     in if jidx ack ''taskId'' \<noteq> juuid E (ct_task_id t) \<or>
           jidx ack ''conversationId'' \<noteq> juuid E conversation \<or>
           jidx ack ''generation'' \<noteq> JInt generation \<or>
           jidx ack ''replyEventId'' \<noteq> juuid E (ev_event_id e) \<or>
           jidx ack ''replySequence'' \<noteq> JInt (ev_sequence e) \<or>
           jidx ack ''textDigest'' \<noteq> JStr text_digest \<or>
           jidx ack ''consumedRevision'' \<noteq> JInt (ct_context_revision t) \<or>
           ct_context_revision t > base \<or>
           jidx ack ''contextDigest'' \<noteq> JStr source_digest
        then Inl ContextMismatch
        else Inr (reply_binding E generation e t text_digest)))"

definition freeze_row ::
  "ext \<Rightarrow> uuid \<Rightarrow> int \<Rightarrow> int \<Rightarrow> room_event \<times> turn_row option \<Rightarrow> conversation_error + (bool \<times> json)" where
  \<comment> \<open>a verified native reply becomes a binding, every other message an entry\<close>
  "freeze_row E conversation generation base row =
     (case text_field E (ev_payload (fst row)) ''text'' of
        None \<Rightarrow> Inl ContextMismatch
      | Some text \<Rightarrow>
          if text = [] then Inl ContextMismatch
          else if native_reply base row
          then rbind (verify_reply E conversation generation base (fst row) (the (snd row))
                 (the (acknowledgement_of row)) text) (\<lambda>binding. Inr (True, binding))
          else Inr (False, context_entry E (fst row) text))"

definition sources_room_wide :: "ext \<Rightarrow> (room_event \<Rightarrow> bool) \<Rightarrow> db \<Rightarrow> decision_row \<Rightarrow> bool" where
  "sources_room_wide E within d row \<longleftrightarrow>
     list_all (\<lambda>i. list_ex (\<lambda>e. ev_event_id e = i \<and> ev_room_id e = dc_room_id row \<and> within e \<and> room_wide E e)
       (room_events d)) (dc_source_event_ids row)"

definition context_decisions :: "ext \<Rightarrow> uuid \<Rightarrow> int \<Rightarrow> db \<Rightarrow> decision_row list" where
  "context_decisions E room revision d =
     sort_key dc_decision_id (filter (\<lambda>x. dc_room_id x = room \<and> dc_status x = Active \<and>
       sources_room_wide E (\<lambda>e. ev_sequence e \<le> revision) d x) (decisions d))"

definition decision_bytes :: "decision_row \<Rightarrow> nat" where
  "decision_bytes x = length (dc_title x) + length (dc_summary x) + length (dc_source_event_ids x) * 39 + 80"

definition context_decision :: "ext \<Rightarrow> decision_row \<Rightarrow> json" where
  "context_decision E x =
     jobj [(''decisionId'', juuid E (dc_decision_id x)), (''title'', JStr (dc_title x)),
           (''summary'', JStr (dc_summary x)), (''sourceEventIds'', juuids E (dc_source_event_ids x))]"

definition freeze_context ::
  "ext \<Rightarrow> uuid \<Rightarrow> uuid \<Rightarrow> int \<Rightarrow> int \<Rightarrow> int \<Rightarrow> conversation_policy \<Rightarrow> db \<Rightarrow> conversation_error + json" where
  "freeze_context E room conversation generation base revision policy d =
     (let rows = context_rows E room conversation generation base revision d;
          active = context_decisions E room revision d
      in if list_ex (oversized_reply E base) rows then Inl ContextMismatch
      else if length rows > cp_max_records policy \<or>
              sum_list (map (row_bytes E base) rows) > cp_max_context_bytes policy
      then Inl ContextTooLarge
      else
        rbind (traverse (freeze_row E conversation generation base) rows) (\<lambda>items.
          if sum_list (map decision_bytes active) > cp_max_context_bytes policy then Inl ContextTooLarge
          else Inr (jobj [
            (''kind'', JStr (if base = 0 then ''baseline'' else ''delta'')),
            (''baseRevision'', JInt base),
            (''revision'', JInt revision),
            (''policyRevision'', JStr (cp_policy_revision policy)),
            (''entries'', JArr (map snd (filter (\<lambda>i. \<not> fst i) items))),
            (''activeDecisions'', JArr (map (context_decision E) active)),
            (''nativeReplyBindings'', JArr (map snd (filter fst items)))])))"

definition trigger_event :: "ext \<Rightarrow> uuid \<Rightarrow> uuid \<Rightarrow> db \<Rightarrow> room_event option" where
  "trigger_event E room trigger d =
     find (\<lambda>e. ev_event_id e = trigger \<and> ev_room_id e = room \<and> ev_event_type e = ''message.created'' \<and>
       ev_actor_role e = ''human'' \<and> text_field E (ev_payload e) ''delivery'' = Some ''room'' \<and>
       jget (ev_payload e) ''audienceIds'' = Some (JArr [])) (room_events d)"

definition context_preimage :: "ext \<Rightarrow> uuid \<Rightarrow> uuid \<Rightarrow> int \<Rightarrow> uuid \<Rightarrow> conversation_policy \<Rightarrow> json \<Rightarrow> json" where
  "context_preimage E room conversation generation trigger policy ctx =
     jobj [(''roomId'', juuid E room), (''agentId'', juuid E CODEX_AGENT_ID),
           (''conversationId'', juuid E conversation), (''generation'', JInt generation),
           (''triggerEventId'', juuid E trigger), (''guidanceRevision'', JStr (cp_guidance_revision policy)),
           (''context'', ctx)]"

definition build_context ::
  "ext \<Rightarrow> uuid \<Rightarrow> uuid \<Rightarrow> int \<Rightarrow> int \<Rightarrow> uuid \<Rightarrow> conversation_policy \<Rightarrow> db \<Rightarrow> conversation_error + json" where
  "build_context E room conversation generation base trigger policy d =
     rbind (ok_or ContextMismatch (map_option ev_sequence (trigger_event E room trigger d))) (\<lambda>revision.
       if base < 0 \<or> base \<ge> revision \<or> generation \<le> 0 \<or> generation > MAX_SAFE_INTEGER \<or>
          revision > MAX_SAFE_INTEGER
       then Inl ContextMismatch
       else
         rbind (freeze_context E room conversation generation base revision policy d) (\<lambda>ctx.
         rbind (canonical_context_bytes E (context_preimage E room conversation generation trigger policy ctx)) (\<lambda>bytes.
           if length bytes > cp_max_context_bytes policy then Inl ContextTooLarge
           else Inr (jset ctx ''digest'' (JStr (sha256_hex E bytes))))))"

subsection \<open>The manifest\<close>

definition elements :: "json \<Rightarrow> string \<Rightarrow> json list" where
  \<comment> \<open>\<open>context[field].as_array().expect(\<dots>)\<close>: the fields of a constructed context are arrays\<close>
  "elements v k = (case as_array (jidx v k) of None \<Rightarrow> [] | Some vs \<Rightarrow> vs)"

definition add_source :: "string \<Rightarrow> json \<Rightarrow> json list \<Rightarrow> json list" where
  \<comment> \<open>identifiers seen so far are those of the collected sources\<close>
  "add_source kind i sources =
     (if i \<in> (\<lambda>s. jidx s ''sourceId'') ` set sources then sources
      else sources @ [jobj [(''sourceId'', i), (''sourceKind'', JStr kind)]])"

definition source_manifest :: "json \<Rightarrow> json" where
  "source_manifest ctx =
     JArr (fold (\<lambda>decision sources.
         fold (add_source ''event'') (elements decision ''sourceEventIds'')
           (add_source ''decision'' (jidx decision ''decisionId'') sources))
       (elements ctx ''activeDecisions'')
       (fold (\<lambda>entry. add_source ''event'' (jidx entry ''eventId''))
         (elements ctx ''entries'' @ elements ctx ''nativeReplyBindings'') []))"

subsection \<open>Canonical bytes\<close>

fun ascii_keys :: "json \<Rightarrow> bool" where
  "ascii_keys (JArr vs) = (\<forall>v \<in> set vs. ascii_keys v)"
| "ascii_keys (JObj fs) = (\<forall>f \<in> set fs. is_ascii (fst f) \<and> ascii_keys (snd f))"
| "ascii_keys _ = True"

lemma jobj_ordered: "ordered fs \<Longrightarrow> jobj fs = JObj fs"
proof -
  assume o: "ordered fs"
  have d: "distinct (map fst fs)" using o by (rule ordered_distinct)
  then have "map_of (rev fs) = map_of fs" using map_of_inject_set [of "rev fs" fs] by (simp add: rev_map [symmetric])
  then have "map_of (fold (\<lambda>(k, v) m. upd k v m) fs []) = map_of fs"
    by (simp add: fun_eq_iff map_of_fold_upd split: option.splits)
  then show ?thesis
    unfolding jobj_def by (simp only: json.inject) (rule ordered_map_of_eqI; simp add: ordered_fold_upd o)
qed

lemma traverse_id:
  assumes "\<And>x. x \<in> set xs \<Longrightarrow> f x = (if P x then Inr x else Inl e)"
  shows "traverse f xs = (if \<forall>x \<in> set xs. P x then Inr xs else Inl e)"
  using assms by (induction xs) auto

lemma sorted_value_id:
  "wf_json v \<Longrightarrow> sorted_value v = (if safe_numbers v \<and> ascii_keys v then Inr v else Inl ContextMismatch)"
proof (induction v rule: sorted_value.induct)
  case (3 fs)
  have o: "ordered fs" using "3.prems" by simp
  have s: "sort_key fst fs = fs"
    using o by (intro sort_key_id_if_sorted) (simp add: strict_sorted_imp_sorted)
  show ?case
  proof (cases "list_ex (\<lambda>f. \<not> is_ascii (fst f)) fs")
    case True
    then show ?thesis by (auto simp: list_ex_iff)
  next
    case False
    have "traverse (\<lambda>f. rbind (sorted_value (snd f)) (\<lambda>v. Inr (fst f, v))) fs =
        (if \<forall>f \<in> set fs. safe_numbers (snd f) \<and> ascii_keys (snd f) then Inr fs else Inl ContextMismatch)"
      using "3.IH" [OF False] "3.prems" s by (intro traverse_id) auto
    then show ?thesis using False s o by (auto simp: list_ex_iff jobj_ordered)
  qed
next
  case (4 vs)
  have "traverse sorted_value vs =
      (if \<forall>v \<in> set vs. safe_numbers v \<and> ascii_keys v then Inr vs else Inl ContextMismatch)"
    using "4.IH" "4.prems" by (intro traverse_id) auto
  then show ?case by auto
qed auto

text \<open>
  The canonical bytes of a document are its plain serialisation: sorting the keys changes nothing, because
  the objects of the gateway are ordered maps.  They exist exactly for documents whose numbers are integers a
  browser can represent and whose keys are ASCII.
\<close>

theorem canonical_bytes_spec:
  assumes "wf_json v"
  shows "canonical_context_bytes E v =
    (if safe_numbers v \<and> ascii_keys v then Inr (json_text E v) else Inl ContextMismatch)"
  using sorted_value_id [OF assms] by (simp add: canonical_context_bytes_def)

theorem canonical_bytes_spec_witness:
  "canonical_context_bytes sample_ext (jobj [(''b'', JInt 1), (''a'', JArr [JStr ''x''])]) =
     Inr (json_text sample_ext (jobj [(''b'', JInt 1), (''a'', JArr [JStr ''x''])]))"
proof -
  let ?v = "jobj [(''b'', JInt 1), (''a'', JArr [JStr ''x''])]"
  have "wf_json ?v" by (rule wf_jobj) simp
  moreover have "safe_numbers ?v \<and> ascii_keys ?v"
    by (simp add: jobj_def is_ascii_def MAX_SAFE_INTEGER_def)
  ultimately show ?thesis using canonical_bytes_spec [of ?v sample_ext] by simp
qed

subsection \<open>Disclosure\<close>

lemma room_wide_visible: "room_wide E e \<Longrightarrow> event_visible_to E e u"
  by (auto simp: room_wide_def event_visible_to_def jget_str_def text_field_def
      split: option.splits json.splits bind_splits if_splits)

lemma context_rows_events:
  "fst ` set (context_rows E room conversation generation base revision d) = set (context_messages E room base revision d)"
proof -
  have "fst ` set (left_join conversation generation d e) = {e}" for e
    by (cases "reply_turns conversation generation d e") (auto simp: left_join_def)
  then show ?thesis by (auto simp: context_rows_def image_UN image_image)
qed

lemma context_messages_set:
  "e \<in> set (context_messages E room base revision d) \<longleftrightarrow> e \<in> set (room_events d) \<and> ev_room_id e = room \<and>
     base < ev_sequence e \<and> ev_sequence e \<le> revision \<and> ev_event_type e = ''message.created'' \<and> room_wide E e"
  by (auto simp: context_messages_def)

lemma freeze_row_event:
  "freeze_row E conversation generation base row = Inr i \<Longrightarrow> jidx (snd i) ''eventId'' = juuid E (ev_event_id (fst row))"
  by (auto simp: freeze_row_def verify_reply_def Let_def reply_binding_def context_entry_def wire_simps result_simps
      split: option.splits if_splits)

lemma freeze_context_Inr:
  assumes "freeze_context E room conversation generation base revision policy d = Inr ctx"
  obtains items where
    "traverse (freeze_row E conversation generation base) (context_rows E room conversation generation base revision d) = Inr items"
    "length (context_rows E room conversation generation base revision d) \<le> cp_max_records policy"
    "jidx ctx ''revision'' = JInt revision" "jidx ctx ''baseRevision'' = JInt base"
    "elements ctx ''entries'' = map snd (filter (\<lambda>i. \<not> fst i) items)"
    "elements ctx ''nativeReplyBindings'' = map snd (filter fst items)"
    "elements ctx ''activeDecisions'' = map (context_decision E) (context_decisions E room revision d)"
    "\<exists>kvs. ctx = jobj kvs"
proof -
  from assms obtain items where items:
    "traverse (freeze_row E conversation generation base) (context_rows E room conversation generation base revision d) = Inr items"
    "length (context_rows E room conversation generation base revision d) \<le> cp_max_records policy"
    and ctx: "ctx = jobj [
            (''kind'', JStr (if base = 0 then ''baseline'' else ''delta'')),
            (''baseRevision'', JInt base),
            (''revision'', JInt revision),
            (''policyRevision'', JStr (cp_policy_revision policy)),
            (''entries'', JArr (map snd (filter (\<lambda>i. \<not> fst i) items))),
            (''activeDecisions'', JArr (map (context_decision E) (context_decisions E room revision d))),
            (''nativeReplyBindings'', JArr (map snd (filter fst items)))]"
    by (auto simp: freeze_context_def Let_def result_simps not_less split: if_split_asm)
  show thesis
    by (rule that [OF items]) (auto simp: ctx elements_def wire_simps)
qed

lemma build_context_Inr:
  assumes "build_context E room conversation generation base trigger policy d = Inr ctx"
  obtains e core bytes where "trigger_event E room trigger d = Some e" "0 \<le> base" "base < ev_sequence e"
    "freeze_context E room conversation generation base (ev_sequence e) policy d = Inr core"
    "canonical_context_bytes E (context_preimage E room conversation generation trigger policy core) = Inr bytes"
    "length bytes \<le> cp_max_context_bytes policy" "ctx = jset core ''digest'' (JStr (sha256_hex E bytes))"
  using assms that by (auto simp: build_context_def result_simps not_less not_le split: if_splits)

lemma digest_elements:
  "k \<noteq> ''digest'' \<Longrightarrow> elements (jset (jobj kvs) ''digest'' v) k = elements (jobj kvs) k \<and>
     jidx (jset (jobj kvs) ''digest'' v) k = jidx (jobj kvs) k"
  by (simp add: elements_def jidx_jset)

abbreviation shown_ids :: "json \<Rightarrow> json set" where
  \<comment> \<open>the messages a context shows or refers to\<close>
  "shown_ids ctx \<equiv> (\<lambda>x. jidx x ''eventId'') ` set (elements ctx ''entries'' @ elements ctx ''nativeReplyBindings'')"

lemma freeze_context_shown:
  assumes "freeze_context E room conversation generation base revision policy d = Inr ctx"
  shows "shown_ids ctx = juuid E ` ev_event_id ` set (context_messages E room base revision d)"
proof -
  let ?rows = "context_rows E room conversation generation base revision d"
  from assms obtain items where items: "traverse (freeze_row E conversation generation base) ?rows = Inr items"
    and el: "elements ctx ''entries'' = map snd (filter (\<lambda>i. \<not> fst i) items)"
      "elements ctx ''nativeReplyBindings'' = map snd (filter fst items)"
    by (rule freeze_context_Inr)
  have l2: "list_all2 (\<lambda>row i. freeze_row E conversation generation base row = Inr i) ?rows items"
    using items by (simp add: traverse_Inr_iff)
  then have "list_all2 (\<lambda>row i. jidx (snd i) ''eventId'' = juuid E (ev_event_id (fst row))) ?rows items"
    by (rule list_all2_mono) (rule freeze_row_event)
  then have "map (\<lambda>i. jidx (snd i) ''eventId'') items = map (\<lambda>row. juuid E (ev_event_id (fst row))) ?rows"
    by (induction rule: list_all2_induct) auto
  then have "(\<lambda>i. jidx (snd i) ''eventId'') ` set items = (\<lambda>row. juuid E (ev_event_id (fst row))) ` set ?rows"
    by (metis list.set_map)
  moreover have "shown_ids ctx = (\<lambda>i. jidx (snd i) ''eventId'') ` set items" unfolding el by auto
  ultimately show ?thesis
    unfolding context_rows_events [symmetric, of E room base revision d conversation generation] by (simp add: image_image)
qed



subsection \<open>The sources of a context\<close>

abbreviation source_ids :: "json list \<Rightarrow> json list" where
  "source_ids sources \<equiv> map (\<lambda>s. jidx s ''sourceId'') sources"

lemma add_source_ids:
  "set (source_ids (add_source kind i sources)) = insert i (set (source_ids sources))"
  "distinct (source_ids sources) \<Longrightarrow> distinct (source_ids (add_source kind i sources))"
  by (auto simp: add_source_def wire_simps)

lemma add_sources_ids:
  "set (source_ids (fold (\<lambda>x. add_source kind (f x)) xs sources)) = f ` set xs \<union> set (source_ids sources)"
  "distinct (source_ids sources) \<Longrightarrow> distinct (source_ids (fold (\<lambda>x. add_source kind (f x)) xs sources))"
proof (induction xs arbitrary: sources)
  case (Cons x xs)
  {
    case 1
    show ?case using Cons.IH(1) [of "add_source kind (f x) sources"] add_source_ids(1) [of kind "f x" sources] by auto
  next
    case 2
    show ?case using Cons.IH(2) [OF add_source_ids(2) [OF 2, of kind "f x"]] by simp
  }
qed simp_all

lemma add_events_ids:
  "set (source_ids (fold (add_source kind) xs sources)) = set xs \<union> set (source_ids sources)"
  "distinct (source_ids sources) \<Longrightarrow> distinct (source_ids (fold (add_source kind) xs sources))"
  using add_sources_ids [where kind = kind and f = "\<lambda>i. i" and xs = xs and sources = sources] by simp_all

definition decision_ids :: "json \<Rightarrow> json set" where
  "decision_ids decision = insert (jidx decision ''decisionId'') (set (elements decision ''sourceEventIds''))"

lemma add_decision_ids:
  fixes sources :: "json list"
  defines "step \<equiv> \<lambda>decision sources. fold (add_source ''event'') (elements decision ''sourceEventIds'')
    (add_source ''decision'' (jidx decision ''decisionId'') sources)"
  shows "set (source_ids (fold step xs sources)) = \<Union> (decision_ids ` set xs) \<union> set (source_ids sources)"
    "distinct (source_ids sources) \<Longrightarrow> distinct (source_ids (fold step xs sources))"
proof (induction xs arbitrary: sources)
  case (Cons x xs)
  {
    case 1
    have "set (source_ids (step x sources)) = decision_ids x \<union> set (source_ids sources)"
      unfolding step_def decision_ids_def add_events_ids(1) add_source_ids(1) by blast
    then show ?case using Cons.IH(1) [of "step x sources"] by auto
  next
    case 2
    have "distinct (source_ids (step x sources))"
      using add_events_ids(2) add_source_ids(2) [OF 2] unfolding step_def by blast
    then show ?case using Cons.IH(2) by simp
  }
qed simp_all

text \<open>
  The manifest of a context lists every source once: the messages shown or referred to, the decisions and
  the events the decisions rest on, and nothing else.
\<close>

theorem manifest_exact:
  "\<exists>sources. source_manifest ctx = JArr sources \<and> distinct (source_ids sources) \<and>
     set (source_ids sources) = shown_ids ctx \<union> (\<Union>decision \<in> set (elements ctx ''activeDecisions''). decision_ids decision)"
proof -
  let ?shown = "fold (\<lambda>entry. add_source ''event'' (jidx entry ''eventId''))
      (elements ctx ''entries'' @ elements ctx ''nativeReplyBindings'') []"
  have "set (source_ids ?shown) = shown_ids ctx" "distinct (source_ids ?shown)"
    using add_sources_ids [where kind = "''event''" and f = "\<lambda>e. jidx e ''eventId''" and sources = "[]"
        and xs = "elements ctx ''entries'' @ elements ctx ''nativeReplyBindings''"]
    by simp_all
  with add_decision_ids [where xs = "elements ctx ''activeDecisions''" and sources = ?shown] show ?thesis
    unfolding source_manifest_def by (intro exI conjI) (rule refl, simp_all only: Un_commute simp_thms)
qed

subsection \<open>A context\<close>

definition sample_policy :: conversation_policy where
  "sample_policy = default_policy
     \<lparr>cp_enabled := True, cp_policy_revision := ''p'', cp_guidance_revision := ''g'', cp_catalog_revision := ''c'',
      cp_model := ''m'', cp_reasoning_effort := ''e'', cp_models := [\<lparr>cm_id = ''m'', cm_reasoning_efforts = [''e'']\<rparr>]\<rparr>"

definition sample_prompt :: room_event where
  "sample_prompt = \<lparr>ev_event_id = 1, ev_room_id = 8, ev_sequence = 1, ev_request_id = 7,
     ev_event_type = ''message.created'', ev_actor_id = 2, ev_actor_role = ''human'', ev_actor_display_name = None,
     ev_payload = jobj [(''text'', JStr ''hi''), (''delivery'', JStr ''room''), (''audienceIds'', JArr [])],
     ev_occurred_at = 0\<rparr>"

definition prompt_db :: db where
  "prompt_db = empty_db\<lparr>room_events := [sample_prompt]\<rparr>"

lemma sample_policy_valid: "validate_policy sample_policy = Inr ()"
  by (simp add: sample_policy_def default_policy_def validate_policy_def valid_id_def model_ok_def char_count_def
      is_continuation_def resolve_settings_def offers_def Let_def wire_simps)

lemma sample_messages: "context_messages E 8 0 1 prompt_db = [sample_prompt]"
  by (simp add: context_messages_def prompt_db_def sample_prompt_def room_wide_def text_field_def by_sequence_def wire_simps)

lemma prompt_db_tables: "conversation_tasks prompt_db = []" "decisions prompt_db = []" "room_events prompt_db = [sample_prompt]"
  by (simp_all add: prompt_db_def empty_db_def)

lemma sample_context_ok: "\<exists>ctx. build_context sample_ext 8 20 1 0 1 sample_policy prompt_db = Inr ctx"
proof -
  let ?core = "jobj [(''kind'', JStr ''baseline''), (''baseRevision'', JInt 0), (''revision'', JInt 1),
    (''policyRevision'', JStr ''p''), (''entries'', JArr [context_entry sample_ext sample_prompt ''hi'']),
    (''activeDecisions'', JArr []), (''nativeReplyBindings'', JArr [])]"
  have trigger: "trigger_event sample_ext 8 1 prompt_db = Some sample_prompt"
    by (simp add: trigger_event_def prompt_db_def sample_prompt_def text_field_def wire_simps)
  have rows: "context_rows sample_ext 8 20 1 0 1 prompt_db = [(sample_prompt, None)]"
    by (simp add: context_rows_def sample_messages left_join_def reply_turns_def prompt_db_tables)
  have row: "freeze_row sample_ext 20 1 0 (sample_prompt, None) = Inr (False, context_entry sample_ext sample_prompt ''hi'')"
    by (simp add: freeze_row_def sample_prompt_def text_field_def native_reply_def wire_simps)
  have core: "freeze_context sample_ext 8 20 1 0 1 sample_policy prompt_db = Inr ?core"
    by (simp add: freeze_context_def rows row oversized_reply_def native_reply_def row_bytes_def context_decisions_def
        prompt_db_tables Let_def sample_policy_def default_policy_def)
      (simp add: sample_prompt_def text_field_def wire_simps)
  have "wf_json (context_preimage sample_ext 8 20 1 1 sample_policy ?core) \<and>
      safe_numbers (context_preimage sample_ext 8 20 1 1 sample_policy ?core) \<and>
      ascii_keys (context_preimage sample_ext 8 20 1 1 sample_policy ?core)"
    by (simp add: context_preimage_def context_entry_def sample_prompt_def jobj_def is_ascii_def MAX_SAFE_INTEGER_def)
  then have "canonical_context_bytes sample_ext (context_preimage sample_ext 8 20 1 1 sample_policy ?core) = Inr ''{}''"
    using sorted_value_id [of "context_preimage sample_ext 8 20 1 1 sample_policy ?core"]
    by (simp add: canonical_context_bytes_def sample_ext_def)
  moreover have "ev_sequence sample_prompt = 1" by (simp add: sample_prompt_def)
  ultimately show ?thesis
    using core by (simp add: build_context_def trigger MAX_SAFE_INTEGER_def sample_policy_def default_policy_def)
qed



end
