(* ===== verification/Conversation_Store.thy ===== *)
theory Conversation_Store
  imports Conversation_Context
begin

text \<open>
  \<open>src/conversation_store.rs\<close>: the life cycle of conversations and turns as transactions on the database.  A
  transaction that commits before it reports an error (the ones that fail an overdue turn) returns the error
  and the changed database.  Clock readings are arguments: \<open>clock n\<close> is the n-th reading of \<open>Utc::now()\<close> and
  \<open>db_now\<close> the \<open>CURRENT_TIMESTAMP\<close> of the transaction.
\<close>

record conversation_reservation =
  rv_accepted :: json
  rv_prompt :: "room_event option"

record conversation_update_outcome =
  uo_response :: json
  uo_event :: "room_event option"

definition uuid_field :: "ext \<Rightarrow> json \<Rightarrow> string \<Rightarrow> conversation_error + uuid" where
  "uuid_field E v k = ok_or InvalidTaskInput (parse_uuid_json E (jidx v k))"

definition optional_json :: "json \<Rightarrow> json option" where
  "optional_json v = (if is_null v then None else Some v)"

definition stored :: "ext \<Rightarrow> json \<Rightarrow> conversation_error + json" where
  \<comment> \<open>a document bound to a \<open>JSONB\<close> column\<close>
  "stored E v = ok_or RuntimeUnavailable (jsonb E v)"

definition stored_option :: "ext \<Rightarrow> json option \<Rightarrow> conversation_error + json option" where
  "stored_option E v = (case v of None \<Rightarrow> Inr None | Some w \<Rightarrow> rbind (stored E w) (\<lambda>w. Inr (Some w)))"

definition revision_ok :: "string \<Rightarrow> bool" where
  \<comment> \<open>\<open>CHECK (char_length(\<dots>) BETWEEN 1 AND 128)\<close> on a \<open>TEXT\<close> column\<close>
  "revision_ok s \<longleftrightarrow> s \<noteq> [] \<and> char_count s \<le> 128 \<and> text_ok s"

definition safe_integer :: "int \<Rightarrow> bool" where
  "safe_integer n \<longleftrightarrow> 1 \<le> n \<and> n \<le> MAX_SAFE_INTEGER"

definition set_conversation :: "uuid \<Rightarrow> (conversation_row \<Rightarrow> conversation_row) \<Rightarrow> db \<Rightarrow> db" where
  "set_conversation i f d =
     d\<lparr>agent_conversations := row_update (\<lambda>c. cv_conversation_id c = i) f (agent_conversations d)\<rparr>"

definition set_turn :: "uuid \<Rightarrow> (turn_row \<Rightarrow> turn_row) \<Rightarrow> db \<Rightarrow> db" where
  "set_turn i f d = d\<lparr>conversation_tasks := row_update (\<lambda>t. ct_task_id t = i) f (conversation_tasks d)\<rparr>"

definition insert_conversation :: "conversation_row \<Rightarrow> db \<Rightarrow> conversation_error + db" where
  \<comment> \<open>with the keys, the unique index on current conversations and the checks of the table\<close>
  "insert_conversation c d =
     rbind (ensure RuntimeUnavailable
       (\<not> list_ex (\<lambda>x. cv_conversation_id x = cv_conversation_id c \<or>
            cv_room_id x = cv_room_id c \<and> cv_agent_id x = cv_agent_id c \<and>
              (cv_generation x = cv_generation c \<or> cv_state x \<noteq> Conv_superseded)) (agent_conversations d) \<and>
        safe_integer (cv_generation c) \<and> revision_ok (cv_policy_revision c) \<and> revision_ok (cv_guidance_revision c)))
       (\<lambda>_. Inr (d\<lparr>agent_conversations := agent_conversations d @ [c]\<rparr>))"

definition insert_turn :: "turn_row \<Rightarrow> db \<Rightarrow> conversation_error + db" where
  \<comment> \<open>with the keys, the foreign keys and the checks of the table\<close>
  "insert_turn t d =
     rbind (ensure RuntimeUnavailable
       (\<not> list_ex (\<lambda>x. ct_task_id x = ct_task_id t \<or>
            ct_room_id x = ct_room_id t \<and> ct_request_id x = ct_request_id t) (conversation_tasks d) \<and>
        list_ex (\<lambda>r. rq_room_id r = ct_room_id t \<and> rq_request_id r = ct_request_id t) (room_requests d) \<and>
        list_ex (\<lambda>c. cv_conversation_id c = ct_conversation_id t \<and> cv_room_id c = ct_room_id t \<and>
            cv_agent_id c = ct_agent_id t \<and> cv_generation c = ct_generation t) (agent_conversations d) \<and>
        list_ex (\<lambda>e. ev_event_id e = ct_trigger_event_id t \<and> ev_room_id e = ct_room_id t) (room_events d) \<and>
        safe_integer (ct_generation t) \<and> safe_integer (ct_context_revision t) \<and> revision_ok (ct_policy_revision t) \<and>
        (case ct_frozen_input t of JObj _ \<Rightarrow> True | _ \<Rightarrow> False) \<and> as_array (ct_source_manifest t) \<noteq> None \<and>
        ct_issued_at t < ct_expires_at t \<and> ct_expires_at t \<le> ct_authorization_expires_at t \<and>
        ct_expires_at t \<le> ct_issued_at t + seconds 180))
       (\<lambda>_. Inr (d\<lparr>conversation_tasks := conversation_tasks d @ [t]\<rparr>))"

definition insert_update :: "turn_update_row \<Rightarrow> db \<Rightarrow> conversation_error + db" where
  "insert_update u d =
     rbind (ensure RuntimeUnavailable
       (\<not> list_ex (\<lambda>x. cu_task_id x = cu_task_id u \<and> (cu_update_id x = cu_update_id u \<or> cu_ordinal x = cu_ordinal u))
            (conversation_updates d) \<and>
        safe_integer (cu_ordinal u) \<and>
        cu_kind u \<in> {''progress'', ''settings'', ''usage'', ''completed'', ''failed''}))
       (\<lambda>_. Inr (d\<lparr>conversation_updates := conversation_updates d @ [u]\<rparr>))"

definition insert_update_request :: "turn_update_request_row \<Rightarrow> db \<Rightarrow> conversation_error + db" where
  "insert_update_request q d =
     rbind (ensure RuntimeUnavailable
       (\<not> list_ex (\<lambda>x. cq_task_id x = cq_task_id q \<and> (cq_update_id x = cq_update_id q \<or> cq_ordinal x = cq_ordinal q))
            (conversation_update_requests d) \<and>
        safe_integer (cq_ordinal q)))
       (\<lambda>_. Inr (d\<lparr>conversation_update_requests := conversation_update_requests d @ [q]\<rparr>))"

subsection \<open>Reserving a turn\<close>

record turn_plan =
  pl_request :: json
  pl_room :: uuid
  pl_request_id :: uuid
  pl_fingerprint :: json
  pl_mode :: string
  pl_current :: "conversation_row option"
  pl_conversation_id :: uuid
  pl_generation :: int
  pl_base :: int
  pl_settings :: json
  pl_now :: timestamp
  pl_authorization :: timestamp

datatype reservation_step = Replayed json | Planned turn_plan

definition current_conversation :: "uuid \<Rightarrow> db \<Rightarrow> conversation_row option" where
  "current_conversation room d =
     find (\<lambda>c. cv_room_id c = room \<and> cv_agent_id c = CODEX_AGENT_ID \<and> cv_state c \<noteq> Conv_superseded)
       (agent_conversations d)"

definition turn_fingerprint :: "ext \<Rightarrow> uuid \<Rightarrow> json \<Rightarrow> json" where
  "turn_fingerprint E requester request =
     jobj [(''method'', JStr ''agent-conversation.turn''), (''requesterId'', juuid E requester), (''intent'', request)]"

definition turn_minimum :: "conversation_policy \<Rightarrow> duration" where
  "turn_minimum policy = seconds (cp_turn_deadline_seconds policy + cp_interrupt_grace_seconds policy)"

definition place_turn ::
  "ext \<Rightarrow> conversation_policy \<Rightarrow> uuid \<Rightarrow> json \<Rightarrow> uuid \<Rightarrow> string option \<Rightarrow> string \<Rightarrow> conversation_row option \<Rightarrow> db \<Rightarrow>
   conversation_error + (uuid \<times> int \<times> int)" where
  \<comment> \<open>the conversation, its generation and the revision it has consumed\<close>
  "place_turn E policy fresh request room explicit_mode mode current d =
     (if mode = ''continue'' then
        rbind (ok_or ConversationStale current) (\<lambda>c.
          if cv_state c \<noteq> Conv_ready \<or> cv_policy_revision c \<noteq> cp_policy_revision policy \<or>
             cv_guidance_revision c \<noteq> cp_guidance_revision policy \<or>
             explicit_mode \<noteq> None \<and>
               (jidx (jidx request ''conversation'') ''id'' \<noteq> juuid E (cv_conversation_id c) \<or>
                jidx (jidx request ''conversation'') ''generation'' \<noteq> JInt (cv_generation c))
          then Inl ConversationStale
          else if cv_consumed_revision c \<le> 0 then Inl ContextMismatch
          else Inr (cv_conversation_id c, cv_generation c, cv_consumed_revision c))
      else
        let previous = max_key cv_generation
          (filter (\<lambda>c. cv_room_id c = room \<and> cv_agent_id c = CODEX_AGENT_ID) (agent_conversations d))
        in if previous \<ge> MAX_SAFE_INTEGER then Inl ConversationStale else Inr (fresh, previous + 1, 0))"

definition shared_settings :: "conversation_policy \<Rightarrow> string \<Rightarrow> conversation_row option \<Rightarrow> conversation_error + json option" where
  "shared_settings policy mode current =
     (if mode = ''continue'' then
        rbind (ok_or ConversationStale current) (\<lambda>c.
          Inr (Some (jobj [(''model'', jidx (cv_selected_settings c) ''model''),
                           (''reasoningEffort'', jidx (cv_selected_settings c) ''reasoningEffort''),
                           (''catalogRevision'', JStr (cp_catalog_revision policy))])))
      else Inr None)"

definition replay_turn :: "json \<Rightarrow> json \<Rightarrow> uuid \<Rightarrow> uuid \<Rightarrow> uuid \<Rightarrow> db \<Rightarrow> conversation_error + reservation_step" where
  "replay_turn prior fp room request_id requester d =
     (if prior \<noteq> fp then Inl DuplicateConflict
      else case find (\<lambda>t. ct_room_id t = room \<and> ct_request_id t = request_id \<and> ct_requester_id t = requester)
             (conversation_tasks d) of
        None \<Rightarrow> Inl DuplicateConflict
      | Some t \<Rightarrow> Inr (Replayed (ct_accepted_turn t)))"

definition plan_turn ::
  "ext \<Rightarrow> conversation_policy \<Rightarrow> uuid \<Rightarrow> json \<Rightarrow> uuid \<Rightarrow> uuid \<Rightarrow> json \<Rightarrow> timestamp \<Rightarrow> timestamp \<Rightarrow> db \<Rightarrow>
   conversation_error + turn_plan" where
  \<comment> \<open>the conversation the turn belongs to and its settings\<close>
  "plan_turn E policy fresh request room request_id fp now expiry d =
     (let current = current_conversation room d;
          explicit_mode = jget_str (jidx request ''conversation'') ''mode'';
          mode = (case explicit_mode of Some m \<Rightarrow> m | None \<Rightarrow> if current \<noteq> None then ''continue'' else ''new'')
      in rbind (ensure ConversationBusy
           (case current of None \<Rightarrow> True | Some c \<Rightarrow> cv_state c \<notin> {Conv_reserved, Conv_running})) (\<lambda>_.
         rbind (place_turn E policy fresh request room explicit_mode mode current d) (\<lambda>(conversation_id, generation, base).
         rbind (shared_settings policy mode current) (\<lambda>shared.
         rbind (resolve_settings policy
           (case jget request ''settings'' of Some s \<Rightarrow> Some s | None \<Rightarrow> shared)) (\<lambda>settings.
           Inr \<lparr>pl_request = request, pl_room = room, pl_request_id = request_id, pl_fingerprint = fp,
                pl_mode = mode, pl_current = current, pl_conversation_id = conversation_id,
                pl_generation = generation, pl_base = base, pl_settings = settings, pl_now = now,
                pl_authorization = expiry\<rparr>)))))"

definition reserve_prepare ::
  "ext \<Rightarrow> conversation_policy \<Rightarrow> ((room_participant list \<Rightarrow> room_participant list) \<times> presence) option \<Rightarrow> uuid \<Rightarrow>
   (nat \<Rightarrow> timestamp) \<Rightarrow> actor \<Rightarrow> json \<Rightarrow> timestamp \<Rightarrow> db \<Rightarrow> conversation_error + reservation_step" where
  \<comment> \<open>\<open>reserve_inner\<close> up to the catalog; \<open>fresh\<close> is the identifier of a new conversation\<close>
  "reserve_prepare E policy state fresh clock actor request authorization_expires_at d =
     rbind (authorize_conversation_turn E actor authorization_expires_at (clock 0) (turn_minimum policy)) (\<lambda>_.
     rbind (ensure RuntimeUnavailable (cp_enabled policy)) (\<lambda>_.
     rbind (validate_turn_request E request) (\<lambda>request.
     rbind (uuid_field E request ''roomId'') (\<lambda>room.
     rbind (uuid_field E request ''requestId'') (\<lambda>request_id.
     let fp = turn_fingerprint E (act_id actor) request; now = clock 1
     in rbind (authorize_conversation_turn E actor authorization_expires_at now (turn_minimum policy)) (\<lambda>expiry.
        case prior_request room request_id d of
          Some (prior, _) \<Rightarrow> replay_turn prior fp room request_id (act_id actor) d
        | None \<Rightarrow>
            rbind (case state of None \<Rightarrow> Inr ()
                   | Some (arrange, presence) \<Rightarrow>
                       validate_conversation_mentions E arrange presence room (jidx request ''mentions'') d) (\<lambda>_.
            rbind (plan_turn E policy fresh request room request_id fp now expiry d) (\<lambda>plan. Inr (Planned plan)))))))))"

definition prompt_event :: "ext \<Rightarrow> actor \<Rightarrow> turn_plan \<Rightarrow> timestamp \<Rightarrow> new_event" where
  "prompt_event E actor plan occurred_at =
     \<lparr>ne_room_id = pl_room plan, ne_request_id = pl_request_id plan, ne_event_type = ''message.created'',
      ne_actor_id = act_id actor, ne_actor_role = ''human'', ne_actor_display_name = Some (act_display_name actor),
      ne_payload = jobj [(''text'', jidx (pl_request plan) ''text''), (''mentions'', jidx (pl_request plan) ''mentions''),
                         (''delivery'', JStr ''room''), (''audienceIds'', JArr [])],
      ne_occurred_at = occurred_at\<rparr>"

definition frozen_input ::
  "ext \<Rightarrow> conversation_policy \<Rightarrow> actor \<Rightarrow> turn_plan \<Rightarrow> uuid \<Rightarrow> uuid \<Rightarrow> json \<Rightarrow> timestamp \<Rightarrow> json" where
  "frozen_input E policy actor plan task_id trigger ctx expires =
     jobj [(''profileVersion'', JStr PROFILE_VERSION), (''taskId'', juuid E task_id), (''roomId'', juuid E (pl_room plan)),
           (''requesterId'', juuid E (act_id actor)), (''agentId'', juuid E CODEX_AGENT_ID), (''skillId'', JStr ''chat''),
           (''conversation'', jobj [(''id'', juuid E (pl_conversation_id plan)),
                                    (''generation'', JInt (pl_generation plan)), (''mode'', JStr (pl_mode plan))]),
           (''triggerEventId'', juuid E trigger), (''context'', ctx),
           (''guidanceRevision'', JStr (cp_guidance_revision policy)), (''issuedAt'', jtime E (pl_now plan)),
           (''expiresAt'', jtime E expires), (''authorizationExpiresAt'', jtime E (pl_authorization plan)),
           (''model'', jidx (pl_settings plan) ''model''),
           (''reasoningEffort'', jidx (pl_settings plan) ''reasoningEffort''),
           (''catalogRevision'', jidx (pl_settings plan) ''catalogRevision'')]"

definition accepted_turn :: "ext \<Rightarrow> turn_plan \<Rightarrow> uuid \<Rightarrow> room_event \<Rightarrow> json" where
  "accepted_turn E plan task_id prompt =
     jobj [(''profileVersion'', JStr PROFILE_VERSION), (''roomId'', juuid E (pl_room plan)), (''taskId'', juuid E task_id),
           (''conversationId'', juuid E (pl_conversation_id plan)), (''generation'', JInt (pl_generation plan)),
           (''triggerEventId'', juuid E (ev_event_id prompt)), (''contextRevision'', JInt (ev_sequence prompt)),
           (''selectedSettings'', pl_settings plan)]"

definition enter_conversation ::
  "ext \<Rightarrow> conversation_policy \<Rightarrow> turn_plan \<Rightarrow> uuid \<Rightarrow> json \<Rightarrow> db \<Rightarrow> conversation_error + db" where
  \<comment> \<open>a new conversation supersedes the current one, a continued one becomes reserved again\<close>
  "enter_conversation E policy plan task_id settings d =
     (let now = pg_time E (pl_now plan)
      in if pl_mode plan = ''new'' then
        insert_conversation
          \<lparr>cv_conversation_id = pl_conversation_id plan, cv_room_id = pl_room plan, cv_agent_id = CODEX_AGENT_ID,
           cv_generation = pl_generation plan, cv_state = Conv_reserved, cv_consumed_revision = 0,
           cv_policy_revision = cp_policy_revision policy, cv_guidance_revision = cp_guidance_revision policy,
           cv_selected_settings = settings, cv_active_task_id = Some task_id,
           cv_created_at = now, cv_updated_at = now\<rparr>
          (case pl_current plan of
             None \<Rightarrow> d
           | Some previous \<Rightarrow>
               set_conversation (cv_conversation_id previous)
                 (\<lambda>c. c\<lparr>cv_state := Conv_superseded, cv_active_task_id := None, cv_updated_at := now\<rparr>) d)
      else
        Inr (set_conversation (pl_conversation_id plan)
          (\<lambda>c. c\<lparr>cv_state := Conv_reserved, cv_active_task_id := Some task_id, cv_selected_settings := settings,
                 cv_updated_at := now\<rparr>) d))"

definition reserved_turn ::
  "ext \<Rightarrow> conversation_policy \<Rightarrow> actor \<Rightarrow> turn_plan \<Rightarrow> uuid \<Rightarrow> uuid \<Rightarrow> int \<Rightarrow> json \<Rightarrow> json \<Rightarrow> json \<Rightarrow> json \<Rightarrow> timestamp \<Rightarrow> turn_row" where
  "reserved_turn E policy actor plan task_id trigger revision frozen settings sources accepted expires =
     \<lparr>ct_task_id = task_id, ct_room_id = pl_room plan, ct_request_id = pl_request_id plan,
      ct_requester_id = act_id actor, ct_agent_id = CODEX_AGENT_ID, ct_conversation_id = pl_conversation_id plan,
      ct_generation = pl_generation plan, ct_trigger_event_id = trigger, ct_context_revision = revision,
      ct_state = Turn_reserved, ct_frozen_input = frozen, ct_selected_settings = settings,
      ct_source_manifest = sources, ct_policy_revision = cp_policy_revision policy,
      ct_authorization_expires_at = pg_time E (pl_authorization plan), ct_issued_at = pg_time E (pl_now plan),
      ct_expires_at = pg_time E expires, ct_lease_owner = None, ct_lease_expires_at = None, ct_lease_token = None,
      ct_receipt_acknowledgement = None, ct_reply_event_id = None, ct_created_at = pg_time E (pl_now plan),
      ct_updated_at = pg_time E (pl_now plan), ct_accepted_turn = accepted, ct_result = None, ct_failure = None,
      ct_effective_settings = None, ct_usage = None, ct_last_update_ordinal = 0, ct_last_progress_at = None\<rparr>"

definition reserve_commit ::
  "ext \<Rightarrow> conversation_policy \<Rightarrow> uuid \<Rightarrow> uuid \<Rightarrow> timestamp \<Rightarrow> actor \<Rightarrow> turn_plan \<Rightarrow> db \<Rightarrow>
   conversation_error + (conversation_reservation \<times> db)" where
  \<comment> \<open>\<open>reserve_inner\<close> from the catalog on\<close>
  "reserve_commit E policy task_id event_id last_clock actor plan d =
     rbind (ok_or InvalidTaskInput (Option.bind (jget_str (pl_request plan) ''occurredAt'') (time_parse E))) (\<lambda>occurred_at.
     rbind (unavailable (append_event_in_transaction E event_id (prompt_event E actor plan occurred_at) d)) (\<lambda>(prompt, d).
     rbind (ensure ContextMismatch (ev_sequence prompt \<le> MAX_SAFE_INTEGER)) (\<lambda>_.
     rbind (build_context E (pl_room plan) (pl_conversation_id plan) (pl_generation plan) (pl_base plan)
              (ev_event_id prompt) policy d) (\<lambda>ctx.
     let expires = pl_now plan + seconds (cp_turn_deadline_seconds policy);
         frozen = frozen_input E policy actor plan task_id (ev_event_id prompt) ctx expires;
         accepted = accepted_turn E plan task_id prompt
     in rbind (validate_profile_value E ''reserved-input'' frozen) (\<lambda>_.
        rbind (validate_profile_value E ''task'' accepted) (\<lambda>_.
        rbind (unavailable (record_request E (pl_room plan) (pl_request_id plan) (pl_fingerprint plan) [prompt] d)) (\<lambda>d.
        rbind (stored E (pl_settings plan)) (\<lambda>settings.
        rbind (enter_conversation E policy plan task_id settings d) (\<lambda>d.
        rbind (uuid_field E accepted ''triggerEventId'') (\<lambda>trigger.
        rbind (ok_or RuntimeUnavailable (as_i64 (jidx accepted ''contextRevision''))) (\<lambda>revision.
        rbind (stored E frozen) (\<lambda>frozen.
        rbind (stored E (source_manifest ctx)) (\<lambda>sources.
        rbind (stored E accepted) (\<lambda>accepted_row.
        rbind (insert_turn (reserved_turn E policy actor plan task_id trigger revision frozen settings sources
                 accepted_row expires) d) (\<lambda>d.
        rbind (authorize_conversation_turn E actor (pl_authorization plan) last_clock (turn_minimum policy)) (\<lambda>_.
          Inr (\<lparr>rv_accepted = accepted, rv_prompt = Some prompt\<rparr>, d)))))))))))))))))"

definition reserve_inner ::
  "ext \<Rightarrow> conversation_policy \<Rightarrow> ((room_participant list \<Rightarrow> room_participant list) \<times> presence) option \<Rightarrow> 's catalog option \<Rightarrow>
   (nat \<Rightarrow> uuid) \<Rightarrow> (nat \<Rightarrow> timestamp) \<Rightarrow> actor \<Rightarrow> json \<Rightarrow> timestamp \<Rightarrow> 's \<Rightarrow> db \<Rightarrow>
   (conversation_error + (conversation_reservation \<times> db)) \<times> 's" where
  "reserve_inner E policy state catalog fresh clock actor request authorization_expires_at s d =
     (case reserve_prepare E policy state (fresh 0) clock actor request authorization_expires_at d of
        Inl e \<Rightarrow> (Inl e, s)
      | Inr (Replayed accepted) \<Rightarrow> (Inr (\<lparr>rv_accepted = accepted, rv_prompt = None\<rparr>, d), s)
      | Inr (Planned plan) \<Rightarrow>
          (case catalog of
             None \<Rightarrow> (reserve_commit E policy (fresh 1) (fresh 2) (clock 2) actor plan d, s)
           | Some page \<Rightarrow>
               (case validate_catalog_selection E page policy (pl_settings plan) s of
                  (None, s) \<Rightarrow> (Inl RuntimeUnavailable, s)
                | (Some (Inl e), s) \<Rightarrow> (Inl e, s)
                | (Some (Inr _), s) \<Rightarrow> (reserve_commit E policy (fresh 1) (fresh 2) (clock 2) actor plan d, s))))"

subsection \<open>Authority and failure\<close>

definition require_enabled :: "conversation_policy \<Rightarrow> uuid \<Rightarrow> conversation_error + unit" where
  "require_enabled policy agent =
     (if agent \<noteq> CODEX_AGENT_ID then Inl Conversation_Forbidden
      else if \<not> cp_enabled policy then Inl RuntimeUnavailable else Inr ())"

definition task_in_transaction :: "uuid \<Rightarrow> db \<Rightarrow> conversation_error + (turn_row \<times> conversation_row)" where
  \<comment> \<open>the turn joined with its conversation\<close>
  "task_in_transaction task d =
     ok_or SessionUnavailable
       (Option.bind (find (\<lambda>t. ct_task_id t = task \<and> ct_agent_id t = CODEX_AGENT_ID) (conversation_tasks d)) (\<lambda>t.
          map_option (\<lambda>c. (t, c))
            (find (\<lambda>c. cv_conversation_id c = ct_conversation_id t \<and> cv_room_id c = ct_room_id t \<and>
               cv_agent_id c = ct_agent_id t \<and> cv_generation c = ct_generation t) (agent_conversations d))))"

definition turn_live :: "turn_row \<Rightarrow> bool" where
  \<comment> \<open>\<open>matches!(state, "reserved" | "running")\<close>\<close>
  "turn_live t \<longleftrightarrow> ct_state t = Turn_reserved \<or> ct_state t = Turn_running"

definition policy_still_fits :: "conversation_policy \<Rightarrow> turn_row \<Rightarrow> bool" where
  "policy_still_fits policy t \<longleftrightarrow> ct_policy_revision t = cp_policy_revision policy \<and>
     jidx (ct_frozen_input t) ''guidanceRevision'' = JStr (cp_guidance_revision policy) \<and>
     offers policy (jidx (ct_frozen_input t) ''model'') (jidx (ct_frozen_input t) ''reasoningEffort'')"

definition task_authority ::
  "conversation_policy \<Rightarrow> timestamp \<Rightarrow> turn_row \<times> conversation_row \<Rightarrow> uuid option \<Rightarrow> bool \<Rightarrow> conversation_error + unit" where
  "task_authority policy now row lease claiming =
     (case row of (t, c) \<Rightarrow>
        rbind (require_enabled policy (ct_agent_id t)) (\<lambda>_.
          if \<not> policy_still_fits policy t then Inl Conversation_Forbidden
          else if ct_authorization_expires_at t \<le> now then Inl AuthenticationRequired
          else if ct_expires_at t \<le> now then Inl Timed_out
          else if \<not> turn_live t \<or> cv_active_task_id c \<noteq> Some (ct_task_id t) \<or>
                  cv_state c \<notin> {Conv_reserved, Conv_running} then Inl ConversationStale
          else if claiming then
            (if ct_state t \<noteq> Turn_reserved \<or> ct_lease_token t \<noteq> None then Inl ConversationInterrupted else Inr ())
          else if lease = None \<or> ct_lease_token t \<noteq> lease then Inl Conversation_Forbidden
          else if (case ct_lease_expires_at t of None \<Rightarrow> True | Some expiry \<Rightarrow> expiry \<le> now)
          then Inl ConversationInterrupted
          else Inr ()))"

definition fail_task_state ::
  "ext \<Rightarrow> timestamp \<Rightarrow> turn_row \<times> conversation_row \<Rightarrow> conversation_error \<Rightarrow> db \<Rightarrow> conversation_error + db" where
  "fail_task_state E db_now row error d =
     (case row of (t, c) \<Rightarrow>
        rbind (stored E (jobj [(''code'', JStr (error_code error)), (''message'', JStr (error_code error))])) (\<lambda>failure.
          Inr (d\<lparr>conversation_tasks := row_update (\<lambda>x. ct_task_id x = ct_task_id t \<and> turn_live x)
                  (\<lambda>x. x\<lparr>ct_state := Turn_failed, ct_failure := Some failure, ct_updated_at := db_now\<rparr>)
                  (conversation_tasks d),
                agent_conversations := row_update (\<lambda>x. cv_conversation_id x = ct_conversation_id t \<and>
                    cv_active_task_id x = Some (ct_task_id t))
                  (\<lambda>x. x\<lparr>cv_state := Conv_unusable, cv_active_task_id := None, cv_updated_at := db_now\<rparr>)
                  (agent_conversations d)\<rparr>)))"

definition fail_task ::
  "ext \<Rightarrow> timestamp \<Rightarrow> uuid \<Rightarrow> turn_row \<times> conversation_row \<Rightarrow> conversation_error \<Rightarrow> db \<Rightarrow> conversation_error + db" where
  \<comment> \<open>\<open>update_id\<close> is fresh\<close>
  "fail_task E db_now update_id row error d =
     rbind (fail_task_state E db_now row error d) (\<lambda>d.
     let ordinal = ct_last_update_ordinal (fst row) + 1
     in rbind (ensure ExecutionFailed (ordinal \<le> i64_max \<and> ordinal \<le> MAX_SAFE_INTEGER)) (\<lambda>_.
        rbind (stored E (jobj [(''code'', JStr (error_code error))])) (\<lambda>data.
        rbind (insert_update \<lparr>cu_task_id = ct_task_id (fst row), cu_update_id = update_id, cu_ordinal = ordinal,
                 cu_kind = ''failed'', cu_occurred_at = db_now, cu_data = data\<rparr> d) (\<lambda>d.
          Inr (set_turn (ct_task_id (fst row)) (\<lambda>t. t\<lparr>ct_last_update_ordinal := ordinal\<rparr>) d)))))"

definition failure_code :: "string \<Rightarrow> conversation_error + conversation_error" where
  "failure_code code =
     ok_or InvalidTaskInput (find (\<lambda>e. error_code e = code)
       [InvalidTaskInput, Conversation_Forbidden, ConversationBusy, ConversationStale, ContextMismatch,
        ContextTooLarge, RuntimeUnavailable, AuthenticationRequired, SessionUnavailable, Timed_out,
        ConversationInterrupted, ExecutionFailed, DuplicateConflict])"

subsection \<open>Claiming\<close>

definition claim_candidates :: "timestamp \<Rightarrow> db \<Rightarrow> turn_row list" where
  \<comment> \<open>reserved turns, and running ones whose lease, deadline or authority has run out, oldest first\<close>
  "claim_candidates db_now d =
     sort_key (\<lambda>t. (ct_created_at t, ct_task_id t))
       (filter (\<lambda>t. ct_agent_id t = CODEX_AGENT_ID \<and>
          (ct_state t = Turn_reserved \<or>
           ct_state t = Turn_running \<and>
             ((case ct_lease_expires_at t of None \<Rightarrow> False | Some expiry \<Rightarrow> expiry \<le> db_now) \<or>
              ct_expires_at t \<le> db_now \<or> ct_authorization_expires_at t \<le> db_now)))
         (conversation_tasks d))"

datatype claim_step = Nothing_to_claim | Failed_overdue | Claimed json

record claim_input =
  ci_db_now :: timestamp
  ci_now :: timestamp
  ci_token :: uuid
  ci_failure_id :: uuid

definition leased_packet :: "ext \<Rightarrow> json \<Rightarrow> json \<Rightarrow> json \<Rightarrow> json" where
  "leased_packet E frozen owner expiry = jset (jset frozen ''leaseOwner'' owner) ''leaseExpiresAt'' expiry"

definition lease_turn ::
  "ext \<Rightarrow> conversation_policy \<Rightarrow> string \<Rightarrow> claim_input \<Rightarrow> turn_row \<Rightarrow> db \<Rightarrow> conversation_error + (claim_step \<times> db)" where
  "lease_turn E policy owner i t d =
     (let lease_expiry = min (ct_expires_at t + seconds (cp_interrupt_grace_seconds policy)) (ct_authorization_expires_at t);
          packet = leased_packet E (ct_frozen_input t) (JStr owner) (jtime E lease_expiry)
      in rbind (ensure RuntimeUnavailable (revision_ok owner)) (\<lambda>_.
         rbind (validate_profile_value E ''input'' packet) (\<lambda>_.
           Inr (Claimed (jobj [(''packet'', packet), (''leaseToken'', juuid E (ci_token i))]),
             set_conversation (ct_conversation_id t)
               (\<lambda>c. c\<lparr>cv_state := Conv_running, cv_updated_at := ci_db_now i\<rparr>)
               (set_turn (ct_task_id t)
                 (\<lambda>t. t\<lparr>ct_state := Turn_running, ct_lease_owner := Some owner, ct_lease_token := Some (ci_token i),
                        ct_lease_expires_at := Some (pg_time E lease_expiry), ct_updated_at := ci_db_now i\<rparr>) d)))))"

definition claim_once ::
  "ext \<Rightarrow> conversation_policy \<Rightarrow> string \<Rightarrow> claim_input \<Rightarrow> db \<Rightarrow> conversation_error + (claim_step \<times> db)" where
  \<comment> \<open>one round of the loop, a transaction of its own\<close>
  "claim_once E policy owner i d =
     (case claim_candidates (ci_db_now i) d of
        [] \<Rightarrow> Inr (Nothing_to_claim, d)
      | candidate # _ \<Rightarrow>
          rbind (task_in_transaction (ct_task_id candidate) d) (\<lambda>row.
            case task_authority policy (ci_now i) row None True of
              Inl error \<Rightarrow>
                rbind (fail_task E (ci_db_now i) (ci_failure_id i) row error d) (\<lambda>d. Inr (Failed_overdue, d))
            | Inr _ \<Rightarrow> lease_turn E policy owner i (fst row) d))"

fun claim_rounds ::
  "ext \<Rightarrow> conversation_policy \<Rightarrow> string \<Rightarrow> (nat \<Rightarrow> claim_input) \<Rightarrow> (nat \<Rightarrow> db \<Rightarrow> db) \<Rightarrow> nat \<Rightarrow> db \<Rightarrow>
   (conversation_error + json option) \<times> db" where
  \<comment> \<open>\<open>others n\<close> is what other transactions did before the round with n rounds left\<close>
  "claim_rounds E policy owner inputs others 0 d = (Inr None, d)"
| "claim_rounds E policy owner inputs others (Suc n) d =
     (let d = others n d
      in case claim_once E policy owner (inputs n) d of
           Inl e \<Rightarrow> (Inl e, d)
         | Inr (Nothing_to_claim, _) \<Rightarrow> (Inr None, d)
         | Inr (Failed_overdue, d) \<Rightarrow> claim_rounds E policy owner inputs others n d
         | Inr (Claimed v, d) \<Rightarrow> (Inr (Some v), d))"

definition claim_turn ::
  "ext \<Rightarrow> conversation_policy \<Rightarrow> string \<Rightarrow> (nat \<Rightarrow> claim_input) \<Rightarrow> (nat \<Rightarrow> db \<Rightarrow> db) \<Rightarrow> db \<Rightarrow>
   (conversation_error + json option) \<times> db" where
  "claim_turn E policy owner inputs others d =
     (case require_enabled policy CODEX_AGENT_ID of
        Inl e \<Rightarrow> (Inl e, d)
      | Inr _ \<Rightarrow>
          if owner = [] \<or> char_count owner > 128 then (Inl InvalidTaskInput, d)
          else claim_rounds E policy owner inputs others 100 d)"

subsection \<open>Reading a turn\<close>

definition owned_room :: "uuid \<Rightarrow> db \<Rightarrow> conversation_error + uuid" where
  "owned_room task d =
     ok_or SessionUnavailable (map_option ct_room_id
       (find (\<lambda>t. ct_task_id t = task \<and> ct_agent_id t = CODEX_AGENT_ID) (conversation_tasks d)))"

definition packet_fails :: "conversation_error \<Rightarrow> bool" where
  "packet_fails error \<longleftrightarrow> error \<in> {Timed_out, AuthenticationRequired, ConversationInterrupted, Conversation_Forbidden, RuntimeUnavailable}"

definition turn_packet ::
  "ext \<Rightarrow> conversation_policy \<Rightarrow> timestamp \<Rightarrow> timestamp \<Rightarrow> uuid \<Rightarrow> uuid \<Rightarrow> uuid \<Rightarrow> db \<Rightarrow> (conversation_error + json) \<times> db" where
  "turn_packet E policy db_now now failure_id task lease d =
     (case rbind (owned_room task d) (\<lambda>_. task_in_transaction task d) of
        Inl e \<Rightarrow> (Inl e, d)
      | Inr (t, c) \<Rightarrow>
          (case task_authority policy now (t, c) (Some lease) False of
             Inl error \<Rightarrow>
               if ct_lease_token t = Some lease \<and> packet_fails error \<and> turn_live t then
                 (case fail_task E db_now failure_id (t, c) error d of
                    Inl e \<Rightarrow> (Inl e, d)
                  | Inr d' \<Rightarrow> (Inl error, d'))
               else (Inl error, d)
           | Inr _ \<Rightarrow>
               let packet = leased_packet E (ct_frozen_input t) (jopt JStr (ct_lease_owner t))
                              (jopt (jtime E) (ct_lease_expires_at t))
               in (rbind (validate_profile_value E ''input'' packet) (\<lambda>_. Inr packet), d)))"

definition receipt :: "ext \<Rightarrow> conversation_policy \<Rightarrow> uuid \<Rightarrow> db \<Rightarrow> conversation_error + json" where
  "receipt E policy task d =
     rbind (require_enabled policy CODEX_AGENT_ID) (\<lambda>_.
     rbind (ok_or SessionUnavailable
              (find (\<lambda>t. ct_task_id t = task \<and> ct_agent_id t = CODEX_AGENT_ID) (conversation_tasks d))) (\<lambda>t.
       Inr (jobj [(''profileVersion'', JStr PROFILE_VERSION), (''taskId'', juuid E task),
                  (''conversationId'', juuid E (ct_conversation_id t)), (''generation'', JInt (ct_generation t)),
                  (''state'', JStr (turn_state_str (ct_state t))),
                  (''acknowledgement'', jopt id (ct_receipt_acknowledgement t)),
                  (''result'', jopt id (ct_result t))])))"

definition latest_turn :: "uuid \<Rightarrow> db \<Rightarrow> turn_row option" where
  \<comment> \<open>\<open>ORDER BY created_at DESC,task_id DESC LIMIT 1\<close>\<close>
  "latest_turn conversation d =
     (case sort_key (\<lambda>t. (ct_created_at t, ct_task_id t))
        (filter (\<lambda>t. ct_conversation_id t = conversation) (conversation_tasks d)) of
        [] \<Rightarrow> None | ts \<Rightarrow> Some (last ts))"

definition conversation_json :: "ext \<Rightarrow> db \<Rightarrow> conversation_row \<Rightarrow> json" where
  "conversation_json E d c =
     (let t = latest_turn (cv_conversation_id c) d
      in jobj [(''id'', juuid E (cv_conversation_id c)), (''generation'', JInt (cv_generation c)),
               (''state'', JStr (conversation_state_str (cv_state c))),
               (''activeTaskId'', jopt (juuid E) (cv_active_task_id c)),
               (''consumedRevision'', JInt (cv_consumed_revision c)),
               (''policyRevision'', JStr (cv_policy_revision c)),
               (''guidanceRevision'', JStr (cv_guidance_revision c)),
               (''selectedSettings'', cv_selected_settings c),
               (''effectiveSettings'', jopt id (Option.bind t ct_effective_settings)),
               (''usage'', jopt id (Option.bind t ct_usage))])"

definition conversation_view :: "ext \<Rightarrow> conversation_policy \<Rightarrow> uuid \<Rightarrow> uuid \<Rightarrow> db \<Rightarrow> conversation_error + json" where
  "conversation_view E policy room agent d =
     rbind (require_enabled policy agent) (\<lambda>_.
     let row = find (\<lambda>c. cv_room_id c = room \<and> cv_agent_id c = agent \<and> cv_state c \<noteq> Conv_superseded) (agent_conversations d);
         view = jobj [(''profileVersion'', JStr PROFILE_VERSION), (''roomId'', juuid E room), (''agentId'', juuid E agent),
                      (''conversation'', jopt (conversation_json E d) row)]
     in rbind (validate_profile_value E ''view'' view) (\<lambda>_. Inr view))"

definition turn_updates :: "uuid \<Rightarrow> db \<Rightarrow> turn_update_row list" where
  "turn_updates task d = filter (\<lambda>u. cu_task_id u = task) (conversation_updates d)"

definition update_json :: "ext \<Rightarrow> turn_update_row \<Rightarrow> json" where
  "update_json E u =
     jobj [(''updateId'', juuid E (cu_update_id u)), (''ordinal'', JInt (cu_ordinal u)), (''kind'', JStr (cu_kind u)),
           (''occurredAt'', jtime E (cu_occurred_at u)), (''data'', cu_data u)]"

definition task_view :: "ext \<Rightarrow> conversation_policy \<Rightarrow> uuid \<Rightarrow> uuid \<Rightarrow> db \<Rightarrow> conversation_error + json" where
  "task_view E policy room task d =
     rbind (require_enabled policy CODEX_AGENT_ID) (\<lambda>_.
     rbind (ok_or SessionUnavailable
              (find (\<lambda>t. ct_task_id t = task \<and> ct_room_id t = room \<and> ct_agent_id t = CODEX_AGENT_ID)
                (conversation_tasks d))) (\<lambda>t.
     let updates = map (update_json E) (take 256 (sort_key cu_ordinal (turn_updates task d)));
         view = jobj [(''profileVersion'', JStr PROFILE_VERSION), (''roomId'', juuid E room), (''taskId'', juuid E task),
           (''conversationId'', juuid E (ct_conversation_id t)), (''generation'', JInt (ct_generation t)),
           (''requesterId'', juuid E (ct_requester_id t)), (''state'', JStr (turn_state_str (ct_state t))),
           (''selectedSettings'', ct_selected_settings t),
           (''effectiveSettings'', jopt id (ct_effective_settings t)), (''usage'', jopt id (ct_usage t)),
           (''updates'', JArr updates), (''result'', jopt id (ct_result t)),
           (''replyEventId'', jopt (juuid E) (ct_reply_event_id t)), (''failure'', jopt id (ct_failure t))]
     in rbind (validate_profile_value E ''task'' view) (\<lambda>_. Inr view)))"

subsection \<open>Reporting on a turn\<close>

definition validate_metadata :: "json option \<Rightarrow> json option \<Rightarrow> conversation_error + unit" where
  "validate_metadata settings usage =
     ensure InvalidTaskInput (\<not>
       ((case settings of None \<Rightarrow> False
         | Some v \<Rightarrow> jidx v ''confirmation'' = JStr ''confirmed'' \<and>
             (is_null (jidx v ''model'') \<or> is_null (jidx v ''reasoningEffort''))) \<or>
        (case usage of None \<Rightarrow> False
         | Some v \<Rightarrow> is_null (jidx v ''modelContextWindow'') \<and> jidx v ''freshness'' \<noteq> JStr ''unavailable'')))"

definition check_metadata :: "string \<Rightarrow> json \<Rightarrow> conversation_error + unit" where
  "check_metadata kind data =
     (if kind = ''settings'' then validate_metadata (Some data) None
      else if kind = ''usage'' then validate_metadata None (Some data)
      else if kind = ''completed'' then
        validate_metadata (optional_json (jidx data ''effectiveSettings'')) (optional_json (jidx data ''usage''))
      else Inr ())"

definition event_citable :: "ext \<Rightarrow> uuid \<Rightarrow> uuid \<Rightarrow> db \<Rightarrow> bool" where
  "event_citable E room i d = list_ex (\<lambda>e. ev_event_id e = i \<and> ev_room_id e = room \<and> room_wide E e) (room_events d)"

definition decision_citable :: "ext \<Rightarrow> uuid \<Rightarrow> uuid \<Rightarrow> db \<Rightarrow> bool" where
  "decision_citable E room i d =
     list_ex (\<lambda>x. dc_decision_id x = i \<and> dc_room_id x = room \<and> sources_room_wide E (\<lambda>_. True) d x) (decisions d)"

definition check_citation :: "ext \<Rightarrow> uuid \<Rightarrow> json list \<Rightarrow> db \<Rightarrow> json \<Rightarrow> conversation_error + unit" where
  "check_citation E room sources d citation =
     rbind (ok_or Conversation_Forbidden (find (\<lambda>s. jidx s ''sourceId'' = citation) sources)) (\<lambda>source.
     rbind (uuid_field E source ''sourceId'') (\<lambda>i.
       ensure Conversation_Forbidden
         (if jidx source ''sourceKind'' = JStr ''event'' then event_citable E room i d else decision_citable E room i d)))"

definition validate_citations ::
  "ext \<Rightarrow> conversation_policy \<Rightarrow> turn_row \<Rightarrow> json \<Rightarrow> db \<Rightarrow> conversation_error + unit" where
  "validate_citations E policy t reply d =
     rbind (ok_or ContextMismatch (as_array (ct_source_manifest t))) (\<lambda>sources.
     rbind (ok_or InvalidTaskInput (as_array (jidx reply ''citations''))) (\<lambda>citations.
     rbind (traverse (\<lambda>v. ok_or InvalidTaskInput (parse_uuid_json E v)) citations) (\<lambda>cited_ids.
     let disclosed = filter (\<lambda>x. di_conversation_id x = ct_conversation_id t \<and>
           di_policy_revision x = cp_policy_revision policy \<and> di_source_id x \<in> set cited_ids) (conversation_disclosures d);
         sources = sources @ map (\<lambda>x. jobj [(''sourceId'', juuid E (di_source_id x)),
           (''sourceKind'', JStr (di_source_kind x))]) disclosed
     in rbind (traverse (check_citation E (ct_room_id t) sources d) citations) (\<lambda>_. Inr ()))))"

definition disclose :: "ext \<Rightarrow> conversation_policy \<Rightarrow> turn_row \<Rightarrow> json \<Rightarrow> db \<Rightarrow> conversation_error + db" where
  \<comment> \<open>\<open>INSERT INTO conversation_disclosures \<dots> ON CONFLICT(conversation_id,source_id) DO NOTHING\<close>\<close>
  "disclose E policy t source d =
     rbind (uuid_field E source ''sourceId'') (\<lambda>i.
     rbind (ok_or RuntimeUnavailable (jget_str source ''sourceKind'')) (\<lambda>kind.
     rbind (ensure RuntimeUnavailable (kind \<in> {''event'', ''decision''} \<and> revision_ok (cp_policy_revision policy))) (\<lambda>_.
       Inr (if list_ex (\<lambda>x. di_conversation_id x = ct_conversation_id t \<and> di_source_id x = i) (conversation_disclosures d)
            then d
            else d\<lparr>conversation_disclosures := conversation_disclosures d @
              [\<lparr>di_conversation_id = ct_conversation_id t, di_source_id = i, di_source_kind = kind,
                di_first_task_id = ct_task_id t, di_policy_revision = cp_policy_revision policy,
                di_disclosed_revision = ct_context_revision t\<rparr>]\<rparr>))))"

fun disclose_all :: "ext \<Rightarrow> conversation_policy \<Rightarrow> turn_row \<Rightarrow> json list \<Rightarrow> db \<Rightarrow> conversation_error + db" where
  "disclose_all E policy t [] d = Inr d"
| "disclose_all E policy t (source # sources) d =
     rbind (disclose E policy t source d) (\<lambda>d. disclose_all E policy t sources d)"

definition reply_event :: "turn_row \<Rightarrow> json \<Rightarrow> timestamp \<Rightarrow> new_event" where
  "reply_event t data now =
     \<lparr>ne_room_id = ct_room_id t, ne_request_id = ct_request_id t, ne_event_type = ''message.created'',
      ne_actor_id = CODEX_AGENT_ID, ne_actor_role = ''agent'', ne_actor_display_name = Some ''Codex Agent'',
      ne_payload = jobj [(''text'', jidx data ''assistantText''), (''delivery'', JStr ''room''),
                         (''mentions'', JArr []), (''audienceIds'', JArr [])],
      ne_occurred_at = now\<rparr>"

definition acknowledgement :: "ext \<Rightarrow> turn_row \<Rightarrow> room_event \<Rightarrow> string \<Rightarrow> json" where
  "acknowledgement E t reply text =
     jobj [(''profileVersion'', JStr PROFILE_VERSION), (''taskId'', juuid E (ct_task_id t)),
           (''conversationId'', juuid E (ct_conversation_id t)), (''generation'', JInt (ct_generation t)),
           (''replyEventId'', juuid E (ev_event_id reply)), (''replySequence'', JInt (ev_sequence reply)),
           (''textDigest'', JStr (sha256_hex E text)), (''consumedRevision'', JInt (ct_context_revision t)),
           (''contextDigest'', jidx (jidx (ct_frozen_input t) ''context'') ''digest'')]"

definition complete_turn ::
  "ext \<Rightarrow> conversation_policy \<Rightarrow> uuid \<Rightarrow> timestamp \<Rightarrow> turn_row \<Rightarrow> json \<Rightarrow> db \<Rightarrow> conversation_error + ((json \<times> room_event) \<times> db)" where
  "complete_turn E policy event_id now t data d =
     rbind (validate_profile_value E ''result'' data) (\<lambda>_.
     rbind (ensure ContextMismatch
       (jidx data ''conversationId'' = juuid E (ct_conversation_id t) \<and>
        jidx data ''generation'' = JInt (ct_generation t) \<and>
        jidx data ''consumedRevision'' = JInt (ct_context_revision t) \<and>
        jidx data ''contextDigest'' = jidx (jidx (ct_frozen_input t) ''context'') ''digest'')) (\<lambda>_.
     rbind (ok_or InvalidTaskInput (as_str (jidx data ''assistantText''))) (\<lambda>text.
     rbind (ensure ContextTooLarge (length text \<le> 65536)) (\<lambda>_.
     rbind (validate_citations E policy t data d) (\<lambda>_.
     rbind (unavailable (append_event_in_transaction E event_id (reply_event t data now) d)) (\<lambda>(reply, d).
     let ack = acknowledgement E t reply text
     in rbind (validate_profile_value E ''ack'' ack) (\<lambda>_.
        rbind (stored E data) (\<lambda>result.
        rbind (stored E ack) (\<lambda>ack_row.
        rbind (stored_option E (optional_json (jidx data ''effectiveSettings''))) (\<lambda>effective.
        rbind (stored_option E (optional_json (jidx data ''usage''))) (\<lambda>usage.
        rbind (ok_or ContextMismatch (as_array (ct_source_manifest t))) (\<lambda>sources.
        rbind (disclose_all E policy t sources
          (set_conversation (ct_conversation_id t)
             (\<lambda>c. c\<lparr>cv_state := Conv_ready, cv_active_task_id := None,
                    cv_consumed_revision := ct_context_revision t, cv_updated_at := pg_time E now\<rparr>)
             (set_turn (ct_task_id t)
               (\<lambda>x. x\<lparr>ct_state := Turn_completed, ct_result := Some result, ct_reply_event_id := Some (ev_event_id reply),
                      ct_receipt_acknowledgement := Some ack_row, ct_effective_settings := effective,
                      ct_usage := usage, ct_updated_at := pg_time E now\<rparr>) d))) (\<lambda>d.
          Inr ((ack, reply), d))))))))))))))"

definition note_kind ::
  "ext \<Rightarrow> timestamp \<Rightarrow> timestamp \<Rightarrow> turn_row \<times> conversation_row \<Rightarrow> string \<Rightarrow> json \<Rightarrow> db \<Rightarrow> conversation_error + db" where
  \<comment> \<open>the branch of the other kinds: a failure ends the turn, settings and usage are kept on it\<close>
  "note_kind E db_now now row kind data d =
     rbind (if kind = ''failed'' then
              rbind (ok_or InvalidTaskInput (as_str (jidx data ''code''))) (\<lambda>code.
              rbind (failure_code code) (\<lambda>error. fail_task_state E db_now row error d))
            else Inr d) (\<lambda>d.
       if kind = ''settings'' then
         rbind (stored E data) (\<lambda>v. Inr (set_turn (ct_task_id (fst row))
           (\<lambda>t. t\<lparr>ct_effective_settings := Some v, ct_updated_at := pg_time E now\<rparr>) d))
       else if kind = ''usage'' then
         rbind (stored E data) (\<lambda>v. Inr (set_turn (ct_task_id (fst row))
           (\<lambda>t. t\<lparr>ct_usage := Some v, ct_updated_at := pg_time E now\<rparr>) d))
       else Inr d)"

definition accepted_progress :: "ext \<Rightarrow> turn_update_row \<Rightarrow> bool" where
  "accepted_progress E u \<longleftrightarrow> cu_kind u = ''progress'' \<and> text_field E (cu_data u) ''phase'' = Some ''accepted''"

definition other_progress :: "ext \<Rightarrow> turn_update_row \<Rightarrow> bool" where
  \<comment> \<open>\<open>kind='progress' AND data->>'phase'<>'accepted'\<close>, false when the phase is null\<close>
  "other_progress E u \<longleftrightarrow> cu_kind u = ''progress'' \<and>
     (case text_field E (cu_data u) ''phase'' of None \<Rightarrow> False | Some p \<Rightarrow> p \<noteq> ''accepted'')"

definition coalesced :: "ext \<Rightarrow> timestamp \<Rightarrow> turn_row \<Rightarrow> string \<Rightarrow> json \<Rightarrow> db \<Rightarrow> bool" where
  "coalesced E now t kind data d \<longleftrightarrow> kind = ''progress'' \<and>
     (if jidx data ''phase'' = JStr ''accepted''
      then list_ex (\<lambda>u. cu_task_id u = ct_task_id t \<and> accepted_progress E u) (conversation_updates d)
      else case ct_last_progress_at t of None \<Rightarrow> False | Some time \<Rightarrow> now - time < seconds 1)"

definition drop_updates :: "(turn_update_row \<Rightarrow> bool) \<Rightarrow> uuid \<Rightarrow> db \<Rightarrow> db" where
  "drop_updates p task d =
     d\<lparr>conversation_updates := row_delete (\<lambda>u. cu_task_id u = task \<and> p u) (conversation_updates d)\<rparr>"

definition displace :: "ext \<Rightarrow> string \<Rightarrow> uuid \<Rightarrow> db \<Rightarrow> db" where
  \<comment> \<open>the rows a report of this kind replaces\<close>
  "displace E kind task d =
     (let d = (if kind \<in> {''settings'', ''usage''} then drop_updates (\<lambda>u. cu_kind u = kind) task d else d)
      in if kind = ''progress'' then drop_updates (other_progress E) task d else d)"

definition retain_update ::
  "ext \<Rightarrow> timestamp \<Rightarrow> turn_row \<Rightarrow> uuid \<Rightarrow> int \<Rightarrow> string \<Rightarrow> json \<Rightarrow> db \<Rightarrow> conversation_error + db" where
  \<comment> \<open>the latest of each kind is kept for the browser\<close>
  "retain_update E now t update_id ordinal kind data d =
     (if coalesced E now t kind data d then Inr d
      else
        rbind (stored E data) (\<lambda>v.
        rbind (insert_update \<lparr>cu_task_id = ct_task_id t, cu_update_id = update_id, cu_ordinal = ordinal, cu_kind = kind,
                 cu_occurred_at = pg_time E now, cu_data = v\<rparr> (displace E kind (ct_task_id t) d)) (\<lambda>d.
          Inr (if kind = ''progress''
               then set_turn (ct_task_id t) (\<lambda>t. t\<lparr>ct_last_progress_at := Some (pg_time E now)\<rparr>) d else d))))"

definition carry_out ::
  "ext \<Rightarrow> conversation_policy \<Rightarrow> timestamp \<Rightarrow> timestamp \<Rightarrow> uuid \<Rightarrow> turn_row \<times> conversation_row \<Rightarrow> uuid \<Rightarrow> int \<Rightarrow> string \<Rightarrow>
   json \<Rightarrow> db \<Rightarrow> conversation_error + (json \<times> room_event option \<times> db)" where
  "carry_out E policy db_now now event_id row update_id ordinal kind data d =
     (if kind = ''completed'' then
        rbind (complete_turn E policy event_id now (fst row) data d) (\<lambda>((ack, reply), d). Inr (ack, Some reply, d))
      else
        rbind (note_kind E db_now now row kind data d) (\<lambda>d.
          Inr (jobj [(''profileVersion'', JStr PROFILE_VERSION), (''taskId'', juuid E (ct_task_id (fst row))),
                     (''updateId'', juuid E update_id), (''ordinal'', JInt ordinal)], None, d)))"

definition apply_update ::
  "ext \<Rightarrow> conversation_policy \<Rightarrow> timestamp \<Rightarrow> (nat \<Rightarrow> timestamp) \<Rightarrow> uuid \<Rightarrow> turn_row \<times> conversation_row \<Rightarrow> uuid \<Rightarrow> uuid \<Rightarrow>
   json \<Rightarrow> db \<Rightarrow> conversation_error + (conversation_update_outcome \<times> db)" where
  \<comment> \<open>\<open>record_update\<close> for a report that was not seen before\<close>
  "apply_update E policy db_now clock event_id row lease update_id request d =
     (let t = fst row; now = clock 1; data = jidx request ''data''
      in rbind (ok_or InvalidTaskInput (as_i64 (jidx request ''ordinal''))) (\<lambda>ordinal.
         rbind (ensure DuplicateConflict (ordinal > ct_last_update_ordinal t)) (\<lambda>_.
         rbind (ok_or InvalidTaskInput (as_str (jidx request ''kind''))) (\<lambda>kind.
         rbind (ensure InvalidTaskInput
           (\<not> (ordinal = MAX_SAFE_INTEGER \<and> kind \<notin> {''completed'', ''failed''}))) (\<lambda>_.
         rbind (check_metadata kind data) (\<lambda>_.
         rbind (carry_out E policy db_now now event_id row update_id ordinal kind data d) (\<lambda>(response, event, d).
         rbind (retain_update E now t update_id ordinal kind data d) (\<lambda>d.
         rbind (stored E request) (\<lambda>request_row.
         rbind (stored E response) (\<lambda>response_row.
         rbind (insert_update_request \<lparr>cq_task_id = ct_task_id t, cq_update_id = update_id, cq_ordinal = ordinal,
                  cq_request = request_row, cq_response = response_row, cq_received_at = pg_time E now\<rparr>
                  (set_turn (ct_task_id t) (\<lambda>t. t\<lparr>ct_last_update_ordinal := ordinal\<rparr>) d)) (\<lambda>d.
         rbind (task_authority policy (clock 2) row (Some lease) False) (\<lambda>_.
           Inr (\<lparr>uo_response = response, uo_event = event\<rparr>, d)))))))))))))"

definition replay_update ::
  "conversation_policy \<Rightarrow> (nat \<Rightarrow> timestamp) \<Rightarrow> turn_row \<times> conversation_row \<Rightarrow> uuid \<Rightarrow> json \<Rightarrow> turn_update_request_row \<Rightarrow>
   conversation_error + conversation_update_outcome" where
  "replay_update policy clock row lease request prior =
     (case row of (t, c) \<Rightarrow>
        if cq_request prior \<noteq> request then Inl DuplicateConflict
        else if \<not> turn_live t then
          rbind (require_enabled policy CODEX_AGENT_ID) (\<lambda>_.
            if (case ct_lease_expires_at t of None \<Rightarrow> True | Some expiry \<Rightarrow> expiry \<le> clock 0)
            then Inl ConversationInterrupted
            else if ct_authorization_expires_at t \<le> clock 1 then Inl AuthenticationRequired
            else if cv_state c = Conv_superseded \<or> ct_expires_at t \<le> clock 2 then Inl ConversationStale
            else if \<not> policy_still_fits policy t then Inl Conversation_Forbidden
            else Inr \<lparr>uo_response = cq_response prior, uo_event = None\<rparr>)
        else
          rbind (task_authority policy (clock 0) (t, c) (Some lease) False) (\<lambda>_.
            Inr \<lparr>uo_response = cq_response prior, uo_event = None\<rparr>))"

definition admit_update ::
  "ext \<Rightarrow> conversation_policy \<Rightarrow> uuid \<Rightarrow> uuid \<Rightarrow> json \<Rightarrow> db \<Rightarrow> conversation_error + ((turn_row \<times> conversation_row) \<times> uuid)" where
  "admit_update E policy task lease request d =
     rbind (validate_profile_value E ''update'' request) (\<lambda>_.
     rbind (ensure ContextMismatch (jidx request ''taskId'' = juuid E task)) (\<lambda>_.
     rbind (owned_room task d) (\<lambda>_.
     rbind (task_in_transaction task d) (\<lambda>(t, c).
     rbind (require_enabled policy CODEX_AGENT_ID) (\<lambda>_.
     rbind (ensure ContextMismatch (jidx request ''generation'' = JInt (ct_generation t) \<and>
       jidx request ''contextDigest'' = jidx (jidx (ct_frozen_input t) ''context'') ''digest'')) (\<lambda>_.
     rbind (ensure Conversation_Forbidden (ct_lease_token t = Some lease)) (\<lambda>_.
     rbind (uuid_field E request ''updateId'') (\<lambda>update_id. Inr ((t, c), update_id)))))))))"

definition record_update ::
  "ext \<Rightarrow> conversation_policy \<Rightarrow> timestamp \<Rightarrow> (nat \<Rightarrow> timestamp) \<Rightarrow> uuid \<Rightarrow> uuid \<Rightarrow> uuid \<Rightarrow> uuid \<Rightarrow> json \<Rightarrow> db \<Rightarrow>
   (conversation_error + conversation_update_outcome) \<times> db" where
  \<comment> \<open>\<open>event_id\<close> and \<open>failure_id\<close> are fresh\<close>
  "record_update E policy db_now clock event_id failure_id task lease request d =
     (case admit_update E policy task lease request d of
        Inl e \<Rightarrow> (Inl e, d)
      | Inr ((t, c), update_id) \<Rightarrow>
          (case find (\<lambda>q. cq_task_id q = task \<and> cq_update_id q = update_id) (conversation_update_requests d) of
             Some prior \<Rightarrow> (replay_update policy clock (t, c) lease request prior, d)
           | None \<Rightarrow>
               (case task_authority policy (clock 0) (t, c) (Some lease) False of
                  Inl error \<Rightarrow>
                    if turn_live t then
                      (case fail_task E db_now failure_id (t, c) error d of
                         Inl e \<Rightarrow> (Inl e, d)
                       | Inr d' \<Rightarrow> (Inl error, d'))
                    else (Inl error, d)
                | Inr _ \<Rightarrow>
                    (case apply_update E policy db_now clock event_id (t, c) lease update_id request d of
                       Inl e \<Rightarrow> (Inl e, d)
                     | Inr (outcome, d') \<Rightarrow> (Inr outcome, d')))))"

end
