(* ===== verification/Conversation_Lifecycle.thy ===== *)
theory Conversation_Lifecycle
  imports Conversation_Store
begin

text \<open>
  What the conversation store keeps: at most one current conversation and one live turn per room, every live
  turn bound to its conversation, leases that are handed out once, turns that stay ended, and a bounded number
  of retained reports.  The operations are the steps \<open>turn_op\<close>; each runs under a policy of its own, since an
  operator may change the policy between them.
\<close>

datatype turn_op =
    Reserve "((room_participant list \<Rightarrow> room_participant list) \<times> presence) option" "nat \<Rightarrow> uuid" "nat \<Rightarrow> timestamp" actor json timestamp
  | Claim_round string claim_input
  | Packet timestamp timestamp uuid uuid uuid
  | Report timestamp "nat \<Rightarrow> timestamp" uuid uuid uuid uuid json

fun run_turn_op :: "ext \<Rightarrow> conversation_policy \<Rightarrow> turn_op \<Rightarrow> db \<Rightarrow> db" where
  \<comment> \<open>the database after the operation; a reservation the catalog refuses changes nothing\<close>
  "run_turn_op E policy (Reserve state fresh clock actor request expiry) d =
     commit d (fst (reserve_inner E policy state (None :: unit catalog option) fresh clock actor request expiry () d))"
| "run_turn_op E policy (Claim_round owner i) d = commit d (claim_once E policy owner i d)"
| "run_turn_op E policy (Packet db_now now failure_id task lease) d =
     snd (turn_packet E policy db_now now failure_id task lease d)"
| "run_turn_op E policy (Report db_now clock event_id failure_id task lease request) d =
     snd (record_update E policy db_now clock event_id failure_id task lease request d)"

lemma mediated_reservation:
  "commit d (fst (reserve_inner E policy state catalog fresh clock actor request expiry s d)) \<in>
     {d, run_turn_op E policy (Reserve state fresh clock actor request expiry) d}"
  by (auto simp: reserve_inner_def commit_def split: sum.splits reservation_step.splits option.splits prod.splits)

subsection \<open>Live turns and active conversations\<close>

type_synonym turn_key = "uuid \<times> uuid \<times> uuid \<times> uuid \<times> int"

definition turn_key :: "turn_row \<Rightarrow> turn_key" where
  "turn_key t = (ct_task_id t, ct_conversation_id t, ct_room_id t, ct_agent_id t, ct_generation t)"

lemma fst_turn_key: "fst (turn_key t) = ct_task_id t"
  by (simp add: turn_key_def)

definition conversation_key :: "conversation_row \<Rightarrow> uuid \<times> uuid \<times> uuid \<times> int" where
  "conversation_key c = (cv_conversation_id c, cv_room_id c, cv_agent_id c, cv_generation c)"

definition live_keys :: "db \<Rightarrow> turn_key set" where
  "live_keys d = turn_key ` {t \<in> set (conversation_tasks d). turn_live t}"

definition active_keys :: "db \<Rightarrow> turn_key set" where
  "active_keys d = {(i, conversation_key c) | i c. c \<in> set (agent_conversations d) \<and> cv_active_task_id c = Some i}"

definition seat :: "conversation_row \<Rightarrow> uuid \<times> uuid" where
  "seat c = (cv_room_id c, cv_agent_id c)"

definition seats :: "db \<Rightarrow> (uuid \<times> uuid) list" where
  \<comment> \<open>the rooms and agents with a current conversation\<close>
  "seats d = map seat (filter (\<lambda>c. cv_state c \<noteq> Conv_superseded) (agent_conversations d))"

definition busy :: "conversation_row \<Rightarrow> bool" where
  "busy c \<longleftrightarrow> cv_state c = Conv_reserved \<or> cv_state c = Conv_running"

definition turns_ok :: "db \<Rightarrow> bool" where
  "turns_ok d \<longleftrightarrow> distinct (map ct_task_id (conversation_tasks d)) \<and>
     distinct (map cv_conversation_id (agent_conversations d)) \<and> distinct (seats d) \<and>
     live_keys d = active_keys d \<and> (\<forall>c \<in> set (agent_conversations d). busy c \<longleftrightarrow> cv_active_task_id c \<noteq> None)"

lemma unique_turn: "turns_ok d \<Longrightarrow> t \<in> set (conversation_tasks d) \<Longrightarrow> x \<in> set (conversation_tasks d) \<Longrightarrow>
    ct_task_id x = ct_task_id t \<Longrightarrow> x = t"
  unfolding turns_ok_def by (metis distinct_map_inj)

lemma unique_conversation: "turns_ok d \<Longrightarrow> c \<in> set (agent_conversations d) \<Longrightarrow> x \<in> set (agent_conversations d) \<Longrightarrow>
    cv_conversation_id x = cv_conversation_id c \<Longrightarrow> x = c"
  unfolding turns_ok_def by (metis distinct_map_inj)

lemma live_active:
  assumes "turns_ok d" "t \<in> set (conversation_tasks d)" "turn_live t"
  obtains c where "c \<in> set (agent_conversations d)" "cv_active_task_id c = Some (ct_task_id t)" "busy c"
    "conversation_key c = snd (turn_key t)"
proof -
  have "turn_key t \<in> active_keys d" using assms by (auto simp: turns_ok_def live_keys_def)
  then obtain c where "c \<in> set (agent_conversations d)" "cv_active_task_id c = Some (ct_task_id t)"
    "conversation_key c = snd (turn_key t)" by (auto simp: active_keys_def turn_key_def)
  then show thesis using that assms(1) by (auto simp: turns_ok_def)
qed

lemma active_live:
  assumes "turns_ok d" "c \<in> set (agent_conversations d)" "cv_active_task_id c = Some i"
  obtains t where "t \<in> set (conversation_tasks d)" "turn_live t" "turn_key t = (i, conversation_key c)"
proof -
  have "(i, conversation_key c) \<in> live_keys d" using assms unfolding turns_ok_def active_keys_def by blast
  then show thesis using that by (auto simp: live_keys_def)
qed

lemma single_live_turn:
  assumes "turns_ok d" "t \<in> set (conversation_tasks d)" "t' \<in> set (conversation_tasks d)" "turn_live t" "turn_live t'"
    "ct_room_id t = ct_room_id t'" "ct_agent_id t = ct_agent_id t'"
  shows "t = t'"
proof -
  obtain c where c: "c \<in> set (agent_conversations d)" "cv_active_task_id c = Some (ct_task_id t)" "busy c"
    "conversation_key c = snd (turn_key t)" using live_active assms by blast
  obtain c' where c': "c' \<in> set (agent_conversations d)" "cv_active_task_id c' = Some (ct_task_id t')" "busy c'"
    "conversation_key c' = snd (turn_key t')" using live_active assms by blast
  have "seat c = seat c'" using c(4) c'(4) assms(6,7) by (simp add: seat_def conversation_key_def turn_key_def)
  moreover have "distinct (map seat (filter (\<lambda>c. cv_state c \<noteq> Conv_superseded) (agent_conversations d)))"
    using assms(1) by (simp add: turns_ok_def seats_def)
  moreover have "c \<in> set (filter (\<lambda>c. cv_state c \<noteq> Conv_superseded) (agent_conversations d))"
    "c' \<in> set (filter (\<lambda>c. cv_state c \<noteq> Conv_superseded) (agent_conversations d))"
    using c(1,3) c'(1,3) by (auto simp: busy_def)
  ultimately have "c = c'" by (metis distinct_map_inj)
  with c(2) c'(2) have "ct_task_id t = ct_task_id t'" by simp
  then show ?thesis using unique_turn [OF assms(1,3,2)] by simp
qed

lemma active_of:
  assumes "turns_ok d" "t \<in> set (conversation_tasks d)" "c \<in> set (agent_conversations d)" "cv_active_task_id c = Some (ct_task_id t)"
  shows "turn_live t" "conversation_key c = snd (turn_key t)"
proof -
  obtain x where x: "x \<in> set (conversation_tasks d)" "turn_live x" "turn_key x = (ct_task_id t, conversation_key c)"
    by (rule active_live [OF assms(1,3,4)])
  then have "ct_task_id x = ct_task_id t" using fst_turn_key [of x] by simp
  then have "x = t" using unique_turn [OF assms(1,2) x(1)] by blast
  then show "turn_live t" "conversation_key c = snd (turn_key t)" using x by simp_all
qed

lemma conversation_of:
  assumes "turns_ok d" "t \<in> set (conversation_tasks d)" "turn_live t" "c \<in> set (agent_conversations d)"
  shows "cv_conversation_id c = ct_conversation_id t \<longleftrightarrow> cv_active_task_id c = Some (ct_task_id t)"
proof
  obtain x where x: "x \<in> set (agent_conversations d)" "cv_active_task_id x = Some (ct_task_id t)" "busy x"
    "conversation_key x = snd (turn_key t)" by (rule live_active [OF assms(1-3)])
  assume "cv_conversation_id c = ct_conversation_id t"
  then have "cv_conversation_id c = cv_conversation_id x" using x(4) by (simp add: conversation_key_def turn_key_def)
  then have "c = x" using unique_conversation [OF assms(1) x(1) assms(4)] by blast
  then show "cv_active_task_id c = Some (ct_task_id t)" using x by simp
next
  assume "cv_active_task_id c = Some (ct_task_id t)"
  then show "cv_conversation_id c = ct_conversation_id t"
    using active_of(2) [OF assms(1,2,4)] by (simp add: conversation_key_def turn_key_def)
qed

subsection \<open>Changes of the tables\<close>

lemma set_row_update_image: "set (row_update p f xs) = (\<lambda>x. if p x then f x else x) ` set xs"
  by (simp add: row_update_def)

lemma live_keys_update:
  assumes "conversation_tasks d' = row_update p f (conversation_tasks d)" "\<And>x. p x \<Longrightarrow> turn_key (f x) = turn_key x"
  shows "live_keys d' = turn_key ` {x \<in> set (conversation_tasks d). turn_live (if p x then f x else x)}"
proof -
  let ?h = "\<lambda>x. if p x then f x else x"
  have h: "turn_key (?h x) = turn_key x" for x using assms(2) by simp
  have "{t \<in> ?h ` set (conversation_tasks d). turn_live t} = ?h ` {x \<in> set (conversation_tasks d). turn_live (?h x)}" by blast
  then show ?thesis unfolding live_keys_def assms(1) set_row_update_image by (simp only: image_image h)
qed

lemma active_keys_update:
  assumes "agent_conversations d' = row_update q g (agent_conversations d)" "\<And>x. q x \<Longrightarrow> conversation_key (g x) = conversation_key x"
  shows "active_keys d' = {(i, conversation_key c) | i c. c \<in> set (agent_conversations d) \<and>
     cv_active_task_id (if q c then g c else c) = Some i}"
proof -
  let ?h = "\<lambda>x. if q x then g x else x"
  have h: "conversation_key (?h x) = conversation_key x" for x using assms(2) by simp
  have "{(i, conversation_key c) | i c. c \<in> ?h ` set (agent_conversations d) \<and> cv_active_task_id c = Some i} =
      {(i, conversation_key (?h c)) | i c. c \<in> set (agent_conversations d) \<and> cv_active_task_id (?h c) = Some i}" by blast
  then show ?thesis unfolding active_keys_def assms(1) set_row_update_image by (simp only: h)
qed

lemma seats_update:
  assumes "agent_conversations d' = row_update q g (agent_conversations d)"
    "\<And>x. x \<in> set (agent_conversations d) \<Longrightarrow> q x \<Longrightarrow> seat (g x) = seat x \<and> (cv_state (g x) = Conv_superseded \<longleftrightarrow> cv_state x = Conv_superseded)"
  shows "seats d' = seats d"
proof -
  have "map seat (filter (\<lambda>c. cv_state c \<noteq> Conv_superseded) (row_update q g xs)) =
      map seat (filter (\<lambda>c. cv_state c \<noteq> Conv_superseded) xs)" if "set xs \<subseteq> set (agent_conversations d)" for xs
    using that assms(2) by (induction xs) (auto simp: row_update_def)
  then show ?thesis by (simp add: seats_def assms(1))
qed

lemma ids_update:
  "conversation_tasks d' = row_update p f (conversation_tasks d) \<Longrightarrow> (\<And>x. p x \<Longrightarrow> turn_key (f x) = turn_key x) \<Longrightarrow>
     map ct_task_id (conversation_tasks d') = map ct_task_id (conversation_tasks d)"
  "agent_conversations d' = row_update q g (agent_conversations d) \<Longrightarrow> (\<And>x. q x \<Longrightarrow> conversation_key (g x) = conversation_key x) \<Longrightarrow>
     map cv_conversation_id (agent_conversations d') = map cv_conversation_id (agent_conversations d)"
  by (auto simp: row_update_def turn_key_def conversation_key_def)

lemma touch_turn:
  assumes "turns_ok d" "agent_conversations d' = agent_conversations d"
    "conversation_tasks d' = row_update p f (conversation_tasks d)"
    "\<And>x. p x \<Longrightarrow> turn_key (f x) = turn_key x \<and> turn_live (f x) = turn_live x"
  shows "turns_ok d'"
proof -
  have "live_keys d' = live_keys d"
    using live_keys_update [OF assms(3)] assms(4) by (auto simp: live_keys_def intro: image_cong)
  moreover have "map ct_task_id (conversation_tasks d') = map ct_task_id (conversation_tasks d)"
    using ids_update(1) [OF assms(3)] assms(4) by simp
  ultimately show ?thesis using assms(1) by (simp add: turns_ok_def active_keys_def seats_def assms(2))
qed

lemma end_turn:
  assumes ok: "turns_ok d" and t: "t \<in> set (conversation_tasks d)"
    and turns: "conversation_tasks d' = row_update p f (conversation_tasks d)"
      "\<And>x. p x \<Longrightarrow> ct_task_id x = ct_task_id t \<and> turn_key (f x) = turn_key x \<and> \<not> turn_live (f x)"
      "turn_live t \<Longrightarrow> p t"
    and conversations: "agent_conversations d' = row_update q g (agent_conversations d)"
      "\<And>x. q x \<Longrightarrow> conversation_key (g x) = conversation_key x \<and> cv_active_task_id (g x) = None \<and> \<not> busy (g x) \<and>
         cv_state (g x) \<noteq> Conv_superseded"
      "\<And>x. x \<in> set (agent_conversations d) \<Longrightarrow> q x \<longleftrightarrow> cv_active_task_id x = Some (ct_task_id t)"
  shows "turns_ok d'"
proof -
  have live: "live_keys d' = {k \<in> live_keys d. fst k \<noteq> ct_task_id t}"
  proof -
    have "turn_live (if p x then f x else x) \<longleftrightarrow> turn_live x \<and> ct_task_id x \<noteq> ct_task_id t"
      if "x \<in> set (conversation_tasks d)" for x
      using turns(2) [of x] turns(3) unique_turn [OF ok t that] by auto
    then have "{x \<in> set (conversation_tasks d). turn_live (if p x then f x else x)} =
        {x \<in> set (conversation_tasks d). turn_live x \<and> ct_task_id x \<noteq> ct_task_id t}"
      by (intro Collect_cong conj_cong refl)
    moreover have "turn_key ` {x \<in> set (conversation_tasks d). turn_live x \<and> ct_task_id x \<noteq> ct_task_id t} =
        {k \<in> live_keys d. fst k \<noteq> ct_task_id t}"
      unfolding live_keys_def fst_turn_key [symmetric] by blast
    moreover have "live_keys d' = turn_key ` {x \<in> set (conversation_tasks d). turn_live (if p x then f x else x)}"
      by (rule live_keys_update [OF turns(1)]) (use turns(2) in simp)
    ultimately show ?thesis by simp
  qed
  have active: "active_keys d' = {k \<in> active_keys d. fst k \<noteq> ct_task_id t}"
  proof -
    have "cv_active_task_id (if q c then g c else c) = Some i \<longleftrightarrow> cv_active_task_id c = Some i \<and> i \<noteq> ct_task_id t"
      if "c \<in> set (agent_conversations d)" for c i
      using conversations(2) [of c] conversations(3) [OF that] by auto
    then have "{(i, conversation_key c) | i c. c \<in> set (agent_conversations d) \<and>
        cv_active_task_id (if q c then g c else c) = Some i} =
      {(i, conversation_key c) | i c. c \<in> set (agent_conversations d) \<and> cv_active_task_id c = Some i \<and> i \<noteq> ct_task_id t}"
      by (intro Collect_cong ex_cong1 conj_cong refl)
    moreover have "\<dots> = {k \<in> active_keys d. fst k \<noteq> ct_task_id t}" by (auto simp: active_keys_def)
    moreover have "active_keys d' = {(i, conversation_key c) | i c. c \<in> set (agent_conversations d) \<and>
        cv_active_task_id (if q c then g c else c) = Some i}"
      by (rule active_keys_update [OF conversations(1)]) (use conversations(2) in simp)
    ultimately show ?thesis by simp
  qed
  have "\<forall>c \<in> set (agent_conversations d'). busy c \<longleftrightarrow> cv_active_task_id c \<noteq> None"
    using ok conversations(2) by (auto simp: conversations(1) set_row_update turns_ok_def)
  moreover have "seats d' = seats d"
  proof (rule seats_update [OF conversations(1)])
    fix x assume x: "x \<in> set (agent_conversations d)" "q x"
    then have "busy x" using ok conversations(3) by (auto simp: turns_ok_def)
    then show "seat (g x) = seat x \<and> (cv_state (g x) = Conv_superseded \<longleftrightarrow> cv_state x = Conv_superseded)"
      using conversations(2) [OF x(2)] by (auto simp: busy_def seat_def conversation_key_def)
  qed
  ultimately show ?thesis
    using ok live active ids_update(1) [OF turns(1)] ids_update(2) [OF conversations(1)] turns(2) conversations(2)
    by (simp add: turns_ok_def)
qed

lemma run_turn:
  \<comment> \<open>a live turn and its conversation go on running\<close>
  assumes ok: "turns_ok d" and t: "t \<in> set (conversation_tasks d)" "turn_live t"
    and turns: "conversation_tasks d' = row_update (\<lambda>x. ct_task_id x = ct_task_id t) f (conversation_tasks d)"
      "\<And>x. turn_key (f x) = turn_key x \<and> turn_live (f x)"
    and conversations: "agent_conversations d' = row_update (\<lambda>c. cv_conversation_id c = ct_conversation_id t) g (agent_conversations d)"
      "\<And>x. conversation_key (g x) = conversation_key x \<and> cv_active_task_id (g x) = cv_active_task_id x \<and> busy (g x)"
  shows "turns_ok d'"
proof -
  obtain c where c: "c \<in> set (agent_conversations d)" "cv_active_task_id c = Some (ct_task_id t)" "busy c"
    "conversation_key c = snd (turn_key t)" using live_active [OF ok t] by blast
  have only: "x = c" if "x \<in> set (agent_conversations d)" "cv_conversation_id x = ct_conversation_id t" for x
    using unique_conversation [OF ok c(1) that(1)] that(2) c(4) by (simp add: conversation_key_def turn_key_def)
  have "live_keys d' = live_keys d"
  proof -
    have "turn_live (if ct_task_id x = ct_task_id t then f x else x) \<longleftrightarrow> turn_live x" if "x \<in> set (conversation_tasks d)" for x
      using unique_turn [OF ok t(1) that] t(2) turns(2) by auto
    then have "{x \<in> set (conversation_tasks d). turn_live (if ct_task_id x = ct_task_id t then f x else x)} =
        {x \<in> set (conversation_tasks d). turn_live x}" by (intro Collect_cong conj_cong refl)
    moreover have "live_keys d' = turn_key ` {x \<in> set (conversation_tasks d). turn_live (if ct_task_id x = ct_task_id t then f x else x)}"
      by (rule live_keys_update [OF turns(1)]) (use turns(2) in simp)
    ultimately show ?thesis by (simp add: live_keys_def)
  qed
  moreover have "active_keys d' = active_keys d"
  proof -
    have "active_keys d' = {(i, conversation_key x) | i x. x \<in> set (agent_conversations d) \<and>
        cv_active_task_id (if cv_conversation_id x = ct_conversation_id t then g x else x) = Some i}"
      by (rule active_keys_update [OF conversations(1)]) (use conversations(2) in simp)
    moreover have "cv_active_task_id (if cv_conversation_id x = ct_conversation_id t then g x else x) = cv_active_task_id x" for x
      using conversations(2) by simp
    ultimately show ?thesis by (simp add: active_keys_def)
  qed
  moreover have "busy (if cv_conversation_id x = ct_conversation_id t then g x else x) \<longleftrightarrow>
      cv_active_task_id (if cv_conversation_id x = ct_conversation_id t then g x else x) \<noteq> None"
    if "x \<in> set (agent_conversations d)" for x
    using only [OF that] c(2) conversations(2) [of x] ok that by (auto simp: turns_ok_def)
  then have "\<forall>c \<in> set (agent_conversations d'). busy c \<longleftrightarrow> cv_active_task_id c \<noteq> None"
    unfolding conversations(1) set_row_update_image by blast
  moreover have "seats d' = seats d"
  proof (rule seats_update [OF conversations(1)])
    fix x assume "x \<in> set (agent_conversations d)" "cv_conversation_id x = ct_conversation_id t"
    then have "x = c" by (rule only)
    then show "seat (g x) = seat x \<and> (cv_state (g x) = Conv_superseded \<longleftrightarrow> cv_state x = Conv_superseded)"
      using conversations(2) [of x] c(3) by (auto simp: busy_def seat_def conversation_key_def)
  qed
  ultimately show ?thesis
    using ok ids_update(1) [OF turns(1)] ids_update(2) [OF conversations(1)] turns(2) conversations(2)
    by (simp add: turns_ok_def)
qed

lemma begin_turn:
  \<comment> \<open>a live turn is added and a conversation made active for it\<close>
  assumes ok: "turns_ok d" and tasks: "conversation_tasks d' = conversation_tasks d @ [t]" "turn_live t"
      "ct_task_id t \<notin> ct_task_id ` set (conversation_tasks d)"
    and active: "active_keys d' = insert (turn_key t) (active_keys d)"
    and conversations: "distinct (map cv_conversation_id (agent_conversations d'))" "distinct (seats d')"
      "\<forall>c \<in> set (agent_conversations d'). busy c \<longleftrightarrow> cv_active_task_id c \<noteq> None"
  shows "turns_ok d'"
proof -
  have "live_keys d' = insert (turn_key t) (live_keys d)" using tasks by (auto simp: live_keys_def)
  then show ?thesis using ok tasks active conversations by (simp add: turns_ok_def)
qed

subsection \<open>What an operation does to the turns\<close>

definition turn_fixed :: "turn_row \<Rightarrow> turn_key \<times> uuid \<times> uuid \<times> json \<times> json \<times> json \<times> timestamp \<times> timestamp" where
  "turn_fixed t = (turn_key t, ct_request_id t, ct_requester_id t, ct_frozen_input t, ct_source_manifest t,
     ct_accepted_turn t, ct_authorization_expires_at t, ct_expires_at t)"

definition turn_lease :: "turn_row \<Rightarrow> string option \<times> uuid option \<times> timestamp option" where
  "turn_lease t = (ct_lease_owner t, ct_lease_token t, ct_lease_expires_at t)"

definition turn_outcome :: "turn_row \<Rightarrow> turn_state \<times> json option \<times> json option \<times> uuid option \<times> json option" where
  "turn_outcome t = (ct_state t, ct_result t, ct_failure t, ct_reply_event_id t, ct_receipt_acknowledgement t)"

definition turn_step :: "turn_row \<Rightarrow> turn_row \<Rightarrow> bool" where
  "turn_step t t' \<longleftrightarrow> turn_fixed t' = turn_fixed t \<and> (ct_lease_token t \<noteq> None \<longrightarrow> turn_lease t' = turn_lease t) \<and>
     (\<not> turn_live t \<longrightarrow> turn_outcome t' = turn_outcome t) \<and> (ct_state t' = Turn_reserved \<longrightarrow> ct_state t = Turn_reserved)"

lemma turn_step_refl: "turn_step t t"
  by (simp add: turn_step_def)

lemma turn_step_trans: "turn_step a b \<Longrightarrow> turn_step b c \<Longrightarrow> turn_step a c"
proof -
  assume ab: "turn_step a b" and bc: "turn_step b c"
  have "ct_lease_token a \<noteq> None \<Longrightarrow> ct_lease_token b \<noteq> None" "\<not> turn_live a \<Longrightarrow> \<not> turn_live b"
    using ab by (simp_all add: turn_step_def turn_lease_def turn_outcome_def turn_live_def)
  then show ?thesis using ab bc unfolding turn_step_def by metis
qed

definition turns_step :: "db \<Rightarrow> db \<Rightarrow> bool" where
  "turns_step d d' \<longleftrightarrow> (\<exists>g added. conversation_tasks d' = map g (conversation_tasks d) @ added \<and>
     (\<forall>t \<in> set (conversation_tasks d). turn_step t (g t)))"

lemma turns_step_same: "conversation_tasks d' = conversation_tasks d \<Longrightarrow> turns_step d d'"
  unfolding turns_step_def by (intro exI [of _ id] exI [of _ "[]"]) (simp add: turn_step_refl)

lemma turns_step_add: "conversation_tasks d' = conversation_tasks d @ [t] \<Longrightarrow> turns_step d d'"
  unfolding turns_step_def by (intro exI [of _ id] exI [of _ "[t]"]) (simp add: turn_step_refl)

lemma turns_step_update:
  "conversation_tasks d' = row_update p f (conversation_tasks d) \<Longrightarrow>
     (\<And>t. t \<in> set (conversation_tasks d) \<Longrightarrow> p t \<Longrightarrow> turn_step t (f t)) \<Longrightarrow> turns_step d d'"
  unfolding turns_step_def row_update_def
  by (intro exI [of _ "\<lambda>t. if p t then f t else t"] exI [of _ "[]"]) (simp add: turn_step_refl)

lemma turns_step_trans:
  assumes "turns_step a b" "turns_step b c"
  shows "turns_step a c"
proof -
  obtain g x where g: "conversation_tasks b = map g (conversation_tasks a) @ x"
    "\<forall>t \<in> set (conversation_tasks a). turn_step t (g t)" using assms(1) by (auto simp: turns_step_def)
  obtain h y where h: "conversation_tasks c = map h (conversation_tasks b) @ y"
    "\<forall>t \<in> set (conversation_tasks b). turn_step t (h t)" using assms(2) by (auto simp: turns_step_def)
  have "turn_step t ((h \<circ> g) t)" if "t \<in> set (conversation_tasks a)" for t
  proof -
    have "turn_step (g t) (h (g t))" using h(2) g(1) that by simp
    then show ?thesis using g(2) that turn_step_trans by (metis comp_apply)
  qed
  moreover have "conversation_tasks c = map (h \<circ> g) (conversation_tasks a) @ (map h x @ y)" using g(1) h(1) by simp
  ultimately show ?thesis unfolding turns_step_def by blast
qed

lemma turns_stepE:
  assumes "turns_step d d'" "t \<in> set (conversation_tasks d)"
  obtains t' where "t' \<in> set (conversation_tasks d')" "turn_step t t'"
proof -
  obtain g added where g: "conversation_tasks d' = map g (conversation_tasks d) @ added" "turn_step t (g t)"
    using assms by (auto simp: turns_step_def)
  show thesis by (rule that [of "g t"]) (use g assms(2) in simp_all)
qed

definition talks :: "db \<Rightarrow> db \<Rightarrow> bool" where
  \<comment> \<open>nothing but messages is added to the log, and the other components' tables stay\<close>
  "talks d d' \<longleftrightarrow> decisions d' = decisions d \<and> agent_tasks d' = agent_tasks d \<and> agent_task_updates d' = agent_task_updates d \<and>
     (\<exists>es. room_events d' = room_events d @ es \<and> (\<forall>e \<in> set es. ev_event_type e = ''message.created'')) \<and>
     (\<exists>rs. room_requests d' = room_requests d @ rs) \<and>
     (\<exists>qs. conversation_update_requests d' = conversation_update_requests d @ qs) \<and> (log_ok d \<longrightarrow> log_ok d')"

definition proceeds :: "db \<Rightarrow> db \<Rightarrow> bool" where
  "proceeds d d' \<longleftrightarrow> talks d d' \<and> (turns_ok d \<longrightarrow> turns_ok d' \<and> turns_step d d')"

lemma talks_same:
  "room_events d' = room_events d \<Longrightarrow> room_requests d' = room_requests d \<Longrightarrow> decisions d' = decisions d \<Longrightarrow>
   agent_tasks d' = agent_tasks d \<Longrightarrow> agent_task_updates d' = agent_task_updates d \<Longrightarrow>
   conversation_update_requests d' = conversation_update_requests d \<Longrightarrow> talks d d'"
  using log_ok_frame [of d' d] by (simp add: talks_def)

lemma talks_trans:
  assumes "talks a b" "talks b c"
  shows "talks a c"
proof -
  from assms obtain xs ys where "room_events b = room_events a @ xs" "\<forall>e \<in> set xs. ev_event_type e = ''message.created''"
    "room_events c = room_events b @ ys" "\<forall>e \<in> set ys. ev_event_type e = ''message.created''" unfolding talks_def by blast
  then have "\<exists>es. room_events c = room_events a @ es \<and> (\<forall>e \<in> set es. ev_event_type e = ''message.created'')"
    by (intro exI [of _ "xs @ ys"]) auto
  moreover from assms obtain rs qs where "room_requests b = room_requests a @ rs" "room_requests c = room_requests b @ qs"
    unfolding talks_def by blast
  then have "\<exists>rs. room_requests c = room_requests a @ rs" by (intro exI [of _ "rs @ qs"]) simp
  moreover from assms obtain us vs where "conversation_update_requests b = conversation_update_requests a @ us"
    "conversation_update_requests c = conversation_update_requests b @ vs" unfolding talks_def by blast
  then have "\<exists>us. conversation_update_requests c = conversation_update_requests a @ us" by (intro exI [of _ "us @ vs"]) simp
  ultimately show ?thesis using assms unfolding talks_def by simp
qed

lemma proceeds_trans: "proceeds a b \<Longrightarrow> proceeds b c \<Longrightarrow> proceeds a c"
  using talks_trans turns_step_trans by (auto simp: proceeds_def)

lemma turns_ok_same:
  "conversation_tasks d' = conversation_tasks d \<Longrightarrow> agent_conversations d' = agent_conversations d \<Longrightarrow> turns_ok d' = turns_ok d"
  by (simp add: turns_ok_def live_keys_def active_keys_def seats_def)

lemma proceeds_same:
  "talks d d' \<Longrightarrow> conversation_tasks d' = conversation_tasks d \<Longrightarrow> agent_conversations d' = agent_conversations d \<Longrightarrow> proceeds d d'"
  using turns_ok_same [of d' d] turns_step_same [of d' d] by (simp add: proceeds_def)

lemma proceeds_refl: "proceeds d d"
  by (rule proceeds_same) (simp_all add: talks_same)

lemma append_proceeds:
  assumes "append_event_in_transaction E i ev d = Inr (e, d')" "ne_event_type ev = ''message.created''"
  shows "proceeds d d'"
proof (rule proceeds_same)
  have "d' = d\<lparr>room_events := room_events d @ [e]\<rparr>" "ev_event_type e = ''message.created''" using assms by (auto simp: append_Inr)
  then show "talks d d'" "conversation_tasks d' = conversation_tasks d" "agent_conversations d' = agent_conversations d"
    using log_ok_append [OF _ assms(1)] by (simp_all add: talks_def)
qed

lemma record_request_proceeds:
  assumes "record_request E room req fp es d = Inr d'"
  shows "proceeds d d'"
  by (rule proceeds_same) (use assms log_ok_frame [of d' d] in \<open>auto simp: record_request_def result_simps talks_def\<close>)

lemma touch_proceeds:
  assumes "\<And>t. turn_fixed (f t) = turn_fixed t \<and> turn_lease (f t) = turn_lease t \<and> turn_outcome (f t) = turn_outcome t"
  shows "proceeds d (set_turn i f d)"
proof -
  have f: "turn_key (f t) = turn_key t \<and> turn_live (f t) = turn_live t \<and> turn_step t (f t)" for t
    using assms [of t] by (simp add: turn_fixed_def turn_outcome_def turn_live_def turn_step_def)
  have "talks d (set_turn i f d)" by (rule talks_same) (simp_all add: set_turn_def)
  moreover have "turns_ok (set_turn i f d)" if "turns_ok d"
    by (rule touch_turn [OF that, where p = "\<lambda>t. ct_task_id t = i" and f = f]) (use f in \<open>simp_all add: set_turn_def\<close>)
  moreover have "turns_step d (set_turn i f d)"
    by (rule turns_step_update [where p = "\<lambda>t. ct_task_id t = i" and f = f]) (use f in \<open>simp_all add: set_turn_def\<close>)
  ultimately show ?thesis by (simp add: proceeds_def)
qed

subsection \<open>Ending a turn\<close>

lemmas turn_parts = turn_fixed_def turn_lease_def turn_outcome_def turn_key_def

lemma task_in_transaction_Inr:
  assumes "task_in_transaction task d = Inr (t, c)"
  shows "t \<in> set (conversation_tasks d)" "ct_task_id t = task" "ct_agent_id t = CODEX_AGENT_ID"
    "c \<in> set (agent_conversations d)" "conversation_key c = snd (turn_key t)"
  using assms
  by (auto simp: task_in_transaction_def result_simps bind_eq_Some_conv find_Some_iff conversation_key_def turn_key_def)

lemma fail_state_proceeds:
  assumes "t \<in> set (conversation_tasks d)" "fail_task_state E db_now (t, c) error d = Inr d'"
  shows "proceeds d d'"
proof -
  obtain v where d': "d' = d\<lparr>conversation_tasks := row_update (\<lambda>x. ct_task_id x = ct_task_id t \<and> turn_live x)
        (\<lambda>x. x\<lparr>ct_state := Turn_failed, ct_failure := Some v, ct_updated_at := db_now\<rparr>) (conversation_tasks d),
      agent_conversations := row_update (\<lambda>x. cv_conversation_id x = ct_conversation_id t \<and> cv_active_task_id x = Some (ct_task_id t))
        (\<lambda>x. x\<lparr>cv_state := Conv_unusable, cv_active_task_id := None, cv_updated_at := db_now\<rparr>) (agent_conversations d)\<rparr>"
    using assms(2) by (auto simp: fail_task_state_def result_simps)
  have "talks d d'" by (rule talks_same) (simp_all add: d')
  moreover have "turns_ok d'" if ok: "turns_ok d"
  proof (rule end_turn [OF ok assms(1)])
    show "conversation_tasks d' = row_update (\<lambda>x. ct_task_id x = ct_task_id t \<and> turn_live x)
        (\<lambda>x. x\<lparr>ct_state := Turn_failed, ct_failure := Some v, ct_updated_at := db_now\<rparr>) (conversation_tasks d)" by (simp add: d')
    show "agent_conversations d' = row_update (\<lambda>x. cv_conversation_id x = ct_conversation_id t \<and> cv_active_task_id x = Some (ct_task_id t))
        (\<lambda>x. x\<lparr>cv_state := Conv_unusable, cv_active_task_id := None, cv_updated_at := db_now\<rparr>) (agent_conversations d)" by (simp add: d')
    show "cv_conversation_id x = ct_conversation_id t \<and> cv_active_task_id x = Some (ct_task_id t) \<longleftrightarrow>
        cv_active_task_id x = Some (ct_task_id t)" if "x \<in> set (agent_conversations d)" for x
      using active_of(2) [OF ok assms(1) that] by (auto simp: conversation_key_def turn_key_def)
  qed (simp_all add: turn_key_def turn_live_def conversation_key_def busy_def)
  moreover have "turns_step d d'"
    by (rule turns_step_update [where p = "\<lambda>x. ct_task_id x = ct_task_id t \<and> turn_live x"
          and f = "\<lambda>x. x\<lparr>ct_state := Turn_failed, ct_failure := Some v, ct_updated_at := db_now\<rparr>"])
      (simp_all add: d' turn_step_def turn_parts)
  ultimately show ?thesis by (simp add: proceeds_def)
qed

lemma insert_update_proceeds: "insert_update u d = Inr d' \<Longrightarrow> proceeds d d'"
  by (rule proceeds_same; (rule talks_same)?) (auto simp: insert_update_def result_simps)

lemma insert_update_request_proceeds:
  assumes "insert_update_request q d = Inr d'"
  shows "proceeds d d'"
  by (rule proceeds_same) (use assms log_ok_frame [of d' d] in \<open>auto simp: insert_update_request_def result_simps talks_def\<close>)

lemma ordinal_proceeds: "proceeds d (set_turn i (\<lambda>t. t\<lparr>ct_last_update_ordinal := n\<rparr>) d)"
  by (rule touch_proceeds) (simp add: turn_parts)

lemma fail_task_proceeds:
  assumes "t \<in> set (conversation_tasks d)" "fail_task E db_now update_id (t, c) error d = Inr d'"
  shows "proceeds d d'"
proof -
  obtain d1 d2 n where *: "fail_task_state E db_now (t, c) error d = Inr d1" "proceeds d1 d2"
    "d' = set_turn (ct_task_id t) (\<lambda>t. t\<lparr>ct_last_update_ordinal := n\<rparr>) d2"
    using assms(2) insert_update_proceeds by (fastforce simp: fail_task_def Let_def result_simps)
  show ?thesis using proceeds_trans [OF fail_state_proceeds [OF assms(1) *(1)] proceeds_trans [OF *(2) ordinal_proceeds]] *(3) by simp
qed

definition complete_rows :: "turn_row \<Rightarrow> (turn_row \<Rightarrow> turn_row) \<Rightarrow> timestamp \<Rightarrow> db \<Rightarrow> db" where
  "complete_rows t f now d = set_conversation (ct_conversation_id t)
     (\<lambda>c. c\<lparr>cv_state := Conv_ready, cv_active_task_id := None, cv_consumed_revision := ct_context_revision t,
            cv_updated_at := now\<rparr>) (set_turn (ct_task_id t) f d)"

lemma complete_rows_proceeds:
  assumes t: "t \<in> set (conversation_tasks d)" "turn_live t"
    and f: "\<And>x. turn_fixed (f x) = turn_fixed x \<and> turn_lease (f x) = turn_lease x \<and> ct_state (f x) = Turn_completed"
  shows "proceeds d (complete_rows t f now d)"
proof -
  let ?g = "\<lambda>c. c\<lparr>cv_state := Conv_ready, cv_active_task_id := None, cv_consumed_revision := ct_context_revision t, cv_updated_at := now\<rparr>"
  have rows: "conversation_tasks (complete_rows t f now d) = row_update (\<lambda>x. ct_task_id x = ct_task_id t) f (conversation_tasks d)"
    "agent_conversations (complete_rows t f now d) =
       row_update (\<lambda>c. cv_conversation_id c = ct_conversation_id t) ?g (agent_conversations d)"
    by (simp_all add: complete_rows_def set_turn_def set_conversation_def)
  have "talks d (complete_rows t f now d)"
    by (rule talks_same) (simp_all add: complete_rows_def set_turn_def set_conversation_def)
  moreover have "turns_ok (complete_rows t f now d)" if ok: "turns_ok d"
    by (rule end_turn [OF ok t(1) rows(1) _ _ rows(2)])
      (use f conversation_of [OF ok t] in \<open>auto simp: turn_fixed_def turn_live_def conversation_key_def busy_def\<close>)
  moreover have "turns_step d (complete_rows t f now d)" if ok: "turns_ok d"
  proof (rule turns_step_update [OF rows(1)])
    fix x assume "x \<in> set (conversation_tasks d)" "ct_task_id x = ct_task_id t"
    then have "x = t" using unique_turn [OF ok t(1)] by blast
    then show "turn_step x (f x)" using f [of t] t(2) by (simp add: turn_step_def)
  qed
  ultimately show ?thesis by (simp add: proceeds_def)
qed

lemma disclose_all_frame:
  "disclose_all E policy t sources d = Inr d' \<Longrightarrow> d' = d\<lparr>conversation_disclosures := conversation_disclosures d'\<rparr>"
proof (induction sources arbitrary: d)
  case (Cons s sources)
  then obtain d1 where d1: "disclose E policy t s d = Inr d1" "disclose_all E policy t sources d1 = Inr d'"
    by (auto simp: result_simps)
  have "d1 = d\<lparr>conversation_disclosures := conversation_disclosures d1\<rparr>"
    using d1(1) by (auto simp: disclose_def result_simps)
  then have "d1\<lparr>conversation_disclosures := xs\<rparr> = d\<lparr>conversation_disclosures := xs\<rparr>" for xs
    by (metis db.surjective db.update_convs(10))
  with Cons.IH [OF d1(2)] show ?case by simp
qed simp

lemma disclose_all_proceeds: "disclose_all E policy t sources d = Inr d' \<Longrightarrow> proceeds d d'"
proof -
  assume "disclose_all E policy t sources d = Inr d'"
  from disclose_all_frame [OF this] obtain xs where "d' = d\<lparr>conversation_disclosures := xs\<rparr>" by blast
  then show ?thesis by (intro proceeds_same talks_same) simp_all
qed

lemma complete_proceeds:
  assumes "t \<in> set (conversation_tasks d)" "turn_live t"
    "complete_turn E policy event_id now t data d = Inr ((ack, reply), d')"
  shows "proceeds d d'"
proof -
  obtain d1 f sources where *: "append_event_in_transaction E event_id (reply_event t data now) d = Inr (reply, d1)"
    "disclose_all E policy t sources (complete_rows t f (pg_time E now) d1) = Inr d'"
    "\<And>x. turn_fixed (f x) = turn_fixed x \<and> turn_lease (f x) = turn_lease x \<and> ct_state (f x) = Turn_completed"
  proof -
    from assms(3) obtain d1 result ack_row effective usage sources where
      "append_event_in_transaction E event_id (reply_event t data now) d = Inr (reply, d1)"
      "disclose_all E policy t sources (complete_rows t
         (\<lambda>x. x\<lparr>ct_state := Turn_completed, ct_result := Some result, ct_reply_event_id := Some (ev_event_id reply),
                ct_receipt_acknowledgement := Some ack_row, ct_effective_settings := effective,
                ct_usage := usage, ct_updated_at := pg_time E now\<rparr>) (pg_time E now) d1) = Inr d'"
      by (auto simp: complete_turn_def Let_def result_simps complete_rows_def)
    then show thesis by (rule that) (simp add: turn_parts)
  qed
  have "d1 = d\<lparr>room_events := room_events d @ [reply]\<rparr>" using *(1) by (simp add: append_Inr)
  then have "t \<in> set (conversation_tasks d1)" using assms(1) by simp
  note rows = complete_rows_proceeds [where f = f, OF this assms(2) *(3)]
  have "proceeds d d1" by (rule append_proceeds [OF *(1)]) (simp add: reply_event_def)
  from proceeds_trans [OF this proceeds_trans [OF rows disclose_all_proceeds [OF *(2)]]] show ?thesis .
qed

lemma note_kind_proceeds:
  assumes "t \<in> set (conversation_tasks d)" "note_kind E db_now now (t, c) kind data d = Inr d'"
  shows "proceeds d d'"
proof -
  obtain d1 where d1: "(if kind = ''failed'' then
              rbind (ok_or InvalidTaskInput (as_str (jidx data ''code''))) (\<lambda>code.
              rbind (failure_code code) (\<lambda>error. fail_task_state E db_now (t, c) error d)) else Inr d) = Inr d1"
    "d' = d1 \<or> (\<exists>f. d' = set_turn (ct_task_id t) f d1 \<and>
       (\<forall>x. turn_fixed (f x) = turn_fixed x \<and> turn_lease (f x) = turn_lease x \<and> turn_outcome (f x) = turn_outcome x))"
    using assms(2) by (fastforce simp: note_kind_def result_simps turn_parts split: if_splits)
  have "proceeds d d1"
    using d1(1) fail_state_proceeds [OF assms(1)] by (auto simp: result_simps proceeds_refl split: if_splits)
  moreover have "proceeds d1 d'" using d1(2) touch_proceeds proceeds_refl by blast
  ultimately show ?thesis by (rule proceeds_trans)
qed

lemma displace_frame:
  "displace E kind task d = d\<lparr>conversation_updates := conversation_updates (displace E kind task d)\<rparr>"
  by (simp add: displace_def drop_updates_def Let_def)

lemma retain_cases:
  assumes "retain_update E now t update_id ordinal kind data d = Inr d'"
  obtains (coalesced) "coalesced E now t kind data d" "d' = d"
  | (kept) v us where "\<not> coalesced E now t kind data d" "jsonb E data = Some v"
    "insert_update \<lparr>cu_task_id = ct_task_id t, cu_update_id = update_id, cu_ordinal = ordinal, cu_kind = kind,
       cu_occurred_at = pg_time E now, cu_data = v\<rparr> (displace E kind (ct_task_id t) d) = Inr (d\<lparr>conversation_updates := us\<rparr>)"
    "d' = (if kind = ''progress'' then set_turn (ct_task_id t) (\<lambda>t. t\<lparr>ct_last_progress_at := Some (pg_time E now)\<rparr>)
       (d\<lparr>conversation_updates := us\<rparr>) else d\<lparr>conversation_updates := us\<rparr>)"
proof (cases "coalesced E now t kind data d")
  case True
  then have "d' = d" using assms by (simp add: retain_update_def)
  then show thesis by (rule coalesced [OF True])
next
  case False
  obtain v d3 where v: "jsonb E data = Some v" "insert_update \<lparr>cu_task_id = ct_task_id t, cu_update_id = update_id,
      cu_ordinal = ordinal, cu_kind = kind, cu_occurred_at = pg_time E now, cu_data = v\<rparr> (displace E kind (ct_task_id t) d) = Inr d3"
    "d' = (if kind = ''progress'' then set_turn (ct_task_id t) (\<lambda>t. t\<lparr>ct_last_progress_at := Some (pg_time E now)\<rparr>) d3 else d3)"
    using assms unfolding retain_update_def if_not_P [OF False] stored_def by (simp only: result_simps) (elim exE conjE, simp)
  obtain xs where xs: "displace E kind (ct_task_id t) d = d\<lparr>conversation_updates := xs\<rparr>" using displace_frame by blast
  obtain us where "d3 = d\<lparr>conversation_updates := us\<rparr>" using v(2) by (auto simp: insert_update_def result_simps xs)
  then show thesis using kept [OF False v(1)] v(2,3) by simp
qed

lemma retain_proceeds:
  assumes "retain_update E now t update_id ordinal kind data d = Inr d'"
  shows "proceeds d d'"
  using assms
proof (cases rule: retain_cases)
  case coalesced
  then show ?thesis by (simp add: proceeds_refl)
next
  case (kept v us)
  have "proceeds d (d\<lparr>conversation_updates := us\<rparr>)" by (intro proceeds_same talks_same) simp_all
  moreover have "proceeds d1 (set_turn i (\<lambda>t. t\<lparr>ct_last_progress_at := x\<rparr>) d1)" for d1 i x
    by (rule touch_proceeds) (simp add: turn_parts)
  ultimately show ?thesis unfolding kept(4) using proceeds_trans by (simp split: if_splits)
qed

lemma apply_update_Inr:
  assumes "apply_update E policy db_now clock event_id (t, c) lease update_id request d = Inr (outcome, d')"
  obtains ordinal kind d1 d2 q where
    "carry_out E policy db_now (clock 1) event_id (t, c) update_id ordinal kind (jidx request ''data'') d =
       Inr (uo_response outcome, uo_event outcome, d1)"
    "retain_update E (clock 1) t update_id ordinal kind (jidx request ''data'') d1 = Inr d2"
    "insert_update_request q (set_turn (ct_task_id t) (\<lambda>t. t\<lparr>ct_last_update_ordinal := ordinal\<rparr>) d2) = Inr d'"
    "jidx request ''kind'' = JStr kind" "ct_last_update_ordinal t < ordinal"
    "ordinal = MAX_SAFE_INTEGER \<longrightarrow> kind \<in> {''completed'', ''failed''}"
    "cq_task_id q = ct_task_id t" "cq_update_id q = update_id" "cq_ordinal q = ordinal"
    "jsonb E request = Some (cq_request q)" "jsonb E (uo_response outcome) = Some (cq_response q)"
proof -
  define admitted where "admitted n k \<longleftrightarrow> \<not> (n = MAX_SAFE_INTEGER \<and> k \<notin> {''completed'', ''failed''})" for n k
  have "\<exists>ordinal kind d1 d2 ra rb.
    carry_out E policy db_now (clock 1) event_id (t, c) update_id ordinal kind (jidx request ''data'') d =
       Inr (uo_response outcome, uo_event outcome, d1) \<and>
    retain_update E (clock 1) t update_id ordinal kind (jidx request ''data'') d1 = Inr d2 \<and>
    insert_update_request \<lparr>cq_task_id = ct_task_id t, cq_update_id = update_id, cq_ordinal = ordinal, cq_request = ra,
       cq_response = rb, cq_received_at = pg_time E (clock 1)\<rparr>
       (set_turn (ct_task_id t) (\<lambda>t. t\<lparr>ct_last_update_ordinal := ordinal\<rparr>) d2) = Inr d' \<and>
    ct_last_update_ordinal t < ordinal \<and> admitted ordinal kind \<and> as_str (jidx request ''kind'') = Some kind \<and>
    jsonb E request = Some ra \<and> jsonb E (uo_response outcome) = Some rb"
    using assms unfolding apply_update_def Let_def fst_conv admitted_def [symmetric] stored_def by (clarsimp simp: result_simps) blast
  then obtain ordinal kind d1 d2 ra rb where *:
    "carry_out E policy db_now (clock 1) event_id (t, c) update_id ordinal kind (jidx request ''data'') d =
       Inr (uo_response outcome, uo_event outcome, d1)"
    "retain_update E (clock 1) t update_id ordinal kind (jidx request ''data'') d1 = Inr d2"
    "insert_update_request \<lparr>cq_task_id = ct_task_id t, cq_update_id = update_id, cq_ordinal = ordinal, cq_request = ra,
       cq_response = rb, cq_received_at = pg_time E (clock 1)\<rparr>
       (set_turn (ct_task_id t) (\<lambda>t. t\<lparr>ct_last_update_ordinal := ordinal\<rparr>) d2) = Inr d'"
    "ct_last_update_ordinal t < ordinal" "admitted ordinal kind" "as_str (jidx request ''kind'') = Some kind"
    "jsonb E request = Some ra" "jsonb E (uo_response outcome) = Some rb" by blast
  show thesis by (rule that [OF *(1-3) _ *(4)]) (use *(5-8) in \<open>auto simp: admitted_def elim: as_str.elims\<close>)
qed

lemma apply_update_proceeds:
  assumes "t \<in> set (conversation_tasks d)" "turn_live t"
    "apply_update E policy db_now clock event_id (t, c) lease update_id request d = Inr (outcome, d')"
  shows "proceeds d d'"
proof -
  obtain ordinal kind d1 d2 q where *:
    "carry_out E policy db_now (clock 1) event_id (t, c) update_id ordinal kind (jidx request ''data'') d = Inr (uo_response outcome, uo_event outcome, d1)"
    "retain_update E (clock 1) t update_id ordinal kind (jidx request ''data'') d1 = Inr d2"
    "insert_update_request q (set_turn (ct_task_id t) (\<lambda>t. t\<lparr>ct_last_update_ordinal := ordinal\<rparr>) d2) = Inr d'"
    by (rule apply_update_Inr [OF assms(3)]) blast
  have "proceeds d d1"
    using *(1) complete_proceeds [OF assms(1,2)] note_kind_proceeds [OF assms(1)]
    by (auto simp: carry_out_def result_simps split: if_splits prod.splits)
  moreover have "proceeds d1 d2" by (rule retain_proceeds [OF *(2)])
  moreover have "proceeds d2 d'" by (rule proceeds_trans [OF ordinal_proceeds insert_update_request_proceeds [OF *(3)]])
  ultimately show ?thesis using proceeds_trans by blast
qed

lemma authority_live:
  "task_authority policy now (t, c) lease claiming = Inr u \<Longrightarrow> turn_live t"
  "task_authority policy now (t, c) lease True = Inr u \<Longrightarrow> ct_lease_token t = None \<and> ct_state t = Turn_reserved"
  "task_authority policy now (t, c) (Some l) False = Inr u \<Longrightarrow> ct_lease_token t = Some l"
  by (auto simp: task_authority_def result_simps split: if_splits)

lemma admit_update_Inr:
  assumes "admit_update E policy task lease request d = Inr ((t, c), update_id)"
  shows "task_in_transaction task d = Inr (t, c)" "ct_lease_token t = Some lease"
  using assms by (auto simp: admit_update_def result_simps)

lemma record_update_proceeds: "proceeds d (snd (record_update E policy db_now clock event_id failure_id task lease request d))"
proof (cases "admit_update E policy task lease request d")
  case (Inr x)
  then obtain t c update_id where x: "admit_update E policy task lease request d = Inr ((t, c), update_id)" by (cases x) auto
  note t = task_in_transaction_Inr(1) [OF admit_update_Inr(1) [OF x]]
  show ?thesis
    using x fail_task_proceeds [OF t] apply_update_proceeds [OF t authority_live(1)]
    by (auto simp: record_update_def proceeds_refl split: option.splits sum.splits)
qed (simp add: record_update_def proceeds_refl)

lemma packet_proceeds: "proceeds d (snd (turn_packet E policy db_now now failure_id task lease d))"
proof (cases "task_in_transaction task d")
  case (Inr x)
  then obtain t c where x: "task_in_transaction task d = Inr (t, c)" by (cases x) auto
  show ?thesis
    using x fail_task_proceeds [OF task_in_transaction_Inr(1) [OF x]]
    by (cases "owned_room task d") (auto simp: turn_packet_def Let_def proceeds_refl split: sum.splits)
qed (cases "owned_room task d"; simp add: turn_packet_def proceeds_refl)

subsection \<open>Leasing a turn\<close>

lemma lease_Inr:
  assumes "lease_turn E policy owner i t d = Inr (step, d')"
  obtains expiry v where "step = Claimed v" "d' = set_conversation (ct_conversation_id t)
       (\<lambda>c. c\<lparr>cv_state := Conv_running, cv_updated_at := ci_db_now i\<rparr>)
       (set_turn (ct_task_id t)
         (\<lambda>t. t\<lparr>ct_state := Turn_running, ct_lease_owner := Some owner, ct_lease_token := Some (ci_token i),
                ct_lease_expires_at := Some expiry, ct_updated_at := ci_db_now i\<rparr>) d)"
  using assms by (auto simp: lease_turn_def Let_def result_simps)

lemma lease_proceeds:
  assumes t: "t \<in> set (conversation_tasks d)" "turn_live t" "ct_lease_token t = None"
    and lease: "lease_turn E policy owner i t d = Inr (step, d')"
  shows "proceeds d d'"
proof -
  obtain expiry where d': "d' = set_conversation (ct_conversation_id t)
       (\<lambda>c. c\<lparr>cv_state := Conv_running, cv_updated_at := ci_db_now i\<rparr>)
       (set_turn (ct_task_id t)
         (\<lambda>t. t\<lparr>ct_state := Turn_running, ct_lease_owner := Some owner, ct_lease_token := Some (ci_token i),
                ct_lease_expires_at := Some expiry, ct_updated_at := ci_db_now i\<rparr>) d)" by (rule lease_Inr [OF lease])
  let ?f = "\<lambda>t. t\<lparr>ct_state := Turn_running, ct_lease_owner := Some owner, ct_lease_token := Some (ci_token i),
                ct_lease_expires_at := Some expiry, ct_updated_at := ci_db_now i\<rparr>"
  have rows: "conversation_tasks d' = row_update (\<lambda>x. ct_task_id x = ct_task_id t) ?f (conversation_tasks d)"
    "agent_conversations d' = row_update (\<lambda>c. cv_conversation_id c = ct_conversation_id t)
       (\<lambda>c. c\<lparr>cv_state := Conv_running, cv_updated_at := ci_db_now i\<rparr>) (agent_conversations d)"
    by (simp_all add: d' set_turn_def set_conversation_def)
  have "talks d d'" by (rule talks_same) (simp_all add: d' set_turn_def set_conversation_def)
  moreover have "turns_ok d'" if ok: "turns_ok d"
    by (rule run_turn [OF ok t(1,2) rows(1) _ rows(2)]) (simp_all add: turn_key_def turn_live_def conversation_key_def busy_def)
  moreover have "turns_step d d'" if ok: "turns_ok d"
  proof (rule turns_step_update [OF rows(1)])
    fix x assume "x \<in> set (conversation_tasks d)" "ct_task_id x = ct_task_id t"
    then have "x = t" using unique_turn [OF ok t(1)] by blast
    then show "turn_step x (?f x)" using t(2,3) by (simp add: turn_step_def turn_fixed_def turn_key_def)
  qed
  ultimately show ?thesis by (simp add: proceeds_def)
qed

lemma claim_proceeds: "proceeds d (commit d (claim_once E policy owner i d))"
proof (cases "claim_once E policy owner i d")
  case (Inr x)
  obtain step d' where x: "claim_once E policy owner i d = Inr (step, d')" using Inr by (cases x) auto
  show ?thesis
  proof (cases "claim_candidates (ci_db_now i) d")
    case (Cons candidate rest)
    then obtain t c where tc: "task_in_transaction (ct_task_id candidate) d = Inr (t, c)"
      using x by (auto simp: claim_once_def result_simps)
    note t = task_in_transaction_Inr(1) [OF tc]
    show ?thesis
      using x Cons tc fail_task_proceeds [OF t] lease_proceeds [OF t authority_live(1)] authority_live(2)
      by (auto simp: claim_once_def commit_def result_simps split: sum.splits)
  qed (use x in \<open>simp add: claim_once_def commit_def proceeds_refl\<close>)
qed (simp add: commit_def proceeds_refl)

end
