(* ===== verification/Conversation_Safety.thy ===== *)
theory Conversation_Safety
  imports Conversation_Lifecycle
begin

text \<open>
  What the conversation store promises.  A reservation keeps the invariants of the live turns, so every
  operation does; from there: a lease is granted once, an ended turn stays as it ended, a room has one live
  turn, overdue turns are ended, and the reports retained for the browser are few.
\<close>

subsection \<open>Reserving a turn\<close>

definition plan_fits :: "turn_plan \<Rightarrow> db \<Rightarrow> bool" where
  \<comment> \<open>what the plan says about the room's conversation\<close>
  "plan_fits plan d \<longleftrightarrow> pl_current plan = current_conversation (pl_room plan) d \<and>
     (case pl_current plan of None \<Rightarrow> True | Some c \<Rightarrow> \<not> busy c) \<and>
     (if pl_mode plan = ''continue''
      then \<exists>c. pl_current plan = Some c \<and> cv_state c = Conv_ready \<and> pl_conversation_id plan = cv_conversation_id c \<and>
             pl_generation plan = cv_generation c
      else \<forall>c \<in> set (agent_conversations d). cv_room_id c = pl_room plan \<and> cv_agent_id c = CODEX_AGENT_ID \<longrightarrow>
             cv_generation c < pl_generation plan)"

lemma plan_fits_same: "agent_conversations d' = agent_conversations d \<Longrightarrow> plan_fits plan d' = plan_fits plan d"
  by (simp add: plan_fits_def current_conversation_def)

lemma place_turn_fits:
  assumes "place_turn E policy fresh request room explicit_mode mode current d = Inr (i, n, base)"
  shows "if mode = ''continue'' then \<exists>c. current = Some c \<and> cv_state c = Conv_ready \<and> i = cv_conversation_id c \<and> n = cv_generation c
    else \<forall>c \<in> set (agent_conversations d). cv_room_id c = room \<and> cv_agent_id c = CODEX_AGENT_ID \<longrightarrow> cv_generation c < n"
proof (cases "mode = ''continue''")
  case True
  then show ?thesis using assms by (auto simp: place_turn_def result_simps split: if_splits)
next
  case False
  let ?cs = "filter (\<lambda>c. cv_room_id c = room \<and> cv_agent_id c = CODEX_AGENT_ID) (agent_conversations d)"
  have "n = max_key cv_generation ?cs + 1" using assms False by (simp add: place_turn_def Let_def split: if_splits)
  then show ?thesis using False max_key_ge [of _ ?cs cv_generation] by fastforce
qed

lemma plan_turn_Inr:
  assumes "plan_turn E policy fresh request room request_id fp now expiry d = Inr plan"
  shows "plan_fits plan d" "pl_room plan = room" "pl_request_id plan = request_id" "pl_authorization plan = expiry" "pl_now plan = now"
    "pl_request plan = request" "pl_fingerprint plan = fp"
proof -
  from assms obtain m where m:
    "place_turn E policy fresh request room m (pl_mode plan) (pl_current plan) d =
       Inr (pl_conversation_id plan, pl_generation plan, pl_base plan)"
    "pl_current plan = current_conversation room d"
    "case pl_current plan of None \<Rightarrow> True | Some c \<Rightarrow> cv_state c \<notin> {Conv_reserved, Conv_running}" "pl_room plan = room"
    unfolding plan_turn_def Let_def by (simp only: result_simps) (elim exE conjE, simp only: prod.case split: prod.splits, fastforce simp: result_simps)
  show "pl_room plan = room" "pl_request_id plan = request_id" "pl_authorization plan = expiry" "pl_now plan = now"
    "pl_request plan = request" "pl_fingerprint plan = fp"
    using assms unfolding plan_turn_def Let_def by (auto simp: result_simps split: prod.splits)
  have "case pl_current plan of None \<Rightarrow> True | Some c \<Rightarrow> \<not> busy c" using m(3) by (auto simp: busy_def split: option.splits)
  then show "plan_fits plan d" using place_turn_fits [OF m(1)] m(2,4) unfolding plan_fits_def by (simp split: if_splits)
qed

lemma reserve_prepare_Planned:
  assumes "reserve_prepare E policy state fresh clock actor request expiry d = Inr (Planned plan)"
  shows "plan_fits plan d" "prior_request (pl_room plan) (pl_request_id plan) d = None"
    "authorize_conversation_turn E actor expiry (pl_now plan) (turn_minimum policy) = Inr (pl_authorization plan)"
proof -
  have replay: "replay_turn p fp r q a d \<noteq> Inr (Planned plan)" for p fp r q a
    by (simp add: replay_turn_def split: option.splits)
  obtain input room request_id limit where
    "plan_turn E policy fresh input room request_id (turn_fingerprint E (act_id actor) input) (clock 1) limit d = Inr plan"
    "\<forall>p es. prior_request room request_id d \<noteq> Some (p, es)"
    "authorize_conversation_turn E actor expiry (clock 1) (turn_minimum policy) = Inr limit"
    using assms replay unfolding reserve_prepare_def Let_def by (auto simp: result_simps split: option.splits)
  moreover from this(2) have "prior_request room request_id d = None" by (cases "prior_request room request_id d") auto
  ultimately show "plan_fits plan d" "prior_request (pl_room plan) (pl_request_id plan) d = None"
    "authorize_conversation_turn E actor expiry (pl_now plan) (turn_minimum policy) = Inr (pl_authorization plan)"
    using plan_turn_Inr by simp_all
qed

definition standing :: "db \<Rightarrow> bool" where
  "standing d \<longleftrightarrow> distinct (map cv_conversation_id (agent_conversations d)) \<and> distinct (seats d) \<and>
     (\<forall>c \<in> set (agent_conversations d). busy c \<longleftrightarrow> cv_active_task_id c \<noteq> None)"

lemma turns_ok_standing: "turns_ok d \<Longrightarrow> standing d"
  by (simp add: turns_ok_def standing_def)

lemma standing_only:
  "standing d \<Longrightarrow> c \<in> set (agent_conversations d) \<Longrightarrow> x \<in> set (agent_conversations d) \<Longrightarrow>
     cv_conversation_id x = cv_conversation_id c \<Longrightarrow> x = c"
  unfolding standing_def by (metis distinct_map_inj)

lemma current_in:
  assumes "current_conversation room d = Some c"
  shows "c \<in> set (agent_conversations d)" "cv_room_id c = room" "cv_agent_id c = CODEX_AGENT_ID" "cv_state c \<noteq> Conv_superseded"
  using assms by (auto simp: current_conversation_def find_Some_iff)

lemma supersede_standing:
  assumes ok: "standing d" and c: "c \<in> set (agent_conversations d)" "\<not> busy c"
    and d': "d' = set_conversation (cv_conversation_id c) (\<lambda>c. c\<lparr>cv_state := Conv_superseded, cv_active_task_id := None, cv_updated_at := now\<rparr>) d"
  shows "standing d'" "active_keys d' = active_keys d"
proof -
  let ?q = "\<lambda>x. cv_conversation_id x = cv_conversation_id c"
  let ?g = "\<lambda>c. c\<lparr>cv_state := Conv_superseded, cv_active_task_id := None, cv_updated_at := now\<rparr>"
  have rows: "agent_conversations d' = row_update ?q ?g (agent_conversations d)" by (simp add: d' set_conversation_def)
  have idle: "cv_active_task_id x = None" if "x \<in> set (agent_conversations d)" "?q x" for x
    using standing_only [OF ok c(1) that] c ok by (auto simp: standing_def)
  have same: "cv_active_task_id (if ?q x then ?g x else x) = cv_active_task_id x" if "x \<in> set (agent_conversations d)" for x
    using idle [OF that] by simp
  have "active_keys d' = {(i, conversation_key x) | i x. x \<in> set (agent_conversations d) \<and> cv_active_task_id (if ?q x then ?g x else x) = Some i}"
    by (rule active_keys_update [OF rows]) (simp add: conversation_key_def)
  also have "\<dots> = active_keys d" unfolding active_keys_def by (intro Collect_cong ex_cong1 conj_cong refl) (simp only: same)
  finally show "active_keys d' = active_keys d" .
  have "busy (if ?q x then ?g x else x) \<longleftrightarrow> cv_active_task_id (if ?q x then ?g x else x) \<noteq> None" if "x \<in> set (agent_conversations d)" for x
    using ok that by (simp add: standing_def busy_def)
  then have "\<forall>c \<in> set (agent_conversations d'). busy c \<longleftrightarrow> cv_active_task_id c \<noteq> None"
    unfolding rows set_row_update_image by blast
  moreover have "map cv_conversation_id (agent_conversations d') = map cv_conversation_id (agent_conversations d)"
    by (simp add: rows map_row_update)
  moreover have "map seat (filter (\<lambda>x. cv_state x \<noteq> Conv_superseded) (row_update ?q ?g xs)) =
      map seat (filter (\<lambda>x. \<not> ?q x) (filter (\<lambda>x. cv_state x \<noteq> Conv_superseded) xs))" for xs
    by (induction xs) (auto simp: row_update_def)
  then have "seats d' = map seat (filter (\<lambda>x. \<not> ?q x) (filter (\<lambda>x. cv_state x \<noteq> Conv_superseded) (agent_conversations d)))"
    by (simp only: seats_def rows)
  then have "distinct (seats d')" using ok unfolding standing_def seats_def by (metis distinct_map_filter)
  ultimately show "standing d'" using ok by (simp add: standing_def)
qed

lemma insert_standing:
  assumes ok: "standing d" and c: "busy c" "cv_active_task_id c = Some i" "insert_conversation c d = Inr d'"
  shows "standing d'" "active_keys d' = insert (i, conversation_key c) (active_keys d)" "conversation_tasks d' = conversation_tasks d"
proof -
  have d': "d' = d\<lparr>agent_conversations := agent_conversations d @ [c]\<rparr>" and
    fresh: "\<And>x. x \<in> set (agent_conversations d) \<Longrightarrow> cv_conversation_id x \<noteq> cv_conversation_id c"
    "\<And>x. x \<in> set (agent_conversations d) \<Longrightarrow> cv_state x \<noteq> Conv_superseded \<Longrightarrow> seat x \<noteq> seat c"
    using c(3) by (auto simp: insert_conversation_def result_simps list_ex_iff seat_def)
  have "seats d' = seats d @ [seat c]" using c(1) by (auto simp: seats_def d' busy_def)
  moreover have "seat c \<notin> set (seats d)" using fresh(2) by (force simp: seats_def)
  moreover have "cv_conversation_id c \<notin> cv_conversation_id ` set (agent_conversations d)" using fresh(1) by force
  ultimately show "standing d'" using ok c(1,2) by (simp add: standing_def d')
  show "active_keys d' = insert (i, conversation_key c) (active_keys d)" using c(2) by (auto simp: active_keys_def d')
  show "conversation_tasks d' = conversation_tasks d" by (simp add: d')
qed

lemma resume_standing:
  assumes ok: "standing d" and c: "c \<in> set (agent_conversations d)" "cv_state c = Conv_ready"
    and d': "d' = set_conversation (cv_conversation_id c)
       (\<lambda>c. c\<lparr>cv_state := Conv_reserved, cv_active_task_id := Some i, cv_selected_settings := v, cv_updated_at := now\<rparr>) d"
  shows "standing d'" "active_keys d' = insert (i, conversation_key c) (active_keys d)"
proof -
  let ?q = "\<lambda>x. cv_conversation_id x = cv_conversation_id c"
  let ?g = "\<lambda>c. c\<lparr>cv_state := Conv_reserved, cv_active_task_id := Some i, cv_selected_settings := v, cv_updated_at := now\<rparr>"
  have rows: "agent_conversations d' = row_update ?q ?g (agent_conversations d)" by (simp add: d' set_conversation_def)
  have only: "x = c" if "x \<in> set (agent_conversations d)" "?q x" for x using standing_only [OF ok c(1) that] .
  have idle: "cv_active_task_id c = None" using ok c by (auto simp: standing_def busy_def)
  have "active_keys d' = {(j, conversation_key x) | j x. x \<in> set (agent_conversations d) \<and> cv_active_task_id (if ?q x then ?g x else x) = Some j}"
    by (rule active_keys_update [OF rows]) (simp add: conversation_key_def)
  also have "\<dots> = insert (i, conversation_key c) (active_keys d)"
  proof -
    have "cv_active_task_id (if ?q x then ?g x else x) = Some j \<longleftrightarrow> x = c \<and> j = i \<or> cv_active_task_id x = Some j"
      if "x \<in> set (agent_conversations d)" for x j using only [OF that] idle by auto
    then show ?thesis using c(1) unfolding active_keys_def by blast
  qed
  finally show "active_keys d' = insert (i, conversation_key c) (active_keys d)" .
  have "busy (if ?q x then ?g x else x) \<longleftrightarrow> cv_active_task_id (if ?q x then ?g x else x) \<noteq> None" if "x \<in> set (agent_conversations d)" for x
    using ok that by (simp add: standing_def busy_def)
  then have "\<forall>c \<in> set (agent_conversations d'). busy c \<longleftrightarrow> cv_active_task_id c \<noteq> None"
    unfolding rows set_row_update_image by blast
  moreover have "map cv_conversation_id (agent_conversations d') = map cv_conversation_id (agent_conversations d)"
    by (simp add: rows map_row_update)
  moreover have "seats d' = seats d"
  proof (rule seats_update [OF rows])
    fix x assume "x \<in> set (agent_conversations d)" "?q x"
    then have "x = c" by (rule only)
    then show "seat (?g x) = seat x \<and> (cv_state (?g x) = Conv_superseded \<longleftrightarrow> cv_state x = Conv_superseded)"
      using c(2) by (simp add: seat_def)
  qed
  ultimately show "standing d'" using ok by (simp add: standing_def)
qed

lemma enter_ok:
  assumes ok: "turns_ok d" and fits: "plan_fits plan d"
    and enter: "enter_conversation E policy plan task_id settings d = Inr d1" and t: "insert_turn t d1 = Inr d2"
    and key: "turn_key t = (task_id, pl_conversation_id plan, pl_room plan, CODEX_AGENT_ID, pl_generation plan)" "turn_live t"
  shows "turns_ok d2" "conversation_tasks d2 = conversation_tasks d @ [t]"
proof -
  note st = turns_ok_standing [OF ok]
  have d2: "d2 = d1\<lparr>conversation_tasks := conversation_tasks d1 @ [t]\<rparr>"
    "ct_task_id t \<notin> ct_task_id ` set (conversation_tasks d1)"
    "\<exists>c \<in> set (agent_conversations d1). cv_conversation_id c = ct_conversation_id t \<and> cv_room_id c = ct_room_id t \<and>
       cv_agent_id c = ct_agent_id t \<and> cv_generation c = ct_generation t"
    using t by (auto simp: insert_turn_def result_simps list_ex_iff)
  have "standing d1 \<and> active_keys d1 = insert (turn_key t) (active_keys d) \<and> conversation_tasks d1 = conversation_tasks d"
  proof (cases "pl_mode plan = ''new''")
    case True
    define d0 where "d0 = (case pl_current plan of None \<Rightarrow> d | Some previous \<Rightarrow>
      set_conversation (cv_conversation_id previous)
        (\<lambda>c. c\<lparr>cv_state := Conv_superseded, cv_active_task_id := None, cv_updated_at := pg_time E (pl_now plan)\<rparr>) d)"
    have d0: "standing d0 \<and> active_keys d0 = active_keys d \<and> conversation_tasks d0 = conversation_tasks d"
    proof (cases "pl_current plan")
      case (Some c)
      have c: "c \<in> set (agent_conversations d)" "\<not> busy c"
        using fits Some current_in(1) by (auto simp: plan_fits_def)
      show ?thesis using supersede_standing [OF st c, of d0] Some by (simp add: d0_def set_conversation_def)
    qed (simp add: d0_def st)
    obtain c where c: "insert_conversation c d0 = Inr d1" "busy c" "cv_active_task_id c = Some task_id"
      "conversation_key c = (pl_conversation_id plan, pl_room plan, CODEX_AGENT_ID, pl_generation plan)"
      using enter True by (simp add: enter_conversation_def Let_def d0_def [symmetric] busy_def conversation_key_def)
    show ?thesis using insert_standing [OF _ c(2,3,1)] d0 c(4) key(1) by simp
  next
    case False
    have d1: "d1 = set_conversation (pl_conversation_id plan)
        (\<lambda>c. c\<lparr>cv_state := Conv_reserved, cv_active_task_id := Some task_id, cv_selected_settings := settings,
               cv_updated_at := pg_time E (pl_now plan)\<rparr>) d"
      using enter False by (simp add: enter_conversation_def Let_def)
    show ?thesis
    proof (cases "pl_mode plan = ''continue''")
      case True
      then obtain c where c: "pl_current plan = Some c" "cv_state c = Conv_ready" "pl_conversation_id plan = cv_conversation_id c"
        "pl_generation plan = cv_generation c" "current_conversation (pl_room plan) d = Some c" using fits by (auto simp: plan_fits_def)
      note cur = current_in [OF c(5)]
      have "conversation_key c = snd (turn_key t)" using cur c key(1) by (simp add: conversation_key_def)
      then show ?thesis
        using resume_standing [where d' = d1 and i = task_id and v = settings and now = "pg_time E (pl_now plan)", OF st cur(1) c(2)]
          d1 c(3) key(1)
        by (simp add: set_conversation_def)
    next
      case other: False
      from d2(3) obtain c where "c \<in> set (agent_conversations d)" "cv_room_id c = pl_room plan" "cv_agent_id c = CODEX_AGENT_ID"
        "cv_generation c = pl_generation plan"
        using key(1) by (auto simp: d1 set_conversation_def set_row_update turn_key_def split: if_splits)
      then show ?thesis using fits other by (auto simp: plan_fits_def)
    qed
  qed
  then have d1: "standing d1" "active_keys d1 = insert (turn_key t) (active_keys d)" "conversation_tasks d1 = conversation_tasks d" by simp_all
  show "conversation_tasks d2 = conversation_tasks d @ [t]" using d1(3) d2(1) by simp
  show "turns_ok d2"
    by (rule begin_turn [OF ok, where t = t])
      (use d1 d2 key(2) in \<open>simp_all add: standing_def active_keys_def seats_def\<close>)
qed

lemma enter_frame:
  assumes "enter_conversation E policy plan task_id settings d = Inr d1" "insert_turn t d1 = Inr d2"
  shows "talks d d2"
  by (rule talks_same)
    (use assms in \<open>auto simp: enter_conversation_def insert_conversation_def insert_turn_def set_conversation_def Let_def result_simps
       split: if_splits option.splits\<close>)

lemma reserve_commit_Inr:
  assumes "reserve_commit E policy task_id event_id last_clock actor plan d = Inr (rv, d')"
  obtains at prompt d1 d2 ctx settings d3 t where
    "append_event_in_transaction E event_id (prompt_event E actor plan at) d = Inr (prompt, d1)"
    "build_context E (pl_room plan) (pl_conversation_id plan) (pl_generation plan) (pl_base plan) (ev_event_id prompt) policy d1 = Inr ctx"
    "record_request E (pl_room plan) (pl_request_id plan) (pl_fingerprint plan) [prompt] d1 = Inr d2"
    "enter_conversation E policy plan task_id settings d2 = Inr d3" "insert_turn t d3 = Inr d'"
    "turn_key t = (task_id, pl_conversation_id plan, pl_room plan, CODEX_AGENT_ID, pl_generation plan)"
    "ct_state t = Turn_reserved" "ct_lease_token t = None" "ct_request_id t = pl_request_id plan" "ct_requester_id t = act_id actor"
    "ct_last_update_ordinal t = 0" "rv_prompt rv = Some prompt" "rv_accepted rv = accepted_turn E plan task_id prompt"
    "jsonb E (rv_accepted rv) = Some (ct_accepted_turn t)"
    "ct_expires_at t = pg_time E (pl_now plan + seconds (cp_turn_deadline_seconds policy))"
    "ct_authorization_expires_at t = pg_time E (pl_authorization plan)"
    "\<exists>x. authorize_conversation_turn E actor (pl_authorization plan) last_clock (turn_minimum policy) = Inr x"
  using assms unfolding reserve_commit_def Let_def stored_def
  by (clarsimp simp: result_simps) (erule that, assumption, assumption, assumption, assumption, simp_all add: reserved_turn_def turn_key_def)

lemma reserve_proceeds: "proceeds d (run_turn_op E policy (Reserve state fresh clock actor request expiry) d)"
proof (cases "reserve_prepare E policy state (fresh 0) clock actor request expiry d")
  case (Inr step)
  show ?thesis
  proof (cases step)
    case (Planned plan)
    note fits = reserve_prepare_Planned(1) [OF Inr [unfolded Planned]]
    show ?thesis
    proof (cases "reserve_commit E policy (fresh 1) (fresh 2) (clock 2) actor plan d")
      case committed: (Inr x)
      then obtain rv d' where rc: "reserve_commit E policy (fresh 1) (fresh 2) (clock 2) actor plan d = Inr (rv, d')" by (cases x) auto
      obtain at prompt d1 d2 settings d3 t where *:
        "append_event_in_transaction E (fresh 2) (prompt_event E actor plan at) d = Inr (prompt, d1)"
        "record_request E (pl_room plan) (pl_request_id plan) (pl_fingerprint plan) [prompt] d1 = Inr d2"
        "enter_conversation E policy plan (fresh 1) settings d2 = Inr d3" "insert_turn t d3 = Inr d'"
        "turn_key t = (fresh 1, pl_conversation_id plan, pl_room plan, CODEX_AGENT_ID, pl_generation plan)" "ct_state t = Turn_reserved"
        by (rule reserve_commit_Inr [OF rc])
      have "proceeds d d1" by (rule append_proceeds [OF *(1)]) (simp add: prompt_event_def)
      then have "proceeds d d2" using record_request_proceeds [OF *(2)] proceeds_trans by blast
      moreover have "proceeds d2 d'"
      proof -
        have "agent_conversations d2 = agent_conversations d"
          using *(1,2) by (auto simp: append_Inr record_request_def result_simps)
        then have "plan_fits plan d2" using plan_fits_same fits by blast
        then have "turns_ok d2 \<Longrightarrow> turns_ok d' \<and> conversation_tasks d' = conversation_tasks d2 @ [t]"
          using enter_ok [OF _ _ *(3-5)] *(6) by (simp add: turn_live_def)
        then show ?thesis using enter_frame [OF *(3,4)] turns_step_add by (auto simp: proceeds_def)
      qed
      ultimately have "proceeds d d'" by (rule proceeds_trans)
      then show ?thesis using Inr Planned rc by (simp add: reserve_inner_def commit_def)
    qed (use Inr Planned in \<open>simp add: reserve_inner_def commit_def proceeds_refl\<close>)
  qed (use Inr in \<open>simp add: reserve_inner_def commit_def proceeds_refl\<close>)
qed (simp add: reserve_inner_def commit_def proceeds_refl)

lemma run_turn_op_proceeds: "proceeds d (run_turn_op E policy op d)"
proof (cases op)
  case (Reserve state fresh clock actor request expiry)
  then show ?thesis using reserve_proceeds by simp
next
  case (Claim_round owner i)
  then show ?thesis using claim_proceeds by simp
next
  case (Packet db_now now failure_id task lease)
  then show ?thesis using packet_proceeds by simp
next
  case (Report db_now clock event_id failure_id task lease request)
  then show ?thesis using record_update_proceeds by simp
qed

end
