(* ===== verification/Conversation_Reports.thy ===== *)
theory Conversation_Reports
  imports Conversation_Safety
begin

text \<open>
  The reports a worker sends about a turn, as \<open>record_update\<close> retains them for the browser: the latest of each
  sort.  The invariant \<open>reports_ok\<close> says so, and that the ordinals of a live turn leave room for one more
  report, so a turn whose time has run out can always be ended.
\<close>

datatype update_slot = Slot_accepted | Slot_progress | Slot_settings | Slot_usage | Slot_end

definition slot :: "ext \<Rightarrow> turn_update_row \<Rightarrow> update_slot" where
  "slot E u = (if cu_kind u = ''progress'' then (if accepted_progress E u then Slot_accepted else Slot_progress)
     else if cu_kind u = ''settings'' then Slot_settings else if cu_kind u = ''usage'' then Slot_usage else Slot_end)"

definition reports_row :: "ext \<Rightarrow> turn_row \<Rightarrow> turn_update_row list \<Rightarrow> bool" where
  "reports_row E t us \<longleftrightarrow> 0 \<le> ct_last_update_ordinal t \<and> (\<forall>u \<in> set us. cu_ordinal u \<le> ct_last_update_ordinal t) \<and>
     distinct (map (slot E) us) \<and> (\<forall>u \<in> set us. cu_kind u = ''progress'' \<longrightarrow> text_field E (cu_data u) ''phase'' \<noteq> None) \<and>
     (turn_live t \<longrightarrow> ct_last_update_ordinal t < MAX_SAFE_INTEGER \<and> Slot_end \<notin> slot E ` set us)"

definition reports_ok :: "ext \<Rightarrow> db \<Rightarrow> bool" where
  "reports_ok E d \<longleftrightarrow> (\<forall>t \<in> set (conversation_tasks d). reports_row E t (turn_updates (ct_task_id t) d)) \<and>
     cu_task_id ` set (conversation_updates d) \<subseteq> ct_task_id ` set (conversation_tasks d)"

definition update_schema :: "ext \<Rightarrow> bool" where
  \<comment> \<open>the schema of reports asks for a \<open>phase\<close> string in a progress report\<close>
  "update_schema E \<longleftrightarrow> (\<forall>valid v. profile_schema E ''update'' = Some valid \<longrightarrow> valid v \<longrightarrow>
     jidx v ''kind'' = JStr ''progress'' \<longrightarrow> (\<exists>p. jidx (jidx v ''data'') ''phase'' = JStr p))"

subsection \<open>One turn at a time\<close>

definition becomes :: "db \<Rightarrow> turn_row \<Rightarrow> db \<Rightarrow> turn_row \<Rightarrow> bool" where
  \<comment> \<open>the turn \<open>t\<close> is replaced by \<open>t'\<close>, the others stay\<close>
  "becomes d t d' t' \<longleftrightarrow> distinct (map ct_task_id (conversation_tasks d)) \<and> t \<in> set (conversation_tasks d) \<and>
     ct_task_id t' = ct_task_id t \<and>
     conversation_tasks d' = row_update (\<lambda>x. ct_task_id x = ct_task_id t) (\<lambda>_. t') (conversation_tasks d)"

lemma becomes_row:
  assumes "distinct (map ct_task_id (conversation_tasks d))" "t \<in> set (conversation_tasks d)"
    "conversation_tasks d' = row_update p f (conversation_tasks d)"
    "\<And>x. p x \<Longrightarrow> ct_task_id x = ct_task_id t" "p t" "ct_task_id (f t) = ct_task_id t"
  shows "becomes d t d' (f t)"
proof -
  have "(if p x then f x else x) = (if ct_task_id x = ct_task_id t then f t else x)" if x: "x \<in> set (conversation_tasks d)" for x
  proof (cases "ct_task_id x = ct_task_id t")
    case True
    then have "x = t" using distinct_map_inj [OF assms(1) x assms(2)] by blast
    then show ?thesis using assms(5) by simp
  next
    case False
    then show ?thesis using assms(4) by metis
  qed
  then have "conversation_tasks d' = row_update (\<lambda>x. ct_task_id x = ct_task_id t) (\<lambda>_. f t) (conversation_tasks d)"
    unfolding assms(3) row_update_def by (rule map_cong [OF refl])
  then show ?thesis using assms(1,2,6) by (simp only: becomes_def)
qed

lemma becomes_refl:
  assumes "distinct (map ct_task_id (conversation_tasks d))" "t \<in> set (conversation_tasks d)" "conversation_tasks d' = conversation_tasks d"
  shows "becomes d t d' t"
proof -
  have "becomes d t d' (id t)"
    by (rule becomes_row [where p = "\<lambda>x. ct_task_id x = ct_task_id t"]) (use assms in \<open>simp_all add: row_update_def\<close>)
  then show ?thesis by simp
qed

lemma becomes_after:
  assumes "becomes d t d' t'"
  shows "distinct (map ct_task_id (conversation_tasks d'))" "t' \<in> set (conversation_tasks d')"
    "\<And>x. x \<in> set (conversation_tasks d') \<Longrightarrow> x = t' \<or> ct_task_id x \<noteq> ct_task_id t \<and> x \<in> set (conversation_tasks d)"
    "ct_task_id ` set (conversation_tasks d') = ct_task_id ` set (conversation_tasks d)"
proof -
  note b = assms [unfolded becomes_def]
  have "map ct_task_id (conversation_tasks d') = map ct_task_id (conversation_tasks d)"
    using b by (auto simp: row_update_def)
  then show "distinct (map ct_task_id (conversation_tasks d'))"
    "ct_task_id ` set (conversation_tasks d') = ct_task_id ` set (conversation_tasks d)"
    using b by (simp, metis set_map)
  show "t' \<in> set (conversation_tasks d')" using b by (auto simp: row_update_def)
  show "x = t' \<or> ct_task_id x \<noteq> ct_task_id t \<and> x \<in> set (conversation_tasks d)" if "x \<in> set (conversation_tasks d')" for x
    using b that by (auto simp: row_update_def split: if_splits)
qed

lemma becomes_trans: "becomes a t b t1 \<Longrightarrow> becomes b t1 c t2 \<Longrightarrow> becomes a t c t2"
  by (auto simp: becomes_def row_update_def)

lemma becomes_set_turn:
  "distinct (map ct_task_id (conversation_tasks d)) \<Longrightarrow> t \<in> set (conversation_tasks d) \<Longrightarrow> ct_task_id (f t) = ct_task_id t \<Longrightarrow>
     becomes d t (set_turn (ct_task_id t) f d) (f t)"
  by (rule becomes_row [where p = "\<lambda>x. ct_task_id x = ct_task_id t"]) (simp_all add: set_turn_def)

lemma reports_change:
  assumes "reports_ok E d" "becomes d t d' t'" "reports_row E t' (turn_updates (ct_task_id t) d')"
    "\<And>i. i \<noteq> ct_task_id t \<Longrightarrow> turn_updates i d' = turn_updates i d"
  shows "reports_ok E d'"
proof -
  have "reports_row E x (turn_updates (ct_task_id x) d')" if "x \<in> set (conversation_tasks d')" for x
    using becomes_after(3) [OF assms(2) that] assms by (auto simp: reports_ok_def becomes_def)
  moreover have "cu_task_id u \<in> ct_task_id ` set (conversation_tasks d')" if "u \<in> set (conversation_updates d')" for u
  proof (cases "cu_task_id u = ct_task_id t")
    case True
    then show ?thesis using becomes_after(4) [OF assms(2)] assms(2) by (simp add: becomes_def)
  next
    case False
    have "u \<in> set (turn_updates (cu_task_id u) d')" using that by (simp add: turn_updates_def)
    then have "u \<in> set (turn_updates (cu_task_id u) d)" using assms(4) [OF False] by simp
    then have "u \<in> set (conversation_updates d)" by (simp add: turn_updates_def)
    then show ?thesis using assms(1) becomes_after(4) [OF assms(2)] by (auto simp: reports_ok_def)
  qed
  ultimately show ?thesis by (auto simp: reports_ok_def)
qed

subsection \<open>Keeping the latest\<close>

lemma insert_update_Inr:
  assumes "insert_update u d = Inr d'"
  shows "d' = d\<lparr>conversation_updates := conversation_updates d @ [u]\<rparr>"
    "turn_updates i d' = turn_updates i d @ (if cu_task_id u = i then [u] else [])"
    "cu_kind u \<in> {''progress'', ''settings'', ''usage'', ''completed'', ''failed''}" "cu_ordinal u \<le> MAX_SAFE_INTEGER"
  using assms by (auto simp: insert_update_def result_simps turn_updates_def safe_integer_def)

lemma turn_updates_set_turn [simp]: "turn_updates i (set_turn j f d) = turn_updates i d"
  by (simp add: turn_updates_def set_turn_def)

lemma turn_updates_drop:
  "turn_updates i (drop_updates p j d) = filter (\<lambda>u. i = j \<longrightarrow> \<not> p u) (turn_updates i d)"
  by (auto simp: turn_updates_def drop_updates_def row_delete_def intro!: filter_cong)

definition displaces :: "ext \<Rightarrow> string \<Rightarrow> turn_update_row \<Rightarrow> bool" where
  \<comment> \<open>the retained reports a report of this kind replaces\<close>
  "displaces E kind u \<longleftrightarrow> kind \<in> {''settings'', ''usage''} \<and> cu_kind u = kind \<or> kind = ''progress'' \<and> other_progress E u"

lemma turn_updates_displace:
  "turn_updates i (displace E kind j d) = filter (\<lambda>u. i = j \<longrightarrow> \<not> displaces E kind u) (turn_updates i d)"
proof -
  define a b where "a \<longleftrightarrow> kind \<in> {''settings'', ''usage''}" and "b \<longleftrightarrow> kind = ''progress''"
  define d1 where "d1 = (if a then drop_updates (\<lambda>u. cu_kind u = kind) j d else d)"
  have "turn_updates i (displace E kind j d) = filter (\<lambda>u. i = j \<longrightarrow> \<not> (b \<and> other_progress E u)) (turn_updates i d1)"
    unfolding displace_def Let_def a_def [symmetric] b_def [symmetric] d1_def [symmetric] by (simp add: turn_updates_drop)
  moreover have "turn_updates i d1 = filter (\<lambda>u. i = j \<longrightarrow> \<not> (a \<and> cu_kind u = kind)) (turn_updates i d)"
    by (simp add: d1_def turn_updates_drop)
  ultimately show ?thesis
    unfolding displaces_def a_def [symmetric] b_def [symmetric] by (simp add: conj_commute imp_conjR conj_ac cong: filter_cong)
qed

lemma retain_Inr:
  assumes "retain_update E now t update_id ordinal kind data d = Inr d'" "\<not> coalesced E now t kind data d"
  obtains v where "jsonb E data = Some v" "conversation_tasks d' = conversation_tasks
       (if kind = ''progress'' then set_turn (ct_task_id t) (\<lambda>t. t\<lparr>ct_last_progress_at := Some (pg_time E now)\<rparr>) d else d)"
    "\<forall>i. turn_updates i d' = filter (\<lambda>u. i = ct_task_id t \<longrightarrow> \<not> displaces E kind u) (turn_updates i d) @
       (if i = ct_task_id t then [\<lparr>cu_task_id = ct_task_id t, cu_update_id = update_id, cu_ordinal = ordinal, cu_kind = kind,
          cu_occurred_at = pg_time E now, cu_data = v\<rparr>] else [])"
    "kind \<in> {''progress'', ''settings'', ''usage'', ''completed'', ''failed''}" "ordinal \<le> MAX_SAFE_INTEGER"
proof -
  from assms obtain v us where v: "jsonb E data = Some v"
    "insert_update \<lparr>cu_task_id = ct_task_id t, cu_update_id = update_id, cu_ordinal = ordinal, cu_kind = kind,
       cu_occurred_at = pg_time E now, cu_data = v\<rparr> (displace E kind (ct_task_id t) d) = Inr (d\<lparr>conversation_updates := us\<rparr>)"
    "d' = (if kind = ''progress'' then set_turn (ct_task_id t) (\<lambda>t. t\<lparr>ct_last_progress_at := Some (pg_time E now)\<rparr>)
       (d\<lparr>conversation_updates := us\<rparr>) else d\<lparr>conversation_updates := us\<rparr>)" by (cases rule: retain_cases) auto
  note ins = insert_update_Inr [OF v(2)]
  have after: "turn_updates i d' = filter (\<lambda>u. i = ct_task_id t \<longrightarrow> \<not> displaces E kind u) (turn_updates i d) @
       (if i = ct_task_id t then [\<lparr>cu_task_id = ct_task_id t, cu_update_id = update_id, cu_ordinal = ordinal, cu_kind = kind,
          cu_occurred_at = pg_time E now, cu_data = v\<rparr>] else [])" for i
  proof -
    have "turn_updates i d' = turn_updates i (d\<lparr>conversation_updates := us\<rparr>)" by (simp add: v(3))
    then show ?thesis using ins(2) [of i] by (cases "i = ct_task_id t") (simp_all add: turn_updates_displace)
  qed
  show thesis
  proof (rule that [OF v(1)])
    show "conversation_tasks d' = conversation_tasks
       (if kind = ''progress'' then set_turn (ct_task_id t) (\<lambda>t. t\<lparr>ct_last_progress_at := Some (pg_time E now)\<rparr>) d else d)"
      by (simp add: v(3) set_turn_def)
    show "\<forall>i. turn_updates i d' = filter (\<lambda>u. i = ct_task_id t \<longrightarrow> \<not> displaces E kind u) (turn_updates i d) @
       (if i = ct_task_id t then [\<lparr>cu_task_id = ct_task_id t, cu_update_id = update_id, cu_ordinal = ordinal, cu_kind = kind,
          cu_occurred_at = pg_time E now, cu_data = v\<rparr>] else [])"
      using after by blast
  qed (use ins(3,4) in simp_all)
qed

lemma slot_iff:
  "slot E u = Slot_accepted \<longleftrightarrow> accepted_progress E u"
  "slot E u = Slot_progress \<longleftrightarrow> cu_kind u = ''progress'' \<and> \<not> accepted_progress E u"
  "slot E u = Slot_settings \<longleftrightarrow> cu_kind u = ''settings''"
  "slot E u = Slot_usage \<longleftrightarrow> cu_kind u = ''usage''"
  "slot E u = Slot_end \<longleftrightarrow> cu_kind u \<notin> {''progress'', ''settings'', ''usage''}"
  by (auto simp: slot_def accepted_progress_def)

lemma other_progress_slot:
  "cu_kind u = ''progress'' \<Longrightarrow> text_field E (cu_data u) ''phase'' \<noteq> None \<Longrightarrow> other_progress E u \<longleftrightarrow> slot E u = Slot_progress"
  by (auto simp: slot_iff other_progress_def accepted_progress_def)

lemma new_slot:
  assumes row: "\<forall>u \<in> set us. cu_kind u = ''progress'' \<longrightarrow> text_field E (cu_data u) ''phase'' \<noteq> None"
    and u: "cu_kind u = kind" "kind \<in> {''progress'', ''settings'', ''usage'', ''completed'', ''failed''}"
    and ended: "kind \<in> {''completed'', ''failed''} \<Longrightarrow> Slot_end \<notin> slot E ` set us"
    and progress: "kind = ''progress'' \<Longrightarrow> text_field E (cu_data u) ''phase'' \<noteq> None"
      "accepted_progress E u \<Longrightarrow> \<forall>x \<in> set us. \<not> accepted_progress E x"
  shows "slot E u \<notin> slot E ` set (filter (\<lambda>x. \<not> displaces E kind x) us)"
proof
  assume "slot E u \<in> slot E ` set (filter (\<lambda>x. \<not> displaces E kind x) us)"
  then obtain x where x: "x \<in> set us" "\<not> displaces E kind x" "slot E x = slot E u" by auto
  show False
  proof (cases "slot E u")
    case Slot_accepted
    then have "accepted_progress E u" "accepted_progress E x" using x(3) [unfolded Slot_accepted] by (simp_all add: slot_iff)
    then show False using x(1) progress(2) by blast
  next
    case Slot_progress
    then have "kind = ''progress''" "cu_kind x = ''progress''" using x(3) [unfolded Slot_progress] u(1) by (simp_all add: slot_iff)
    then have "other_progress E x" using row x(1,3) Slot_progress by (simp add: other_progress_slot)
    then show False using x(2) \<open>kind = ''progress''\<close> by (simp add: displaces_def)
  next
    case Slot_settings
    then have "kind = ''settings''" "cu_kind x = ''settings''" using x(3) [unfolded Slot_settings] u(1) by (simp_all add: slot_iff)
    then show False using x(2) by (simp add: displaces_def)
  next
    case Slot_usage
    then have "kind = ''usage''" "cu_kind x = ''usage''" using x(3) [unfolded Slot_usage] u(1) by (simp_all add: slot_iff)
    then show False using x(2) by (simp add: displaces_def)
  next
    case Slot_end
    then have "kind \<in> {''completed'', ''failed''}" using u by (auto simp: slot_iff)
    then show False using ended x(1,3) Slot_end by force
  qed
qed

lemma retain_row:
  assumes row: "reports_row E t us"
    and data: "jsonb_ok E" "exact data" "kind = ''progress'' \<Longrightarrow> \<exists>p. jidx data ''phase'' = JStr p"
    and us: "us = turn_updates (ct_task_id t) d"
    and retain: "retain_update E now t update_id ordinal kind data d = Inr d'" "ct_last_update_ordinal t \<le> ordinal"
    and ended: "kind \<in> {''completed'', ''failed''} \<Longrightarrow> Slot_end \<notin> slot E ` set us"
    and t': "ct_last_update_ordinal t' = ordinal"
      "turn_live t' \<Longrightarrow> turn_live t \<and> ordinal < MAX_SAFE_INTEGER \<and> kind \<notin> {''completed'', ''failed''}"
  shows "reports_row E t' (turn_updates (ct_task_id t) d')" "\<And>i. i \<noteq> ct_task_id t \<Longrightarrow> turn_updates i d' = turn_updates i d"
proof -
  note r = row [unfolded reports_row_def]
  have "reports_row E t' (turn_updates (ct_task_id t) d') \<and> (\<forall>i. i \<noteq> ct_task_id t \<longrightarrow> turn_updates i d' = turn_updates i d)"
  proof (cases "coalesced E now t kind data d")
    case True
    then have "d' = d" using retain(1) by (simp add: retain_update_def)
    then show ?thesis using r retain(2) t' us by (auto simp: reports_row_def)
  next
    case False
    obtain v where v: "jsonb E data = Some v"
      "\<forall>i. turn_updates i d' = filter (\<lambda>u. i = ct_task_id t \<longrightarrow> \<not> displaces E kind u) (turn_updates i d) @
         (if i = ct_task_id t then [\<lparr>cu_task_id = ct_task_id t, cu_update_id = update_id, cu_ordinal = ordinal, cu_kind = kind,
            cu_occurred_at = pg_time E now, cu_data = v\<rparr>] else [])"
      "kind \<in> {''progress'', ''settings'', ''usage'', ''completed'', ''failed''}"
      by (rule retain_Inr [OF retain(1) False]) (rule that)
    define u where "u = \<lparr>cu_task_id = ct_task_id t, cu_update_id = update_id, cu_ordinal = ordinal, cu_kind = kind,
            cu_occurred_at = pg_time E now, cu_data = v\<rparr>"
    have after: "turn_updates (ct_task_id t) d' = filter (\<lambda>u. \<not> displaces E kind u) us @ [u]"
      using spec [OF v(2), of "ct_task_id t"] us by (simp add: u_def)
    have "v = data" using jsonb_column.store_exact [OF data(1,2) v(1)] .
    have phase: "text_field E (cu_data u) ''phase'' \<noteq> None" if "kind = ''progress''"
      using data(3) [OF that] \<open>v = data\<close> by (auto simp: u_def text_field_def jidx_def split: option.splits)
    have accepted: "\<forall>x \<in> set us. \<not> accepted_progress E x" if "accepted_progress E u"
    proof -
      have k: "kind = ''progress''" "text_field E data ''phase'' = Some ''accepted''"
        using that \<open>v = data\<close> by (simp_all add: accepted_progress_def u_def)
      obtain p where "jidx data ''phase'' = JStr p" using data(3) [OF k(1)] by blast
      with k(2) have "jidx data ''phase'' = JStr ''accepted''" by (auto simp: text_field_def jidx_def split: option.splits)
      then show ?thesis using False k(1) us by (auto simp: coalesced_def list_ex_iff turn_updates_def)
    qed
    have slot: "slot E u \<notin> slot E ` set (filter (\<lambda>x. \<not> displaces E kind x) us)"
      by (rule new_slot) (use r v(3) ended phase accepted in \<open>auto simp: u_def\<close>)
    have "slot E u \<noteq> Slot_end" if "kind \<notin> {''completed'', ''failed''}" using v(3) that by (auto simp: slot_iff u_def)
    then have "reports_row E t' (turn_updates (ct_task_id t) d')"
      using r retain(2) t' slot phase unfolding after reports_row_def
      by (auto simp: distinct_map_filter u_def)
    then show ?thesis using v(2) by simp
  qed
  then show "reports_row E t' (turn_updates (ct_task_id t) d')" "\<And>i. i \<noteq> ct_task_id t \<Longrightarrow> turn_updates i d' = turn_updates i d" by blast+
qed

subsection \<open>Every operation keeps the reports in order\<close>

lemma fail_state_becomes:
  assumes "distinct (map ct_task_id (conversation_tasks d))" "t \<in> set (conversation_tasks d)" "turn_live t"
    "fail_task_state E db_now (t, c) error d = Inr d'"
  obtains t' where "becomes d t d' t'" "ct_state t' = Turn_failed" "ct_last_update_ordinal t' = ct_last_update_ordinal t"
    "conversation_updates d' = conversation_updates d"
proof -
  obtain v where d': "conversation_tasks d' = row_update (\<lambda>x. ct_task_id x = ct_task_id t \<and> turn_live x)
        (\<lambda>x. x\<lparr>ct_state := Turn_failed, ct_failure := Some v, ct_updated_at := db_now\<rparr>) (conversation_tasks d)"
    "conversation_updates d' = conversation_updates d"
    using assms(4) by (auto simp: fail_task_state_def result_simps)
  have "becomes d t d' (t\<lparr>ct_state := Turn_failed, ct_failure := Some v, ct_updated_at := db_now\<rparr>)"
    by (rule becomes_row [OF assms(1,2) d'(1)]) (use assms(3) in simp_all)
  then show thesis using that d'(2) by simp
qed

lemma complete_becomes:
  assumes "distinct (map ct_task_id (conversation_tasks d))" "t \<in> set (conversation_tasks d)"
    "complete_turn E policy event_id now t data d = Inr ((ack, reply), d')"
  obtains t' where "becomes d t d' t'" "ct_state t' = Turn_completed" "ct_last_update_ordinal t' = ct_last_update_ordinal t"
    "conversation_updates d' = conversation_updates d" "ct_reply_event_id t' = Some (ev_event_id reply)"
    "ct_lease_token t' = ct_lease_token t"
proof -
  from assms(3) obtain d1 result ack_row effective usage sources where *:
    "append_event_in_transaction E event_id (reply_event t data now) d = Inr (reply, d1)"
    "disclose_all E policy t sources (complete_rows t
       (\<lambda>x. x\<lparr>ct_state := Turn_completed, ct_result := Some result, ct_reply_event_id := Some (ev_event_id reply),
              ct_receipt_acknowledgement := Some ack_row, ct_effective_settings := effective,
              ct_usage := usage, ct_updated_at := pg_time E now\<rparr>) (pg_time E now) d1) = Inr d'"
    by (auto simp: complete_turn_def Let_def result_simps complete_rows_def)
  let ?f = "\<lambda>x. x\<lparr>ct_state := Turn_completed, ct_result := Some result, ct_reply_event_id := Some (ev_event_id reply),
              ct_receipt_acknowledgement := Some ack_row, ct_effective_settings := effective,
              ct_usage := usage, ct_updated_at := pg_time E now\<rparr>"
  have d1: "d1 = d\<lparr>room_events := room_events d @ [reply]\<rparr>" using *(1) by (simp add: append_Inr)
  obtain xs where d': "d' = (complete_rows t ?f (pg_time E now) d1)\<lparr>conversation_disclosures := xs\<rparr>" using disclose_all_frame [OF *(2)] by blast
  have rows: "conversation_tasks d' = row_update (\<lambda>x. ct_task_id x = ct_task_id t) ?f (conversation_tasks d)"
    by (simp add: d' complete_rows_def set_turn_def set_conversation_def d1)
  have "becomes d t d' (?f t)" by (rule becomes_row [OF assms(1,2) rows]) simp_all
  moreover have "conversation_updates d' = conversation_updates d"
    by (simp add: d' complete_rows_def set_turn_def set_conversation_def d1)
  ultimately show thesis using that by simp
qed

lemma note_kind_becomes:
  assumes "distinct (map ct_task_id (conversation_tasks d))" "t \<in> set (conversation_tasks d)" "turn_live t"
    "note_kind E db_now now (t, c) kind data d = Inr d'"
  obtains t' where "becomes d t d' t'" "ct_last_update_ordinal t' = ct_last_update_ordinal t"
    "turn_live t' \<longleftrightarrow> kind \<noteq> ''failed''" "conversation_updates d' = conversation_updates d"
proof (cases "kind = ''failed''")
  case True
  then obtain error where "fail_task_state E db_now (t, c) error d = Inr d'"
    using assms(4) by (auto simp: note_kind_def result_simps)
  from fail_state_becomes [OF assms(1-3) this] obtain t' where "becomes d t d' t'" "ct_state t' = Turn_failed"
    "ct_last_update_ordinal t' = ct_last_update_ordinal t" "conversation_updates d' = conversation_updates d" .
  then show thesis using that True by (simp add: turn_live_def)
next
  case False
  note result = that
  have touched: thesis if f: "d' = set_turn (ct_task_id t) f d"
    "ct_task_id (f t) = ct_task_id t" "ct_last_update_ordinal (f t) = ct_last_update_ordinal t" "ct_state (f t) = ct_state t" for f
  proof (rule result)
    show "becomes d t d' (f t)" using becomes_set_turn [OF assms(1,2), of f] f(1,2) by simp
  qed (use f False assms(3) in \<open>simp_all add: turn_live_def set_turn_def\<close>)
  consider "d' = d" | v where "d' = set_turn (ct_task_id t) (\<lambda>t. t\<lparr>ct_effective_settings := Some v, ct_updated_at := pg_time E now\<rparr>) d"
    | v where "d' = set_turn (ct_task_id t) (\<lambda>t. t\<lparr>ct_usage := Some v, ct_updated_at := pg_time E now\<rparr>) d"
    using assms(4) False by (auto simp: note_kind_def result_simps split: if_splits)
  then show thesis
  proof cases
    case 1
    show thesis by (rule that [OF becomes_refl [OF assms(1,2)]]) (use 1 False assms(3) in simp_all)
  next
    case (2 v)
    then show thesis by (rule touched) simp_all
  next
    case (3 v)
    then show thesis by (rule touched) simp_all
  qed
qed

lemma carry_out_becomes:
  assumes "distinct (map ct_task_id (conversation_tasks d))" "t \<in> set (conversation_tasks d)" "turn_live t"
    "carry_out E policy db_now now event_id (t, c) update_id ordinal kind data d = Inr (response, event, d')"
  obtains t' where "becomes d t d' t'" "ct_last_update_ordinal t' = ct_last_update_ordinal t"
    "turn_live t' \<longleftrightarrow> kind \<notin> {''completed'', ''failed''}" "conversation_updates d' = conversation_updates d"
proof (cases "kind = ''completed''")
  case True
  then obtain ack reply where "complete_turn E policy event_id now t data d = Inr ((ack, reply), d')"
    using assms(4) by (auto simp: carry_out_def result_simps)
  from complete_becomes [OF assms(1,2) this] obtain t' where "becomes d t d' t'" "ct_state t' = Turn_completed"
    "ct_last_update_ordinal t' = ct_last_update_ordinal t" "conversation_updates d' = conversation_updates d" .
  then show thesis using that True by (simp add: turn_live_def)
next
  case False
  then have "note_kind E db_now now (t, c) kind data d = Inr d'" using assms(4) by (auto simp: carry_out_def result_simps)
  from note_kind_becomes [OF assms(1-3) this] show thesis using that False by auto
qed

lemma reports_other:
  assumes "reports_ok E d" "becomes d t d' t'" "conversation_updates d' = conversation_updates d"
    "ct_last_update_ordinal t' = ct_last_update_ordinal t" "turn_live t' \<Longrightarrow> turn_live t"
  shows "reports_ok E d'"
proof (rule reports_change [OF assms(1,2)])
  have "reports_row E t (turn_updates (ct_task_id t) d)" using assms(1,2) by (simp add: reports_ok_def becomes_def)
  then show "reports_row E t' (turn_updates (ct_task_id t) d')"
    using assms(3-5) by (auto simp: reports_row_def turn_updates_def)
qed (simp add: turn_updates_def assms(3))

lemma safe_jidx: "safe_numbers v \<Longrightarrow> safe_numbers (jidx v k)"
  by (cases v) (auto simp: jidx_def dest!: map_of_SomeD split: option.splits)

lemma fail_task_becomes:
  assumes "distinct (map ct_task_id (conversation_tasks d))" "t \<in> set (conversation_tasks d)" "turn_live t"
    "fail_task E db_now update_id (t, c) error d = Inr d'"
  obtains t' u where "becomes d t d' t'" "ct_state t' = Turn_failed" "ct_last_update_ordinal t' = ct_last_update_ordinal t + 1"
    "cu_kind u = ''failed''" "cu_ordinal u = ct_last_update_ordinal t + 1" "cu_task_id u = ct_task_id t"
    "conversation_updates d' = conversation_updates d @ [u]"
proof -
  obtain d1 d2 u where *: "fail_task_state E db_now (t, c) error d = Inr d1" "insert_update u d1 = Inr d2"
    "cu_kind u = ''failed''" "cu_ordinal u = ct_last_update_ordinal t + 1" "cu_task_id u = ct_task_id t"
    "d' = set_turn (ct_task_id t) (\<lambda>x. x\<lparr>ct_last_update_ordinal := ct_last_update_ordinal t + 1\<rparr>) d2"
    using assms(4) by (fastforce simp: fail_task_def Let_def result_simps)
  obtain t1 where t1: "becomes d t d1 t1" "ct_state t1 = Turn_failed" "conversation_updates d1 = conversation_updates d"
    using fail_state_becomes [OF assms(1-3) *(1)] by metis
  have d2: "d2 = d1\<lparr>conversation_updates := conversation_updates d1 @ [u]\<rparr>" by (rule insert_update_Inr(1) [OF *(2)])
  have "becomes d1 t1 d' (t1\<lparr>ct_last_update_ordinal := ct_last_update_ordinal t + 1\<rparr>)"
    by (rule becomes_row [OF becomes_after(1,2) [OF t1(1)], where p = "\<lambda>x. ct_task_id x = ct_task_id t"])
      (use t1(1) in \<open>simp_all add: *(6) d2 set_turn_def becomes_def\<close>)
  from becomes_trans [OF t1(1) this] show thesis
    by (rule that) (use *(3-6) t1 d2 in \<open>simp_all add: set_turn_def\<close>)
qed

lemma fail_task_reports:
  assumes "reports_ok E d" "distinct (map ct_task_id (conversation_tasks d))" "t \<in> set (conversation_tasks d)" "turn_live t"
    "fail_task E db_now update_id (t, c) error d = Inr d'"
  shows "reports_ok E d'"
proof -
  obtain t' u where *: "becomes d t d' t'" "ct_state t' = Turn_failed" "ct_last_update_ordinal t' = ct_last_update_ordinal t + 1"
    "cu_kind u = ''failed''" "cu_ordinal u = ct_last_update_ordinal t + 1" "cu_task_id u = ct_task_id t"
    "conversation_updates d' = conversation_updates d @ [u]" by (rule fail_task_becomes [OF assms(2-5)])
  have row: "reports_row E t (turn_updates (ct_task_id t) d)" using assms(1,3) by (simp add: reports_ok_def)
  have "slot E u = Slot_end" by (simp add: slot_iff *(4))
  then show ?thesis
    by (intro reports_change [OF assms(1) *(1)])
      (use row assms(4) *(2-7) in \<open>auto simp: reports_row_def turn_updates_def turn_live_def\<close>)
qed

lemma apply_update_reports:
  assumes ok: "reports_ok E d" and E: "jsonb_ok E" "update_schema E" and valid: "validate_profile_value E ''update'' request = Inr ()"
    and t: "distinct (map ct_task_id (conversation_tasks d))" "t \<in> set (conversation_tasks d)" "turn_live t"
    and app: "apply_update E policy db_now clock event_id (t, c) lease update_id request d = Inr (outcome, d')"
  shows "reports_ok E d'"
proof -
  obtain ordinal kind d1 d2 q where *:
    "carry_out E policy db_now (clock 1) event_id (t, c) update_id ordinal kind (jidx request ''data'') d =
       Inr (uo_response outcome, uo_event outcome, d1)"
    "retain_update E (clock 1) t update_id ordinal kind (jidx request ''data'') d1 = Inr d2"
    "insert_update_request q (set_turn (ct_task_id t) (\<lambda>t. t\<lparr>ct_last_update_ordinal := ordinal\<rparr>) d2) = Inr d'"
    "jidx request ''kind'' = JStr kind" "ct_last_update_ordinal t < ordinal"
    "ordinal = MAX_SAFE_INTEGER \<longrightarrow> kind \<in> {''completed'', ''failed''}" "cq_ordinal q = ordinal"
    by (rule apply_update_Inr [OF app]) (rule that; assumption)
  obtain t1 where t1: "becomes d t d1 t1" "ct_last_update_ordinal t1 = ct_last_update_ordinal t"
    "turn_live t1 \<longleftrightarrow> kind \<notin> {''completed'', ''failed''}" "conversation_updates d1 = conversation_updates d"
    by (rule carry_out_becomes [OF t *(1)])
  have tasks: "conversation_tasks d2 = conversation_tasks d1 \<or> conversation_tasks d2 = conversation_tasks
      (set_turn (ct_task_id t) (\<lambda>t. t\<lparr>ct_last_progress_at := Some (pg_time E (clock 1))\<rparr>) d1)"
  proof (cases "coalesced E (clock 1) t kind (jidx request ''data'') d1")
    case True
    then show ?thesis using *(2) by (simp add: retain_update_def)
  next
    case False
    then show ?thesis by (rule retain_Inr [OF *(2)]) (auto split: if_splits)
  qed
  have limit: "ordinal \<le> MAX_SAFE_INTEGER" using *(3,7) by (auto simp: insert_update_request_def result_simps safe_integer_def)
  obtain t3 where t3: "becomes d t d' t3" "ct_last_update_ordinal t3 = ordinal" "turn_live t3 \<longleftrightarrow> turn_live t1"
  proof -
    have "ct_task_id t1 = ct_task_id t" using t1(1) by (simp add: becomes_def)
    obtain t2 where t2: "becomes d1 t1 d2 t2" "turn_live t2 \<longleftrightarrow> turn_live t1"
      using tasks becomes_refl [OF becomes_after(1,2) [OF t1(1)]]
        becomes_row [OF becomes_after(1,2) [OF t1(1)], where p = "\<lambda>x. ct_task_id x = ct_task_id t" and
          f = "\<lambda>t. t\<lparr>ct_last_progress_at := Some (pg_time E (clock 1))\<rparr>" and d' = d2] \<open>ct_task_id t1 = _\<close>
      by (fastforce simp: set_turn_def turn_live_def)
    have "ct_task_id t2 = ct_task_id t" using t2(1) \<open>ct_task_id t1 = _\<close> by (simp add: becomes_def)
    moreover have "conversation_tasks d' = conversation_tasks (set_turn (ct_task_id t) (\<lambda>t. t\<lparr>ct_last_update_ordinal := ordinal\<rparr>) d2)"
      using *(3) by (auto simp: insert_update_request_def result_simps)
    ultimately have "becomes d2 t2 d' (t2\<lparr>ct_last_update_ordinal := ordinal\<rparr>)"
      by (intro becomes_row [OF becomes_after(1,2) [OF t2(1)], where p = "\<lambda>x. ct_task_id x = ct_task_id t"]) (simp_all add: set_turn_def)
    then show thesis using that [of "t2\<lparr>ct_last_update_ordinal := ordinal\<rparr>"] becomes_trans [OF becomes_trans [OF t1(1) t2(1)]] t2(2)
      by (simp add: turn_live_def)
  qed
  have same: "turn_updates i d1 = turn_updates i d" "turn_updates i d' = turn_updates i d2" for i
    using t1(4) *(3) by (auto simp: turn_updates_def insert_update_request_def result_simps set_turn_def)
  have row: "reports_row E t (turn_updates (ct_task_id t) d1)" using ok t(2) same by (simp add: reports_ok_def)
  have data: "exact (jidx request ''data'')" "kind = ''progress'' \<Longrightarrow> \<exists>p. jidx (jidx request ''data'') ''phase'' = JStr p"
    using valid E(2) *(4) safe_exact [OF safe_jidx] by (auto simp: result_simps update_schema_def)
  have ended: "Slot_end \<notin> slot E ` set (turn_updates (ct_task_id t) d1)" using row t(3) by (simp add: reports_row_def)
  have after: "turn_live t3 \<Longrightarrow> turn_live t \<and> ordinal < MAX_SAFE_INTEGER \<and> kind \<notin> {''completed'', ''failed''}"
    using t3(3) t1(3) t(3) *(6) limit by (cases "ordinal = MAX_SAFE_INTEGER") simp_all
  note kept = retain_row [OF row E(1) data refl *(2) less_imp_le [OF *(5)] ended t3(2) after]
  show ?thesis by (rule reports_change [OF ok t3(1)]) (use kept same in simp_all)
qed

lemma record_update_reports:
  assumes "reports_ok E d" "turns_ok d" "jsonb_ok E" "update_schema E"
  shows "reports_ok E (snd (record_update E policy db_now clock event_id failure_id task lease request d))"
proof (cases "admit_update E policy task lease request d")
  case (Inr x)
  then obtain t c update_id where x: "admit_update E policy task lease request d = Inr ((t, c), update_id)" by (cases x) auto
  note t = task_in_transaction_Inr(1) [OF admit_update_Inr(1) [OF x]]
  have d: "distinct (map ct_task_id (conversation_tasks d))" using assms(2) by (simp add: turns_ok_def)
  have valid: "validate_profile_value E ''update'' request = Inr ()" using x by (auto simp: admit_update_def result_simps)
  show ?thesis
    using x assms(1) fail_task_reports [OF assms(1) d t] apply_update_reports [OF assms(1,3,4) valid d t authority_live(1)]
    by (auto simp: record_update_def split: option.splits sum.splits)
qed (simp add: record_update_def assms)

lemma packet_reports:
  assumes "reports_ok E d" "turns_ok d"
  shows "reports_ok E (snd (turn_packet E policy db_now now failure_id task lease d))"
proof (cases "task_in_transaction task d")
  case (Inr x)
  then obtain t c where x: "task_in_transaction task d = Inr (t, c)" by (cases x) auto
  have d: "distinct (map ct_task_id (conversation_tasks d))" using assms(2) by (simp add: turns_ok_def)
  show ?thesis
    using x assms(1) fail_task_reports [OF assms(1) d task_in_transaction_Inr(1) [OF x]]
    by (cases "owned_room task d") (auto simp: turn_packet_def Let_def split: sum.splits)
qed (cases "owned_room task d"; simp add: turn_packet_def assms)

lemma claim_candidates_in: "t \<in> set (claim_candidates now d) \<Longrightarrow> t \<in> set (conversation_tasks d) \<and> turn_live t"
  by (auto simp: claim_candidates_def turn_live_def)

lemma claim_reports:
  assumes "reports_ok E d" "turns_ok d"
  shows "reports_ok E (commit d (claim_once E policy owner i d))"
proof (cases "claim_candidates (ci_db_now i) d")
  case (Cons candidate rest)
  show ?thesis
  proof (cases "claim_once E policy owner i d")
    case (Inr x)
    then obtain t c where tc: "task_in_transaction (ct_task_id candidate) d = Inr (t, c)"
      using Cons by (auto simp: claim_once_def result_simps)
    note t = task_in_transaction_Inr(1,2) [OF tc]
    have "candidate \<in> set (conversation_tasks d) \<and> turn_live candidate" using Cons claim_candidates_in [of candidate "ci_db_now i" d] by simp
    then have "t = candidate" "turn_live t" using unique_turn [OF assms(2) _ t(1)] t(2) by blast+
    have d: "distinct (map ct_task_id (conversation_tasks d))" using assms(2) by (simp add: turns_ok_def)
    show ?thesis
    proof (cases "task_authority policy (ci_now i) (t, c) None True")
      case (Inl error)
      then show ?thesis
        using Inr Cons tc fail_task_reports [OF assms(1) d t(1) \<open>turn_live t\<close>] by (auto simp: claim_once_def commit_def result_simps)
    next
      case authorized: (Inr u)
      then have "lease_turn E policy owner i t d = Inr x" using Inr Cons tc by (simp add: claim_once_def)
      then obtain step d' expiry where d': "x = (step, d')" "d' = set_conversation (ct_conversation_id t)
          (\<lambda>c. c\<lparr>cv_state := Conv_running, cv_updated_at := ci_db_now i\<rparr>) (set_turn (ct_task_id t)
            (\<lambda>t. t\<lparr>ct_state := Turn_running, ct_lease_owner := Some owner, ct_lease_token := Some (ci_token i),
                   ct_lease_expires_at := Some expiry, ct_updated_at := ci_db_now i\<rparr>) d)"
        by (cases x) (auto elim: lease_Inr)
      let ?t = "t\<lparr>ct_state := Turn_running, ct_lease_owner := Some owner, ct_lease_token := Some (ci_token i),
                   ct_lease_expires_at := Some expiry, ct_updated_at := ci_db_now i\<rparr>"
      have "becomes d t d' ?t"
        by (rule becomes_row [OF d t(1), where p = "\<lambda>x. ct_task_id x = ct_task_id t"])
          (simp_all add: d'(2) set_conversation_def set_turn_def)
      then have "reports_ok E d'"
        by (rule reports_other [OF assms(1)]) (use \<open>turn_live t\<close> in \<open>simp_all add: d'(2) set_conversation_def set_turn_def\<close>)
      then show ?thesis using Inr d'(1) by (simp add: commit_def)
    qed
  qed (simp add: commit_def assms)
qed (simp add: claim_once_def commit_def assms)

lemma reserve_reports:
  assumes "reports_ok E d" "turns_ok d"
  shows "reports_ok E (run_turn_op E policy (Reserve state fresh clock actor request expiry) d)"
proof (cases "\<exists>plan rv d'. reserve_prepare E policy state (fresh 0) clock actor request expiry d = Inr (Planned plan) \<and>
    reserve_commit E policy (fresh 1) (fresh 2) (clock 2) actor plan d = Inr (rv, d')")
  case True
  then obtain plan rv d' where rc: "reserve_prepare E policy state (fresh 0) clock actor request expiry d = Inr (Planned plan)"
    "reserve_commit E policy (fresh 1) (fresh 2) (clock 2) actor plan d = Inr (rv, d')" by blast
  obtain at prompt d1 d2 settings d3 t where *:
    "append_event_in_transaction E (fresh 2) (prompt_event E actor plan at) d = Inr (prompt, d1)"
    "record_request E (pl_room plan) (pl_request_id plan) (pl_fingerprint plan) [prompt] d1 = Inr d2"
    "enter_conversation E policy plan (fresh 1) settings d2 = Inr d3" "insert_turn t d3 = Inr d'" "ct_last_update_ordinal t = 0"
    by (rule reserve_commit_Inr [OF rc(2)])
  have d3: "conversation_tasks d3 = conversation_tasks d" "conversation_updates d3 = conversation_updates d"
    using *(1-3) by (auto simp: append_Inr record_request_def enter_conversation_def insert_conversation_def set_conversation_def
        Let_def result_simps split: if_splits option.splits)
  have d': "conversation_tasks d' = conversation_tasks d @ [t]" "conversation_updates d' = conversation_updates d"
    "ct_task_id t \<notin> ct_task_id ` set (conversation_tasks d)"
    using *(4) d3 by (auto simp: insert_turn_def result_simps list_ex_iff)
  have "cu_task_id u \<noteq> ct_task_id t" if "u \<in> set (conversation_updates d)" for u
    using assms(1) d'(3) that unfolding reports_ok_def by (metis image_eqI subsetD)
  then have "turn_updates (ct_task_id t) d' = []" using d'(2) by (simp add: turn_updates_def filter_empty_conv)
  then have "reports_row E t (turn_updates (ct_task_id t) d')" using *(5) by (simp add: reports_row_def MAX_SAFE_INTEGER_def)
  then have "reports_ok E d'" using assms(1) d' by (auto simp: reports_ok_def turn_updates_def)
  then show ?thesis using rc by (simp add: reserve_inner_def commit_def)
next
  case False
  then have "run_turn_op E policy (Reserve state fresh clock actor request expiry) d = d"
    by (auto simp: reserve_inner_def commit_def split: sum.splits reservation_step.splits)
  then show ?thesis using assms(1) by simp
qed

lemma run_turn_op_reports:
  assumes "reports_ok E d" "turns_ok d" "jsonb_ok E" "update_schema E"
  shows "reports_ok E (run_turn_op E policy op d)"
proof (cases op)
  case (Reserve state fresh clock actor request expiry)
  then show ?thesis using reserve_reports assms by simp
next
  case (Claim_round owner i)
  then show ?thesis using claim_reports assms by simp
next
  case (Packet db_now now failure_id task lease)
  then show ?thesis using packet_reports assms by simp
next
  case (Report db_now clock event_id failure_id task lease request)
  then show ?thesis using record_update_reports assms by simp
qed

end
