(* ===== verification/Gateway_Frames.thy ===== *)
theory Gateway_Frames
  imports Agent_Service Conversation_Reports
begin

text \<open>
  The room requests and the agent tasks do not touch the tables of the conversations.
\<close>

definition apart :: "db \<Rightarrow> db \<Rightarrow> bool" where
  "apart d d' \<longleftrightarrow> agent_conversations d' = agent_conversations d \<and> conversation_tasks d' = conversation_tasks d \<and>
     conversation_updates d' = conversation_updates d \<and> conversation_update_requests d' = conversation_update_requests d \<and>
     conversation_disclosures d' = conversation_disclosures d"

lemma apart_refl: "apart d d"
  by (simp add: apart_def)

lemma apart_trans: "apart a b \<Longrightarrow> apart b c \<Longrightarrow> apart a c"
  by (simp add: apart_def)

lemma append_apart: "append_event_in_transaction E i ev d = Inr (e, d') \<Longrightarrow> apart d d'"
  by (auto simp: append_Inr apart_def)

lemma record_request_apart: "record_request E room req fp es d = Inr d' \<Longrightarrow> apart d d'"
  by (auto simp: record_request_def result_simps apart_def)

lemma append_events_apart: "append_events E evs d = Inr (es, d') \<Longrightarrow> apart d d'"
proof (induction evs arbitrary: d es)
  case (Cons x evs)
  then show ?case using append_apart apart_trans by (cases x) (fastforce simp: result_simps)
qed (simp add: apart_refl)

lemma start_apart: "start_agent_task_in_transaction E task event now requester name start idem d = Inr (res, d') \<Longrightarrow> apart d d'"
  using append_apart apart_trans
  by (fastforce simp: start_agent_task_in_transaction_def insert_agent_task_def record_request_def Let_def result_simps apart_def
      split: option.splits if_splits)

lemma update_apart: "record_agent_task_update_with_outcome E req event now utc_now lease change d = Inr (res, d') \<Longrightarrow> apart d d'"
  unfolding record_agent_task_update_with_outcome_def
  by (auto simp: enter_update_def Let_def result_simps apart_def append_Inr split: option.splits if_splits)

lemma task_op_apart: "apart d (snd (run_task_op E op now d))"
proof (cases op)
  case (Claim_by_id task owner)
  then show ?thesis by (simp add: claim_agent_task_def Let_def apart_def split: option.splits)
next
  case (Claim_oldest agent owner)
  then show ?thesis by (simp add: claim_oldest_queued_agent_task_def Let_def apart_def split: list.splits)
next
  case (Start task event requester name start idem)
  then show ?thesis using start_apart apart_refl
    by (cases "start_agent_task_in_transaction E task event now requester name start idem d") (auto simp: commit_def)
next
  case (Update req event utc_now lease change)
  then show ?thesis using update_apart apart_refl
    by (cases "record_agent_task_update_with_outcome E req event now utc_now lease change d") (auto simp: commit_def)
qed

lemma decision_rows_apart:
  "insert_decision row d = Inr d' \<Longrightarrow> apart d d'" "apart d (set_decision_status E i st now d)"
  by (auto simp: insert_decision_def set_decision_status_def result_simps apart_def)

lemma propose_apart: "propose_decision E i j actor p d = Inr (es, d') \<Longrightarrow> apart d d'"
  using append_apart decision_rows_apart(1) apart_trans by (fastforce simp: propose_decision_def Let_def result_simps)

lemma settle_apart: "settle_decision E i actor req st ty row d = Inr (es, d') \<Longrightarrow> apart d d'"
  using append_apart decision_rows_apart(2) apart_trans by (fastforce simp: settle_decision_def Let_def result_simps)

lemma edit_apart: "edit_decision E rid i1 i2 actor req row d = Inr (es, d') \<Longrightarrow> apart d d'"
  unfolding edit_decision_def
  by (auto simp: Let_def result_simps dest!: append_apart decision_rows_apart(1) intro: apart_trans)
    (auto simp: apart_def set_decision_status_def)

lemma transition_apart:
  assumes "transition_decision_in_transaction E rid i1 i2 actor req d = Inr (es, d')"
  shows "apart d d'"
  using assms
proof (cases rule: transition_Inr)
  case (1 row)
  then show ?thesis by (cases "dt_action req") (auto dest: settle_apart edit_apart)
qed

lemma delete_apart: "delete_decision_in_transaction E i actor req d = Inr (es, d') \<Longrightarrow> apart d d'"
  unfolding delete_decision_in_transaction_def by (auto simp: Let_def result_simps append_Inr apart_def)

lemma send_chat_apart: "send_chat E fresh actor ps c d = Inr (es, d') \<Longrightarrow> apart d d'"
  unfolding send_chat_def Let_def
  by (auto simp: result_simps split: if_splits prod.splits) (meson append_apart append_events_apart apart_trans)+

lemma perform_apart: "perform_request E fresh now actor ps request d = Inr (es, d') \<Longrightarrow> apart d d'"
  by (cases request)
    (auto simp: result_simps dest: send_chat_apart propose_apart transition_apart delete_apart start_apart)

lemma process_apart: "apart d (commit d (process E enabled presence fresh now actor request d))"
proof (cases "process E enabled presence fresh now actor request d")
  case (Inr x)
  then obtain p d' where p: "process E enabled presence fresh now actor request d = Inr (p, d')" by (cases x) auto
  have "apart d d'"
    by (cases rule: process_Inr [OF p]) (blast intro: apart_refl apart_trans perform_apart record_request_apart)+
  then show ?thesis using p by (simp add: commit_def)
qed (simp add: commit_def apart_refl)

lemma apart_turns: "apart d d' \<Longrightarrow> turns_ok d' = turns_ok d" "apart d d' \<Longrightarrow> turns_step d d'" "apart d d' \<Longrightarrow> reports_ok E d' = reports_ok E d"
  using turns_ok_same [of d' d] turns_step_same [of d' d] by (simp_all add: apart_def reports_ok_def turn_updates_def)

end
