(* ===== verification/Ws_Session.thy ===== *)
theory Ws_Session
  imports Rooms
begin

text \<open>
  WebSocket sessions, \<open>src/ws.rs\<close>, and the shared state they run on (\<open>GatewayState\<close> of \<open>src/rooms.rs\<close>):
  the upgrade decision, the browser's authentication phase, the joined session with replay and live
  events, and its clean-up.  A session is driven by a sequence of inputs, in the order the \<open>select!\<close>
  takes them.  The broadcast channel is the library's: what a receiver yields is an input, what is sent
  is recorded.  A socket accepts \<open>ss_budget\<close> more frames and then fails, so every send may be the one
  that fails.  A frame is tagged with the place that sends it; \<open>frame_message\<close> is what the peer gets.
\<close>

subsection \<open>The shared state\<close>

datatype room_broadcast =
    Event room_event
  | Participants "room_participant list" "uuid option"

record gateway =
  gw_db :: db
  gw_presence :: presence
  gw_rooms :: "uuid list" \<comment> \<open>the rooms that have a channel\<close>
  gw_sent :: "(uuid \<times> room_broadcast) list" \<comment> \<open>what was sent to the channels\<close>
  gw_offered :: "room_event list" \<comment> \<open>what was offered to the memory engine's queue\<close>
  gw_memory_engine :: bool
  gw_enabled :: bool \<comment> \<open>the conversation policy\<close>

record tick =
  tk_utc :: int \<comment> \<open>\<open>Utc::now().timestamp()\<close>\<close>
  tk_now :: timestamp
  tk_fresh :: "nat \<Rightarrow> uuid"

definition room_channel :: "uuid \<Rightarrow> gateway \<Rightarrow> gateway" where
  "room_channel room_id g = g\<lparr>gw_rooms := List.insert room_id (gw_rooms g)\<rparr>"

definition publish :: "room_event \<Rightarrow> gateway \<Rightarrow> gateway" where
  "publish event g =
     (let g = room_channel (ev_room_id event) g
      in g\<lparr>gw_sent := gw_sent g @ [(ev_room_id event, Event event)]\<rparr>)"

definition gateway_snapshot :: "ext \<Rightarrow> uuid \<Rightarrow> gateway \<Rightarrow> room_participant list" where
  "gateway_snapshot E room_id g = participant_snapshot E (gw_enabled g) (gw_presence g) room_id (gw_db g)"

definition publish_participant_snapshot :: "ext \<Rightarrow> uuid \<Rightarrow> uuid option \<Rightarrow> gateway \<Rightarrow> gateway" where
  "publish_participant_snapshot E room_id exclude_actor_id g =
     (if room_id \<in> set (gw_rooms g)
      then g\<lparr>gw_sent := gw_sent g @ [(room_id, Participants (gateway_snapshot E room_id g) exclude_actor_id)]\<rparr>
      else g)"

definition gateway_process ::
  "ext \<Rightarrow> tick \<Rightarrow> actor \<Rightarrow> validated_request \<Rightarrow> gateway \<Rightarrow> (rpc_error + processed_request) \<times> gateway" where
  \<comment> \<open>\<open>process\<close> with its effects after the commit\<close>
  "gateway_process E t actor request g =
     (case process E (gw_enabled g) (gw_presence g) (tk_fresh t) (tk_now t) actor request (gw_db g) of
        Inl e \<Rightarrow> (Inl e, g)
      | Inr (p, d) \<Rightarrow>
          (Inr p, g\<lparr>gw_db := d,
             gw_offered := gw_offered g @
               (if gw_memory_engine g \<and> \<not> pr_duplicate p then pr_events p else [])\<rparr>))"

subsection \<open>Frames\<close>

datatype frame =
    Error_frame json rpc_error
  | Close_frame string
  | Authenticated_frame string actor
  | Join_frame string int "room_event list" "room_participant list"
    \<comment> \<open>with the requested \<open>afterSequence\<close>\<close>
  | Event_frame room_event
  | Duplicate_frame room_event
  | Participants_frame uuid "room_participant list"

datatype message = Text_message json | Close_message nat string

definition error_response :: "json \<Rightarrow> rpc_error \<Rightarrow> json" where
  "error_response i e = jobj [
     (''jsonrpc'', JStr ''2.0''),
     (''id'', i),
     (''error'', jobj [(''code'', JInt (rpc_code e)), (''message'', JStr (rpc_message e))])]"

definition participant_update_value :: "ext \<Rightarrow> uuid \<Rightarrow> room_participant list \<Rightarrow> json" where
  "participant_update_value E room_id participants = jobj [
     (''jsonrpc'', JStr ''2.0''),
     (''method'', JStr ''room.participants.updated''),
     (''params'', jobj [
        (''contractVersion'', JStr ''n2n.room.v1''),
        (''roomId'', juuid E room_id),
        (''participants'', JArr (map (participant_to_wire_value E) participants))])]"

fun frame_message :: "ext \<Rightarrow> frame \<Rightarrow> message" where
  "frame_message E (Error_frame i e) = Text_message (error_response i e)"
| "frame_message E (Close_frame reason) = Close_message 1008 reason"
| "frame_message E (Authenticated_frame i actor) = Text_message (jobj [
     (''jsonrpc'', JStr ''2.0''),
     (''id'', JStr i),
     (''result'', jobj [
        (''actor'', jobj [
           (''id'', juuid E (act_id actor)),
           (''role'', JStr (role_str (act_role actor))),
           (''displayName'', JStr (act_display_name actor))]),
        (''expiresAt'', JInt (act_expires_at actor))])])"
| "frame_message E (Join_frame i after events participants) = Text_message (jobj [
     (''jsonrpc'', JStr ''2.0''),
     (''id'', JStr i),
     (''result'', jobj [
        (''events'', JArr (map (event_to_wire_value E) events)),
        (''participants'', JArr (map (participant_to_wire_value E) participants))])])"
| "frame_message E (Event_frame e) = Text_message (event_to_wire_value E e)"
| "frame_message E (Duplicate_frame e) = Text_message (event_to_wire_value E e)"
| "frame_message E (Participants_frame room_id ps) = Text_message (participant_update_value E room_id ps)"

record session =
  ss_joined_room :: "uuid option"
  ss_receiver :: "uuid option"
  ss_last_sequence :: int
  ss_out :: "frame list"
  ss_budget :: nat

definition new_session :: "nat \<Rightarrow> session" where
  "new_session budget =
     \<lparr>ss_joined_room = None, ss_receiver = None, ss_last_sequence = 0, ss_out = [], ss_budget = budget\<rparr>"

definition send_value :: "frame \<Rightarrow> session \<Rightarrow> bool \<times> session" where
  "send_value f s =
     (if ss_budget s = 0 then (False, s)
      else (True, s\<lparr>ss_out := ss_out s @ [f], ss_budget := ss_budget s - 1\<rparr>))"

definition send_error :: "json \<Rightarrow> rpc_error \<Rightarrow> session \<Rightarrow> bool \<times> session" where
  "send_error i e s = send_value (Error_frame i e) s"

definition close_with_error :: "json \<Rightarrow> rpc_error \<Rightarrow> string \<Rightarrow> session \<Rightarrow> session" where
  "close_with_error i e reason s = snd (send_value (Close_frame reason) (snd (send_error i e s)))"

definition request_id_value :: "ext \<Rightarrow> string \<Rightarrow> json" where
  "request_id_value E raw =
     (case Option.bind (json_parse E raw) (\<lambda>v. jget v ''id'') of
        Some (JStr i) \<Rightarrow> JStr i
      | _ \<Rightarrow> JNull)"

subsection \<open>Delivery\<close>

definition next_sequence :: "int \<Rightarrow> int" where
  \<comment> \<open>\<open>last_sequence + 1\<close> on \<open>i64\<close>, which wraps\<close>
  "next_sequence n = (if n = i64_max then i64_min else n + 1)"

fun deliver_in_order :: "ext \<Rightarrow> uuid \<Rightarrow> room_event list \<Rightarrow> session \<Rightarrow> bool \<times> session" where
  "deliver_in_order E actor_id [] s = (True, s)"
| "deliver_in_order E actor_id (event # events) s =
     (if ev_sequence event \<le> ss_last_sequence s then deliver_in_order E actor_id events s
      else if ev_sequence event \<noteq> next_sequence (ss_last_sequence s) then (False, s)
      else if event_visible_to E event actor_id then
        (case send_value (Event_frame event) s of
           (False, s) \<Rightarrow> (False, s)
         | (True, s) \<Rightarrow> deliver_in_order E actor_id events (s\<lparr>ss_last_sequence := ev_sequence event\<rparr>))
      else deliver_in_order E actor_id events (s\<lparr>ss_last_sequence := ev_sequence event\<rparr>))"

definition replay_in_order :: "ext \<Rightarrow> uuid \<Rightarrow> uuid \<Rightarrow> db \<Rightarrow> session \<Rightarrow> bool \<times> session" where
  "replay_in_order E room_id actor_id d s =
     deliver_in_order E actor_id (replay room_id (ss_last_sequence s) d) s"

fun send_duplicates :: "room_event list \<Rightarrow> session \<Rightarrow> bool \<times> session" where
  "send_duplicates [] s = (True, s)"
| "send_duplicates (event # events) s =
     (case send_value (Duplicate_frame event) s of
        (False, s) \<Rightarrow> (False, s)
      | (True, s) \<Rightarrow> send_duplicates events s)"

subsection \<open>Requests of a session\<close>

definition handle_join ::
  "ext \<Rightarrow> actor \<Rightarrow> join \<Rightarrow> session \<Rightarrow> gateway \<Rightarrow> bool \<times> session \<times> gateway" where
  "handle_join E actor request s g =
     (if (case ss_joined_room s of None \<Rightarrow> False | Some joined \<Rightarrow> joined \<noteq> jn_room_id request) then
        (let (ok, s) = send_error (JStr (jn_id request)) Forbidden s in (ok, s, g))
      else
        (let is_new_join = (ss_joined_room s = None);
             g = room_channel (jn_room_id request) g;
             after_sequence = (case jn_after_sequence request of None \<Rightarrow> 0 | Some n \<Rightarrow> n);
             events = replay (jn_room_id request) after_sequence (gw_db g);
             g = (if is_new_join then g\<lparr>gw_presence := register_participant (jn_room_id request) actor (gw_presence g)\<rparr> else g);
             participants = gateway_snapshot E (jn_room_id request) g;
             s = s\<lparr>ss_last_sequence := (if events = [] then after_sequence else ev_sequence (last events)),
                   ss_joined_room := Some (jn_room_id request), ss_receiver := Some (jn_room_id request)\<rparr>;
             (sent, s) = send_value (Join_frame (jn_id request) after_sequence
               (filter (\<lambda>e. event_visible_to E e (act_id actor)) events) participants) s
         in (sent, s,
             if sent \<and> is_new_join
             then publish_participant_snapshot E (jn_room_id request) (Some (act_id actor)) g else g)))"

definition handle_request ::
  "ext \<Rightarrow> tick \<Rightarrow> actor \<Rightarrow> validated_request \<Rightarrow> session \<Rightarrow> gateway \<Rightarrow> bool \<times> session \<times> gateway" where
  \<comment> \<open>the rest of \<open>handle_message\<close> for a request that is neither a join nor an authentication\<close>
  "handle_request E t actor request s g =
     (let response_id = JStr (request_rpc_id request) in
      if request_room_id request = None \<or> ss_joined_room s \<noteq> request_room_id request then
        (let (ok, s) = send_error response_id Forbidden s in (ok, s, g))
      else
        (case gateway_process E t actor request g of
           (Inr processed, g) \<Rightarrow>
             if pr_duplicate processed
             then (let (ok, s) = send_duplicates (pr_events processed) s in (ok, s, g))
             else (True, s, fold publish (pr_events processed) g)
         | (Inl e, g) \<Rightarrow> (let (ok, s) = send_error response_id e s in (ok, s, g))))"

datatype incoming = Text_in string | Close_in | Ping_in | Pong_in | Binary_in

definition handle_message ::
  "ext \<Rightarrow> tick \<Rightarrow> actor \<Rightarrow> incoming \<Rightarrow> session \<Rightarrow> gateway \<Rightarrow> bool \<times> session \<times> gateway" where
  "handle_message E t actor msg s g =
     (case msg of
        Text_in raw \<Rightarrow>
          if act_expires_at actor \<le> tk_utc t then
            (False, close_with_error (request_id_value E raw) Rpc_unauthenticated ''authentication expired'' s, g)
          else
            (case validate_request E raw of
               Inl e \<Rightarrow> (let (ok, s) = send_error (request_id_value E raw) e s in (ok, s, g))
             | Inr (SessionAuthenticate r) \<Rightarrow>
                 (let (ok, s) = send_error (JStr (sa_id r)) Forbidden s in (ok, s, g))
             | Inr (Join r) \<Rightarrow> handle_join E actor r s g
             | Inr request \<Rightarrow> handle_request E t actor request s g)
      | Close_in \<Rightarrow> (False, s, g)
      | _ \<Rightarrow> (True, s, g))"

subsection \<open>The session loop\<close>

datatype broadcast_recv =
    Received nat \<comment> \<open>something that was sent to the room, by its position\<close>
  | Lagged
  | Closed

datatype session_input =
    Expired
  | Incoming "incoming option" \<comment> \<open>\<open>None\<close>: the peer is gone\<close>
  | Broadcast broadcast_recv

datatype outcome = Continue | Break | Panic

definition go_on :: "bool \<Rightarrow> outcome" where
  "go_on ok = (if ok then Continue else Break)"

definition sent_to :: "uuid \<Rightarrow> gateway \<Rightarrow> room_broadcast list" where
  "sent_to room_id g = map snd (filter (\<lambda>m. fst m = room_id) (gw_sent g))"

definition session_received ::
  "ext \<Rightarrow> actor \<Rightarrow> room_broadcast \<Rightarrow> db \<Rightarrow> session \<Rightarrow> outcome \<times> session" where
  "session_received E actor b d s =
     (case b of
        Event event \<Rightarrow>
          if ev_sequence event = next_sequence (ss_last_sequence s) then
            (if event_visible_to E event (act_id actor) then
               (case send_value (Event_frame event) s of
                  (False, s) \<Rightarrow> (Break, s)
                | (True, s) \<Rightarrow> (Continue, s\<lparr>ss_last_sequence := ev_sequence event\<rparr>))
             else (Continue, s\<lparr>ss_last_sequence := ev_sequence event\<rparr>))
          else if ev_sequence event > next_sequence (ss_last_sequence s) then
            (case ss_joined_room s of
               None \<Rightarrow> (Break, s)
             | Some room_id \<Rightarrow> (let (ok, s) = replay_in_order E room_id (act_id actor) d s in (go_on ok, s)))
          else (Continue, s)
      | Participants participants exclude_actor_id \<Rightarrow>
          if exclude_actor_id = Some (act_id actor) then (Continue, s)
          else
            (case ss_joined_room s of
               None \<Rightarrow> (Panic, s) \<comment> \<open>\<open>expect\<close>\<close>
             | Some room_id \<Rightarrow>
                 (let (ok, s) = send_value (Participants_frame room_id participants) s in (go_on ok, s))))"

definition session_broadcast ::
  "ext \<Rightarrow> actor \<Rightarrow> uuid \<Rightarrow> broadcast_recv \<Rightarrow> gateway \<Rightarrow> session \<Rightarrow> outcome \<times> session" where
  "session_broadcast E actor channel b g s =
     (case b of
        Received k \<Rightarrow>
          if k < length (sent_to channel g) then session_received E actor (sent_to channel g ! k) (gw_db g) s
          else (Continue, s) \<comment> \<open>not sent yet\<close>
      | Lagged \<Rightarrow>
          (case ss_joined_room s of
             None \<Rightarrow> (Continue, s)
           | Some room_id \<Rightarrow> (let (ok, s) = replay_in_order E room_id (act_id actor) (gw_db g) s in (go_on ok, s)))
      | Closed \<Rightarrow> (Break, s))"

definition session_step ::
  "ext \<Rightarrow> actor \<Rightarrow> tick \<Rightarrow> session_input \<Rightarrow> session \<Rightarrow> gateway \<Rightarrow> outcome \<times> session \<times> gateway" where
  "session_step E actor t input s g =
     (case input of
        Expired \<Rightarrow> (Break, close_with_error JNull Rpc_unauthenticated ''authentication expired'' s, g)
      | Incoming None \<Rightarrow> (Break, s, g)
      | Incoming (Some msg) \<Rightarrow> (let (ok, s, g) = handle_message E t actor msg s g in (go_on ok, s, g))
      | Broadcast b \<Rightarrow>
          (case ss_receiver s of
             None \<Rightarrow> (Continue, s, g) \<comment> \<open>this branch of the \<open>select!\<close> is not there\<close>
           | Some channel \<Rightarrow> (let (out, s) = session_broadcast E actor channel b g s in (out, s, g))))"

definition cleanup_presence :: "ext \<Rightarrow> actor \<Rightarrow> session \<Rightarrow> gateway \<Rightarrow> session \<times> gateway" where
  "cleanup_presence E actor s g =
     (case ss_joined_room s of
        None \<Rightarrow> (s, g)
      | Some room_id \<Rightarrow>
          (s\<lparr>ss_joined_room := None\<rparr>,
           publish_participant_snapshot E room_id None
             (g\<lparr>gw_presence := unregister_participant room_id (act_id actor) (gw_presence g)\<rparr>)))"

fun websocket_session ::
  "ext \<Rightarrow> actor \<Rightarrow> ((gateway \<Rightarrow> gateway) \<times> tick \<times> session_input) list \<Rightarrow> session \<Rightarrow> gateway \<Rightarrow>
   outcome \<times> session \<times> gateway" where
  \<comment> \<open>before each input other tasks of the process may have changed the shared state\<close>
  "websocket_session E actor [] s g = (Continue, s, g)"
| "websocket_session E actor ((others, t, input) # inputs) s g =
     (case session_step E actor t input s (others g) of
        (Continue, s, g) \<Rightarrow> websocket_session E actor inputs s g
      | (Break, s, g) \<Rightarrow> (let (s, g) = cleanup_presence E actor s g in (Break, s, g))
      | (Panic, s, g) \<Rightarrow> (Panic, s, g))"

definition expires_in_millis :: "int \<Rightarrow> int \<Rightarrow> int" where
  \<comment> \<open>the delay of the expiry timer, on \<open>i64\<close>\<close>
  "expires_in_millis expires_at now_millis =
     (let expires_at_millis = max i64_min (min i64_max (expires_at * 1000))
      in max 0 (max i64_min (min i64_max (expires_at_millis - now_millis))))"

subsection \<open>Before the session\<close>

datatype upgrade = Rejected nat rpc_error | Browser_session | Bearer_session actor

definition websocket_upgrade ::
  "ext \<Rightarrow> 'k jwt_lib \<Rightarrow> 'k auth_validator \<Rightarrow> websocket_policy \<Rightarrow> string option option \<Rightarrow> string option \<Rightarrow> upgrade" where
  \<comment> \<open>the \<open>Origin\<close> header, if there is one and if it is readable; the \<open>Authorization\<close> header\<close>
  "websocket_upgrade E L A policy origin authorization =
     (case origin of
        Some None \<Rightarrow> Rejected 403 Forbidden
      | Some (Some origin) \<Rightarrow> if allows_origin policy origin then Browser_session else Rejected 403 Forbidden
      | None \<Rightarrow>
          (case authenticate_bearer E L A authorization of
             None \<Rightarrow> Rejected 401 Rpc_unauthenticated
           | Some actor \<Rightarrow> Bearer_session actor))"

datatype auth_input = Timeout | Auth_incoming "incoming option"

fun browser_authentication_session ::
  "ext \<Rightarrow> 'k jwt_lib \<Rightarrow> 'k auth_validator \<Rightarrow> auth_input list \<Rightarrow> session \<Rightarrow> actor option \<times> session" where
  \<comment> \<open>the actor whose session follows, if any\<close>
  "browser_authentication_session E L A [] s = (None, s)"
| "browser_authentication_session E L A (Timeout # inputs) s =
     (None, close_with_error JNull Rpc_unauthenticated ''authentication timeout'' s)"
| "browser_authentication_session E L A (Auth_incoming None # inputs) s = (None, s)"
| "browser_authentication_session E L A (Auth_incoming (Some msg) # inputs) s =
     (case msg of
        Text_in raw \<Rightarrow>
          (case validate_request E raw of
             Inr (SessionAuthenticate request) \<Rightarrow>
               (case authenticate_access_token E L A (sa_access_token request) of
                  None \<Rightarrow> (None, close_with_error (JStr (sa_id request)) Rpc_unauthenticated ''authentication failed'' s)
                | Some actor \<Rightarrow>
                    (case send_value (Authenticated_frame (sa_id request) actor) s of
                       (False, s) \<Rightarrow> (None, s)
                     | (True, s) \<Rightarrow> (Some actor, s)))
           | Inr _ \<Rightarrow> (None, close_with_error (request_id_value E raw) Rpc_unauthenticated ''authentication required'' s)
           | Inl e \<Rightarrow> (None, close_with_error (request_id_value E raw) e ''invalid authentication request'' s))
      | Close_in \<Rightarrow> (None, s)
      | Ping_in \<Rightarrow> browser_authentication_session E L A inputs s
      | Pong_in \<Rightarrow> browser_authentication_session E L A inputs s
      | Binary_in \<Rightarrow> (None, close_with_error JNull Invalid_request ''invalid authentication request'' s))"


subsection \<open>The event stream of a session\<close>

fun add_frame :: "frame \<Rightarrow> int \<times> room_event list \<Rightarrow> int \<times> room_event list" where
  "add_frame (Join_frame _ after events _) st = (after, events)"
| "add_frame (Event_frame e) st = (fst st, snd st @ [e])"
| "add_frame _ st = st"

definition stream :: "frame list \<Rightarrow> int \<times> room_event list" where
  \<comment> \<open>where the latest join started, and the events delivered since, its own included\<close>
  "stream fs = fold add_frame fs (0, [])"

definition other_frame :: "frame \<Rightarrow> bool" where
  "other_frame f \<longleftrightarrow> (case f of Join_frame _ _ _ _ \<Rightarrow> False | Event_frame _ \<Rightarrow> False | _ \<Rightarrow> True)"

lemma stream_append: "stream (fs @ gs) = fold add_frame gs (stream fs)"
  by (simp add: stream_def)

lemma stream_other: "list_all other_frame gs \<Longrightarrow> stream (fs @ gs) = stream fs"
proof (induction gs arbitrary: fs)
  case (Cons f gs)
  then have "stream ((fs @ [f]) @ gs) = stream (fs @ [f])" by (intro Cons.IH) simp
  moreover have "stream (fs @ [f]) = stream fs"
    using Cons.prems by (cases f) (simp_all add: stream_def other_frame_def)
  ultimately show ?case by simp
qed simp

lemma stream_events: "stream (fs @ map Event_frame es) = (fst (stream fs), snd (stream fs) @ es)"
proof -
  have "fold add_frame (map Event_frame es) st = (fst st, snd st @ es)" for st
    by (induction es arbitrary: st) simp_all
  then show ?thesis by (simp add: stream_append)
qed

abbreviation visible_events :: "ext \<Rightarrow> uuid \<Rightarrow> room_event list \<Rightarrow> room_event list" where
  "visible_events E u es \<equiv> filter (\<lambda>e. event_visible_to E e u) es"

definition stream_ok :: "ext \<Rightarrow> uuid \<Rightarrow> uuid \<Rightarrow> nat \<Rightarrow> frame list \<Rightarrow> db \<Rightarrow> bool" where
  \<comment> \<open>the peer got exactly the visible events of the room after the start and up to event \<open>n\<close>\<close>
  "stream_ok E u r n fs d \<longleftrightarrow>
     (let a = nat (fst (stream fs)) in
      snd (stream fs) = visible_events E u (drop a (take n (room_log d r))) \<and>
      a \<le> n \<and> (n \<le> length (room_log d r) \<or> n = a))"

lemma stream_ok_other: "list_all other_frame gs \<Longrightarrow> stream_ok E u r n (fs @ gs) d = stream_ok E u r n fs d"
  by (simp add: stream_ok_def stream_other)

lemma stream_ok_later:
  assumes "stream_ok E u r n fs d" "later d d'"
  shows "stream_ok E u r n fs d'"
proof -
  from assms(2) obtain es where "room_events d' = room_events d @ es" by (auto simp: later_def)
  then have "room_log d' r = room_log d r @ filter (\<lambda>e. ev_room_id e = r) es" by (simp add: room_log_def)
  with assms(1) show ?thesis by (auto simp: stream_ok_def Let_def)
qed

lemma stream_ok_extend:
  assumes "stream_ok E u r n fs d" "m \<le> length (drop n (room_log d r))"
  shows "stream_ok E u r (n + m) (fs @ map Event_frame (visible_events E u (take m (drop n (room_log d r))))) d"
proof -
  let ?log = "room_log d r" and ?a = "nat (fst (stream fs))"
  from assms(1) have ok: "snd (stream fs) = visible_events E u (drop ?a (take n ?log))" "?a \<le> n"
    "n \<le> length ?log \<or> n = ?a" by (simp_all add: stream_ok_def Let_def)
  have split: "drop ?a (take (n + m) ?log) = drop ?a (take n ?log) @ take m (drop n ?log)"
  proof (cases "n \<le> length ?log")
    case True
    with ok(2) show ?thesis by (simp add: take_add)
  next
    case False
    with ok(3) show ?thesis by simp
  qed
  have "n + m \<le> length ?log \<or> n + m = ?a" using assms(2) ok(3) by (cases "n \<le> length ?log") auto
  with ok split show ?thesis by (simp add: stream_ok_def Let_def stream_events)
qed

lemma send_value_cases:
  assumes "send_value f s = (ok, s')"
  obtains "ok" "s' = s\<lparr>ss_out := ss_out s @ [f], ss_budget := ss_budget s - 1\<rparr>" "ss_budget s > 0"
  | "\<not> ok" "s' = s"
  using assms by (auto simp: send_value_def split: if_splits)

text \<open>Delivery in order, starting right after the last sequence.\<close>

lemma deliver_spec:
  assumes "deliver_in_order E u es s = (ok, s')" "0 \<le> ss_last_sequence s"
    "map ev_sequence es = [ss_last_sequence s + 1..ss_last_sequence s + int (length es)]"
  shows "\<exists>m \<le> length es. s' = s\<lparr>ss_last_sequence := ss_last_sequence s + int m,
      ss_out := ss_out s @ map Event_frame (visible_events E u (take m es)), ss_budget := ss_budget s'\<rparr> \<and>
    (ok \<longrightarrow> m = length es)"
  using assms
proof (induction es arbitrary: s)
  case Nil
  then show ?case by simp
next
  case (Cons e es)
  let ?k = "ss_last_sequence s"
  have up: "[?k + 1..?k + int (length (e # es))] = (?k + 1) # [?k + 2..?k + 1 + int (length es)]"
    by (simp add: upto_rec1 algebra_simps)
  have seq: "ev_sequence e = ?k + 1" and rest: "map ev_sequence es = [?k + 1 + 1..?k + 1 + int (length es)]"
    using Cons.prems(3) up by (simp_all add: algebra_simps)
  show ?case
  proof (cases "?k = i64_max")
    case True
    then have "(ok, s') = (False, s)" using Cons.prems(1) seq by (simp add: next_sequence_def i64_max_def i64_min_def)
    then show ?thesis by (intro exI [of _ 0]) simp
  next
    case False
    then have nx: "next_sequence ?k = ?k + 1" by (simp add: next_sequence_def)
    let ?vis = "event_visible_to E e u"
    let ?s1 = "if ?vis then s\<lparr>ss_out := ss_out s @ [Event_frame e], ss_budget := ss_budget s - 1\<rparr> else s"
    show ?thesis
    proof (cases "?vis \<and> ss_budget s = 0")
      case True
      then have "(ok, s') = (False, s)" using Cons.prems(1) seq nx by (simp add: send_value_def)
      then show ?thesis by (intro exI [of _ 0]) simp
    next
      case ok1: False
      have d: "deliver_in_order E u es (?s1\<lparr>ss_last_sequence := ?k + 1\<rparr>) = (ok, s')"
        using Cons.prems(1) seq nx ok1 by (auto simp: send_value_def split: if_splits)
      from Cons.IH [OF d] Cons.prems(2) rest obtain m where m: "m \<le> length es"
        "s' = ?s1\<lparr>ss_last_sequence := ?k + 1 + int m,
          ss_out := ss_out ?s1 @ map Event_frame (visible_events E u (take m es)), ss_budget := ss_budget s'\<rparr>"
        "ok \<longrightarrow> m = length es" by auto
      then show ?thesis by (intro exI [of _ "Suc m"]) (auto simp: add.assoc split: if_splits)
    qed
  qed
qed


lemma drop_log_sequences:
  assumes "log_ok d" "0 \<le> k"
  shows "map ev_sequence (drop (nat k) (room_log d r)) = [k + 1..k + int (length (drop (nat k) (room_log d r)))]"
proof (rule nth_equalityI)
  show "length (map ev_sequence (drop (nat k) (room_log d r))) =
      length [k + 1..k + int (length (drop (nat k) (room_log d r)))]" by simp
  fix i assume i: "i < length (map ev_sequence (drop (nat k) (room_log d r)))"
  then have "nat k + i < length (room_log d r)" by simp
  from gateway_log.entry_at [OF assms(1) this] i assms(2)
  show "map ev_sequence (drop (nat k) (room_log d r)) ! i = [k + 1..k + int (length (drop (nat k) (room_log d r)))] ! i"
    by simp
qed

lemma replay_in_order_ok:
  assumes "log_ok d" "stream_ok E u r (nat (ss_last_sequence s)) (ss_out s) d" "replay_in_order E r u d s = (ok, s')"
  shows "stream_ok E u r (nat (ss_last_sequence s')) (ss_out s') d"
    and "ss_joined_room s' = ss_joined_room s" and "ss_receiver s' = ss_receiver s"
    and "ok \<Longrightarrow> 0 \<le> ss_last_sequence s \<Longrightarrow> ss_last_sequence s' = max (ss_last_sequence s) (int (length (room_log d r)))"
proof -
  let ?k = "ss_last_sequence s" and ?es = "drop (nat (ss_last_sequence s)) (room_log d r)"
  have rep: "replay r ?k d = ?es" using events_after_log [OF assms(1)] by (simp add: replay_def)
  have "stream_ok E u r (nat (ss_last_sequence s')) (ss_out s') d \<and> ss_joined_room s' = ss_joined_room s \<and>
      ss_receiver s' = ss_receiver s \<and> (ok \<and> 0 \<le> ?k \<longrightarrow> ss_last_sequence s' = max ?k (int (length (room_log d r))))"
  proof (cases "0 \<le> ?k")
    case True
    have "deliver_in_order E u ?es s = (ok, s')" using assms(3) by (simp add: replay_in_order_def rep)
    from deliver_spec [OF this True drop_log_sequences [OF assms(1) True]] obtain m where m: "m \<le> length ?es"
      "s' = s\<lparr>ss_last_sequence := ?k + int m,
        ss_out := ss_out s @ map Event_frame (visible_events E u (take m ?es)), ss_budget := ss_budget s'\<rparr>"
      "ok \<longrightarrow> m = length ?es" by blast
    from m(2) have f: "ss_last_sequence s' = ?k + int m" "ss_joined_room s' = ss_joined_room s" "ss_receiver s' = ss_receiver s"
      "ss_out s' = ss_out s @ map Event_frame (visible_events E u (take m ?es))"
      by (metis session.select_convs(1-4) session.surjective session.update_convs(3-5))+
    have n: "nat (?k + int m) = nat ?k + m" using True by simp
    have "?k + int (length ?es) = max ?k (int (length (room_log d r)))"
      using True by (cases "nat ?k \<le> length (room_log d r)") (simp_all add: max_def nat_le_iff)
    then show ?thesis
      using stream_ok_extend [OF assms(2) m(1)] f n m(3) by metis
  next
    case False
    then have es: "?es = room_log d r" by simp
    show ?thesis
    proof (cases "room_log d r")
      case Nil
      with assms(3) rep es have "s' = s" by (simp add: replay_in_order_def)
      with assms(2) False show ?thesis by simp
    next
      case (Cons e rest)
      then have "ev_sequence e = 1" using gateway_log.entry_at [OF assms(1), of 0 r] by simp
      with False have "s' = s \<and> \<not> ok" using assms(3) rep es Cons
        by (auto simp: replay_in_order_def next_sequence_def i64_max_def)
      with assms(2) show ?thesis by simp
    qed
  qed
  then show "stream_ok E u r (nat (ss_last_sequence s')) (ss_out s') d" "ss_joined_room s' = ss_joined_room s"
    "ss_receiver s' = ss_receiver s"
    "ok \<Longrightarrow> 0 \<le> ss_last_sequence s \<Longrightarrow> ss_last_sequence s' = max (ss_last_sequence s) (int (length (room_log d r)))"
    by auto
qed

subsection \<open>Frames outside the stream\<close>

definition emits :: "session \<Rightarrow> session \<Rightarrow> bool" where
  \<comment> \<open>only frames that carry no stream event were sent, nothing else changed\<close>
  "emits s s' \<longleftrightarrow> ss_joined_room s' = ss_joined_room s \<and> ss_receiver s' = ss_receiver s \<and>
     ss_last_sequence s' = ss_last_sequence s \<and> (\<exists>gs. list_all other_frame gs \<and> ss_out s' = ss_out s @ gs)"

lemma emits_refl: "emits s s"
  by (simp add: emits_def)

lemma emits_trans: "emits a b \<Longrightarrow> emits b c \<Longrightarrow> emits a c"
  unfolding emits_def by (metis append_assoc list_all_append)

lemma send_emits: "other_frame f \<Longrightarrow> send_value f s = (ok, s') \<Longrightarrow> emits s s'"
  by (auto simp: send_value_def emits_def split: if_splits)

lemma send_error_emits: "send_error i e s = (ok, s') \<Longrightarrow> emits s s'"
  unfolding send_error_def by (rule send_emits) (simp_all add: other_frame_def)

lemma close_emits: "emits s (close_with_error i e reason s)"
proof -
  obtain ok s1 where 1: "send_error i e s = (ok, s1)" by fastforce
  obtain ok2 s2 where 2: "send_value (Close_frame reason) s1 = (ok2, s2)" by fastforce
  have "emits s1 s2" by (rule send_emits [OF _ 2]) (simp add: other_frame_def)
  with send_error_emits [OF 1] 1 2 show ?thesis by (simp add: close_with_error_def emits_trans)
qed

lemma send_duplicates_emits: "send_duplicates es s = (ok, s') \<Longrightarrow> emits s s'"
proof (induction es arbitrary: s)
  case (Cons e es)
  obtain ok1 s1 where 1: "send_value (Duplicate_frame e) s = (ok1, s1)" by fastforce
  have "emits s s1" by (rule send_emits [OF _ 1]) (simp add: other_frame_def)
  with Cons 1 show ?case by (cases ok1) (auto intro: emits_trans)
qed (simp add: emits_refl)

definition session_ok :: "ext \<Rightarrow> uuid \<Rightarrow> session \<Rightarrow> db \<Rightarrow> bool" where
  "session_ok E u s d \<longleftrightarrow> ss_receiver s = ss_joined_room s \<and>
     (case ss_joined_room s of
        None \<Rightarrow> stream (ss_out s) = (0, [])
      | Some r \<Rightarrow> stream_ok E u r (nat (ss_last_sequence s)) (ss_out s) d)"

lemma session_ok_emits: "session_ok E u s d \<Longrightarrow> emits s s' \<Longrightarrow> session_ok E u s' d"
  by (auto simp: session_ok_def emits_def stream_other stream_ok_other split: option.splits)

lemma session_ok_later: "session_ok E u s d \<Longrightarrow> later d d' \<Longrightarrow> session_ok E u s d'"
  by (auto simp: session_ok_def intro: stream_ok_later split: option.splits)


subsection \<open>Steps\<close>

definition gateway_ok :: "gateway \<Rightarrow> bool" where
  \<comment> \<open>the logs are numbered, and every event sent to a channel is in the log of its room\<close>
  "gateway_ok g \<longleftrightarrow> log_ok (gw_db g) \<and> (\<forall>r e. (r, Event e) \<in> set (gw_sent g) \<longrightarrow> e \<in> set (room_log (gw_db g) r))"

lemma later_log: "later d d' \<Longrightarrow> e \<in> set (room_log d r) \<Longrightarrow> e \<in> set (room_log d' r)"
  by (auto simp: later_def room_log_def)

lemma publish_ok:
  "gateway_ok g \<Longrightarrow> e \<in> set (room_log (gw_db g) (ev_room_id e)) \<Longrightarrow> gateway_ok (publish e g) \<and> gw_db (publish e g) = gw_db g"
  by (auto simp: gateway_ok_def publish_def room_channel_def Let_def)

lemma publish_all_ok:
  "gateway_ok g \<Longrightarrow> \<forall>e \<in> set es. e \<in> set (room_log (gw_db g) (ev_room_id e)) \<Longrightarrow>
   gateway_ok (fold publish es g) \<and> gw_db (fold publish es g) = gw_db g"
proof (induction es arbitrary: g)
  case (Cons e es)
  have p: "gateway_ok (publish e g)" "gw_db (publish e g) = gw_db g"
    using publish_ok [OF Cons.prems(1), of e] Cons.prems(2) by simp_all
  from Cons.IH [OF p(1)] Cons.prems(2) p(2) show ?case by simp
qed simp

lemma publish_snapshot_ok:
  "gateway_ok g \<Longrightarrow> gateway_ok (publish_participant_snapshot E r x g) \<and> gw_db (publish_participant_snapshot E r x g) = gw_db g"
  by (auto simp: gateway_ok_def publish_participant_snapshot_def)

lemma gateway_process_ok:
  assumes "gateway_ok g" "gateway_process E t actor request g = (res, g')"
  shows "gateway_ok g'" and "later (gw_db g) (gw_db g')" and "gw_presence g' = gw_presence g"
    and "res = Inr p \<Longrightarrow> \<not> pr_duplicate p \<Longrightarrow> \<forall>e \<in> set (pr_events p). e \<in> set (room_log (gw_db g') (ev_room_id e))"
proof -
  have "gateway_ok g' \<and> later (gw_db g) (gw_db g') \<and> gw_presence g' = gw_presence g \<and>
      (\<forall>p. res = Inr p \<and> \<not> pr_duplicate p \<longrightarrow> (\<forall>e \<in> set (pr_events p). e \<in> set (room_log (gw_db g') (ev_room_id e))))"
  proof (cases "process E (gw_enabled g) (gw_presence g) (tk_fresh t) (tk_now t) actor request (gw_db g)")
    case (Inl e)
    with assms show ?thesis by (auto simp: gateway_process_def later_refl)
  next
    case (Inr x)
    obtain p d where x: "x = (p, d)" by fastforce
    have res: "res = Inr p" "gw_db g' = d" "gw_sent g' = gw_sent g" "gw_presence g' = gw_presence g"
      using assms(2) Inr x by (auto simp: gateway_process_def)
    have lt: "later (gw_db g) d" using process_later Inr x by metis
    have "log_ok d" using lt assms(1) by (simp add: later_def gateway_ok_def)
    moreover have "e \<in> set (room_log d r)" if "(r, Event e) \<in> set (gw_sent g)" for r e
      using later_log [OF lt] assms(1) that by (simp add: gateway_ok_def)
    moreover have "e \<in> set (room_log d (ev_room_id e))" if "\<not> pr_duplicate p" "e \<in> set (pr_events p)" for e
    proof -
      from Inr x have "process E (gw_enabled g) (gw_presence g) (tk_fresh t) (tk_now t) actor request (gw_db g) = Inr (p, d)"
        by simp
      then show ?thesis
      proof (cases rule: process_Inr)
        case (performed r q d1)
        have "room_events d = room_events d1" using record_request_Inr(1) [OF performed(5)] .
        with perform_Inr(1) [OF performed(4,1,2,3)] that(2) show ?thesis by (simp add: appends_def room_log_def)
      qed (use that(1) in simp)
    qed
    ultimately show ?thesis using res lt by (auto simp: gateway_ok_def)
  qed
  then show "gateway_ok g'" "later (gw_db g) (gw_db g')" "gw_presence g' = gw_presence g"
    "res = Inr p \<Longrightarrow> \<not> pr_duplicate p \<Longrightarrow> \<forall>e \<in> set (pr_events p). e \<in> set (room_log (gw_db g') (ev_room_id e))"
    by auto
qed

lemma join_stream:
  assumes "log_ok d" "events = replay r a d" "k = (if events = [] then a else ev_sequence (last events))"
  shows "stream_ok E u r (nat k) (fs @ [Join_frame i a (visible_events E u events) ps]) d"
proof -
  let ?log = "room_log d r"
  have ev: "events = drop (nat a) ?log" using events_after_log [OF assms(1)] assms(2) by (simp add: replay_def)
  have "visible_events E u events = visible_events E u (drop (nat a) (take (nat k) ?log)) \<and> nat a \<le> nat k \<and>
      (nat k \<le> length ?log \<or> nat k = nat a)"
  proof (cases "events = []")
    case True
    with assms(3) show ?thesis by simp
  next
    case False
    then have lt: "nat a < length ?log" using ev by simp
    have "last events = ?log ! (length ?log - 1)"
      using False lt unfolding ev by (simp add: last_drop last_conv_nth)
    then have "k = int (length ?log)"
      using assms(3) False gateway_log.entry_at [OF assms(1), of "length ?log - 1" r] lt by simp
    with lt ev show ?thesis by simp
  qed
  then show ?thesis by (simp add: stream_ok_def Let_def stream_append)
qed

lemma handle_join_ok:
  assumes "gateway_ok g" "session_ok E (act_id actor) s (gw_db g)" "handle_join E actor req s g = (ok, s', g')"
  shows "gateway_ok g' \<and> gw_db g' = gw_db g \<and> (session_ok E (act_id actor) s' (gw_db g) \<or> \<not> ok \<and> ss_out s' = ss_out s)"
proof (cases "case ss_joined_room s of None \<Rightarrow> False | Some joined \<Rightarrow> joined \<noteq> jn_room_id req")
  case True
  then have "\<exists>ok. send_error (JStr (jn_id req)) Forbidden s = (ok, s')" "g' = g"
    using assms(3) by (auto simp: handle_join_def split: prod.splits)
  then show ?thesis using assms(1,2) send_error_emits session_ok_emits by blast
next
  case False
  let ?r = "jn_room_id req"
  define a where "a = (case jn_after_sequence req of None \<Rightarrow> 0 | Some n \<Rightarrow> n)"
  define g1 where "g1 = room_channel ?r g"
  define events where "events = replay ?r a (gw_db g1)"
  define g2 where "g2 = (if ss_joined_room s = None then g1\<lparr>gw_presence := register_participant ?r actor (gw_presence g1)\<rparr> else g1)"
  define k where "k = (if events = [] then a else ev_sequence (last events))"
  define s1 where "s1 = s\<lparr>ss_last_sequence := k, ss_joined_room := Some ?r, ss_receiver := Some ?r\<rparr>"
  define f where "f = Join_frame (jn_id req) a (visible_events E (act_id actor) events) (gateway_snapshot E ?r g2)"
  have db: "gw_db g2 = gw_db g" "gateway_ok g2" "gw_db g1 = gw_db g"
    using assms(1) by (auto simp: g2_def g1_def room_channel_def gateway_ok_def)
  obtain sent s2 where snd: "send_value f s1 = (sent, s2)" by fastforce
  have "handle_join E actor req s g = (let (sent, s') = send_value f s1 in (sent, s', if sent \<and> ss_joined_room s = None
      then publish_participant_snapshot E ?r (Some (act_id actor)) g2 else g2))"
    unfolding handle_join_def if_not_P [OF False] Let_def f_def s1_def k_def g2_def events_def g1_def a_def ..
  then have res: "ok = sent" "s' = s2" "g' = (if sent \<and> ss_joined_room s = None
      then publish_participant_snapshot E ?r (Some (act_id actor)) g2 else g2)"
    using assms(3) snd by simp_all
  have g': "gateway_ok g'" "gw_db g' = gw_db g" using res(3) db publish_snapshot_ok [OF db(2)] by simp_all
  show ?thesis
  proof (cases sent)
    case True
    with snd have s2: "s2 = s1\<lparr>ss_out := ss_out s @ [f], ss_budget := ss_budget s1 - 1\<rparr>"
      by (auto simp: send_value_def s1_def split: if_splits)
    have "log_ok (gw_db g)" using assms(1) by (simp add: gateway_ok_def)
    from join_stream [OF this, of events ?r a k E "act_id actor" "ss_out s" "jn_id req"] have
      "stream_ok E (act_id actor) ?r (nat k) (ss_out s @ [f]) (gw_db g)"
      by (simp add: f_def events_def k_def db(3))
    then have "session_ok E (act_id actor) s2 (gw_db g)" by (simp add: session_ok_def s2 s1_def)
    with g' res show ?thesis by simp
  next
    case False
    with snd have "s2 = s1" by (auto simp: send_value_def split: if_splits)
    with g' res False show ?thesis by (simp add: s1_def)
  qed
qed

lemma handle_request_ok:
  assumes "gateway_ok g" "handle_request E t actor req s g = (ok, s', g')"
  shows "gateway_ok g' \<and> later (gw_db g) (gw_db g') \<and> emits s s' \<and> gw_presence g' = gw_presence g"
proof (cases "request_room_id req = None \<or> ss_joined_room s \<noteq> request_room_id req")
  case True
  then have "\<exists>ok. send_error (JStr (request_rpc_id req)) Forbidden s = (ok, s')" "g' = g"
    using assms(2) by (auto simp: handle_request_def Let_def split: prod.splits)
  then show ?thesis using assms(1) send_error_emits later_refl by blast
next
  case False
  obtain res g1 where p: "gateway_process E t actor req g = (res, g1)" by fastforce
  note gp = gateway_process_ok [OF assms(1) p]
  show ?thesis
  proof (cases res)
    case (Inl e)
    then have "\<exists>ok. send_error (JStr (request_rpc_id req)) e s = (ok, s')" "g' = g1"
      using assms(2) False p by (auto simp: handle_request_def Let_def split: prod.splits)
    then show ?thesis using gp send_error_emits by blast
  next
    case (Inr processed)
    show ?thesis
    proof (cases "pr_duplicate processed")
      case True
      then have "\<exists>ok. send_duplicates (pr_events processed) s = (ok, s')" "g' = g1"
        using assms(2) False p Inr by (auto simp: handle_request_def Let_def split: prod.splits)
      then show ?thesis using gp send_duplicates_emits by blast
    next
      case dup: False
      then have "s' = s" "g' = fold publish (pr_events processed) g1"
        using assms(2) False p Inr by (auto simp: handle_request_def Let_def)
      moreover have "gw_presence (fold publish es g1) = gw_presence g1" for es
        by (induction es arbitrary: g1) (simp_all add: publish_def room_channel_def Let_def)
      ultimately show ?thesis
        using gp(1-3) publish_all_ok [OF gp(1) gp(4) [OF Inr dup]] by (simp add: emits_refl)
    qed
  qed
qed


lemma received_ok:
  assumes "log_ok d" "session_ok E (act_id actor) s d" "ss_joined_room s = Some r"
    "\<And>e. b = Event e \<Longrightarrow> e \<in> set (room_log d r)" "session_received E actor b d s = (out, s')"
  shows "session_ok E (act_id actor) s' d \<and> out \<noteq> Panic \<and> ss_joined_room s' = ss_joined_room s"
proof -
  let ?k = "ss_last_sequence s" and ?u = "act_id actor"
  have ok: "stream_ok E ?u r (nat ?k) (ss_out s) d" "ss_receiver s = Some r"
    using assms(2,3) by (simp_all add: session_ok_def)
  show ?thesis
  proof (cases b)
    case (Event e)
    with assms(4) obtain i where i: "i < length (room_log d r)" "e = room_log d r ! i" by (auto simp: in_set_conv_nth)
    then have seq: "ev_sequence e = int i + 1" using gateway_log.entry_at [OF assms(1)] by simp
    show ?thesis
    proof (cases "ev_sequence e = next_sequence ?k")
      case True
      with seq have k: "?k = int i" by (auto simp: next_sequence_def i64_min_def split: if_splits)
      let ?vis = "event_visible_to E e ?u"
      have "take 1 (drop (nat ?k) (room_log d r)) = [e]" using i k by (simp add: take_Suc_conv_app_nth Cons_nth_drop_Suc [symmetric])
      then have ext: "stream_ok E ?u r (nat (ev_sequence e)) (ss_out s @ (if ?vis then [Event_frame e] else [])) d"
        using stream_ok_extend [OF ok(1), of 1] i k seq by (cases ?vis) (simp_all add: nat_add_distrib)
      show ?thesis
      proof (cases "?vis \<and> ss_budget s = 0")
        case True
        then have "s' = s" "out = Break"
          using assms(5) Event \<open>ev_sequence e = next_sequence ?k\<close> by (simp_all add: session_received_def send_value_def)
        then show ?thesis using assms(2) by simp
      next
        case False
        then have "ss_last_sequence s' = ev_sequence e" "ss_out s' = ss_out s @ (if ?vis then [Event_frame e] else [])"
          "ss_joined_room s' = Some r" "ss_receiver s' = Some r" "out = Continue"
          using assms(3,5) ok(2) Event \<open>ev_sequence e = next_sequence ?k\<close>
          by (auto simp: session_received_def send_value_def split: if_splits)
        then show ?thesis using ext assms(3) by (simp add: session_ok_def)
      qed
    next
      case ne: False
      show ?thesis
      proof (cases "ev_sequence e > next_sequence ?k")
        case True
        obtain fin s1 where rp: "replay_in_order E r ?u d s = (fin, s1)" by fastforce
        with assms(3,5) Event ne True have "s' = s1" "out = go_on fin" by (simp_all add: session_received_def)
        then show ?thesis
          using replay_in_order_ok(1-3) [OF assms(1) ok(1) rp] assms(3) ok(2)
          by (simp add: session_ok_def go_on_def)
      next
        case False
        with assms(2,5) Event ne show ?thesis by (simp add: session_received_def)
      qed
    qed
  next
    case (Participants ps ex)
    show ?thesis
    proof (cases "ex = Some ?u")
      case True
      with assms(2,5) Participants show ?thesis by (simp add: session_received_def)
    next
      case False
      obtain sent s1 where sv: "send_value (Participants_frame r ps) s = (sent, s1)" by fastforce
      with assms(3,5) Participants False have "s' = s1" "out = go_on sent" by (simp_all add: session_received_def)
      moreover have "emits s s1" by (rule send_emits [OF _ sv]) (simp add: other_frame_def)
      ultimately show ?thesis
        using session_ok_emits [OF assms(2)] by (simp add: go_on_def emits_def)
    qed
  qed
qed

lemma broadcast_ok:
  assumes "gateway_ok g" "session_ok E (act_id actor) s (gw_db g)" "ss_receiver s = Some r"
    "session_broadcast E actor r b g s = (out, s')"
  shows "session_ok E (act_id actor) s' (gw_db g) \<and> out \<noteq> Panic \<and> ss_joined_room s' = ss_joined_room s"
proof -
  have log: "log_ok (gw_db g)" using assms(1) by (simp add: gateway_ok_def)
  have j: "ss_joined_room s = Some r" using assms(2,3) by (simp add: session_ok_def)
  show ?thesis
  proof (cases b)
    case (Received k)
    show ?thesis
    proof (cases "k < length (sent_to r g)")
      case True
      then have "sent_to r g ! k \<in> set (sent_to r g)" by simp
      then have "(r, sent_to r g ! k) \<in> set (gw_sent g)" by (auto simp: sent_to_def)
      then have "e \<in> set (room_log (gw_db g) r)" if "sent_to r g ! k = Event e" for e
        using that assms(1) by (simp add: gateway_ok_def)
      moreover have "session_received E actor (sent_to r g ! k) (gw_db g) s = (out, s')"
        using assms(4) Received True by (simp add: session_broadcast_def)
      ultimately show ?thesis by (rule received_ok [OF log assms(2) j])
    next
      case False
      with assms Received show ?thesis by (simp add: session_broadcast_def)
    qed
  next
    case Lagged
    obtain fin s1 where rp: "replay_in_order E r (act_id actor) (gw_db g) s = (fin, s1)" by fastforce
    with j assms(4) Lagged have "s' = s1" "out = go_on fin" by (simp_all add: session_broadcast_def)
    moreover have "stream_ok E (act_id actor) r (nat (ss_last_sequence s)) (ss_out s) (gw_db g)"
      using assms(2) j by (simp add: session_ok_def)
    ultimately show ?thesis
      using replay_in_order_ok(1-3) [OF log _ rp] j assms(3) by (simp add: session_ok_def go_on_def)
  next
    case Closed
    with assms show ?thesis by (simp add: session_broadcast_def)
  qed
qed

lemma handle_message_ok:
  assumes "gateway_ok g" "session_ok E (act_id actor) s (gw_db g)" "handle_message E t actor msg s g = (ok, s', g')"
  shows "gateway_ok g' \<and> later (gw_db g) (gw_db g') \<and>
    (session_ok E (act_id actor) s' (gw_db g') \<or> \<not> ok \<and> ss_out s' = ss_out s)"
proof (cases msg)
  case (Text_in raw)
  have emit: ?thesis if "emits s s'" "g' = g"
    using that assms(1,2) session_ok_emits by (auto simp: later_refl)
  show ?thesis
  proof (cases "act_expires_at actor \<le> tk_utc t")
    case True
    with assms(3) Text_in have "s' = close_with_error (request_id_value E raw) Rpc_unauthenticated ''authentication expired'' s" "g' = g"
      by (simp_all add: handle_message_def)
    then show ?thesis using emit close_emits by simp
  next
    case False
    show ?thesis
    proof (cases "validate_request E raw")
      case (Inl e)
      with assms(3) Text_in False have "\<exists>ok. send_error (request_id_value E raw) e s = (ok, s')" "g' = g"
        by (auto simp: handle_message_def split: prod.splits)
      then show ?thesis using emit send_error_emits by blast
    next
      case (Inr request)
      have other: ?thesis if "handle_request E t actor request s g = (ok, s', g')"
        using handle_request_ok [OF assms(1) that] session_ok_later session_ok_emits assms(2) by blast
      show ?thesis
      proof (cases request)
        case (SessionAuthenticate r)
        with assms(3) Text_in False Inr have "\<exists>ok. send_error (JStr (sa_id r)) Forbidden s = (ok, s')" "g' = g"
          by (auto simp: handle_message_def split: prod.splits)
        then show ?thesis using emit send_error_emits by blast
      next
        case (Join r)
        with assms(3) Text_in False Inr have "handle_join E actor r s g = (ok, s', g')" by (simp add: handle_message_def)
        from handle_join_ok [OF assms(1,2) this] show ?thesis by (auto simp: later_refl)
      qed (use assms(3) Text_in False Inr other in \<open>simp_all add: handle_message_def\<close>)
    qed
  qed
qed (use assms in \<open>simp_all add: handle_message_def later_refl\<close>)

lemma session_step_ok:
  assumes "gateway_ok g" "session_ok E (act_id actor) s (gw_db g)" "session_step E actor t input s g = (out, s', g')"
  shows "gateway_ok g' \<and> later (gw_db g) (gw_db g') \<and> out \<noteq> Panic \<and>
    (session_ok E (act_id actor) s' (gw_db g') \<or> out = Break \<and> ss_out s' = ss_out s)"
proof (cases input)
  case Expired
  then show ?thesis
    using assms session_ok_emits [OF assms(2) close_emits] by (auto simp: session_step_def later_refl)
next
  case (Incoming m)
  show ?thesis
  proof (cases m)
    case None
    then show ?thesis using assms Incoming by (auto simp: session_step_def later_refl)
  next
    case (Some msg)
    obtain ok s1 g1 where h: "handle_message E t actor msg s g = (ok, s1, g1)" by (metis prod_cases3)
    have "out = go_on ok" "s' = s1" "g' = g1" using assms(3) Incoming Some h by (simp_all add: session_step_def)
    then show ?thesis using handle_message_ok [OF assms(1,2) h] by (auto simp: go_on_def)
  qed
next
  case (Broadcast b)
  show ?thesis
  proof (cases "ss_receiver s")
    case None
    then show ?thesis using assms Broadcast by (auto simp: session_step_def later_refl)
  next
    case (Some r)
    obtain o1 s1 where b: "session_broadcast E actor r b g s = (o1, s1)" by fastforce
    have "out = o1" "s' = s1" "g' = g" using assms(3) Broadcast Some b by (simp_all add: session_step_def)
    then show ?thesis using broadcast_ok [OF assms(1,2) Some b] assms(1) by (simp add: later_refl)
  qed
qed


subsection \<open>Runs\<close>

definition others_ok :: "(gateway \<Rightarrow> gateway) \<Rightarrow> bool" where
  \<comment> \<open>what the other tasks of the process do to the shared state\<close>
  "others_ok f \<longleftrightarrow> (\<forall>g. gateway_ok g \<longrightarrow> gateway_ok (f g) \<and> later (gw_db g) (gw_db (f g)))"

lemma session_ok_stream:
  assumes "session_ok E u s d"
  shows "\<exists>r n. stream_ok E u r n (ss_out s) d"
proof (cases "ss_joined_room s")
  case None
  with assms have "stream_ok E u 0 0 (ss_out s) d" by (simp add: session_ok_def stream_ok_def)
  then show ?thesis by blast
qed (use assms in \<open>auto simp: session_ok_def\<close>)

lemma cleanup_ok:
  assumes "gateway_ok g" "cleanup_presence E actor s g = (s', g')"
  shows "gateway_ok g' \<and> gw_db g' = gw_db g \<and> ss_out s' = ss_out s"
proof (cases "ss_joined_room s")
  case (Some r)
  have "gateway_ok (g\<lparr>gw_presence := p\<rparr>)" for p using assms(1) by (simp add: gateway_ok_def)
  from publish_snapshot_ok [OF this] assms(2) Some show ?thesis by (auto simp: cleanup_presence_def)
qed (use assms in \<open>simp add: cleanup_presence_def\<close>)

lemma websocket_session_ok:
  assumes "gateway_ok g" "session_ok E (act_id actor) s (gw_db g)" "list_all (others_ok \<circ> fst) inputs"
    "websocket_session E actor inputs s g = (out, s', g')"
  shows "gateway_ok g' \<and> later (gw_db g) (gw_db g') \<and> out \<noteq> Panic \<and>
    (out = Continue \<longrightarrow> session_ok E (act_id actor) s' (gw_db g')) \<and>
    (\<exists>r n. stream_ok E (act_id actor) r n (ss_out s') (gw_db g'))"
  using assms
proof (induction inputs arbitrary: s g)
  case Nil
  then show ?case using session_ok_stream later_refl by auto
next
  case (Cons i inputs)
  obtain others t input where i: "i = (others, t, input)" by (metis prod_cases3)
  let ?g = "others g"
  have g: "gateway_ok ?g" "later (gw_db g) (gw_db ?g)" using Cons.prems(1,3) i by (simp_all add: others_ok_def)
  have s: "session_ok E (act_id actor) s (gw_db ?g)" using session_ok_later [OF Cons.prems(2) g(2)] .
  obtain o1 s1 g1 where st: "session_step E actor t input s ?g = (o1, s1, g1)" by (metis prod_cases3)
  note step = session_step_ok [OF g(1) s st]
  have lt: "later (gw_db g) (gw_db g1)" using g(2) step later_trans by blast
  have str: "\<exists>r n. stream_ok E (act_id actor) r n (ss_out s1) (gw_db g1)"
    using step session_ok_stream session_ok_later [OF s] by metis
  show ?case
  proof (cases o1)
    case Continue
    with step have "session_ok E (act_id actor) s1 (gw_db g1)" by simp
    moreover have "websocket_session E actor inputs s1 g1 = (out, s', g')" using Cons.prems(4) i st Continue by simp
    ultimately show ?thesis using Cons.IH [of g1 s1] step Cons.prems(3) later_trans [OF lt] by simp
  next
    case Break
    obtain s2 g2 where c: "cleanup_presence E actor s1 g1 = (s2, g2)" by fastforce
    have "out = outcome.Break" "s' = s2" "g' = g2" using Cons.prems(4) i st Break c by simp_all
    then show ?thesis using cleanup_ok [OF _ c] step lt str by simp
  next
    case Panic
    with step show ?thesis by simp
  qed
qed

lemma new_session_ok: "session_ok E u (new_session n) d"
  by (simp add: session_ok_def new_session_def stream_def)

subsection \<open>Properties\<close>


definition sample_gateway :: gateway where
  "sample_gateway = \<lparr>gw_db = empty_db, gw_presence = (\<lambda>_. []), gw_rooms = [], gw_sent = [], gw_offered = [],
     gw_memory_engine = False, gw_enabled = False\<rparr>"

lemma sample_gateway_ok: "gateway_ok sample_gateway"
  by (simp add: gateway_ok_def sample_gateway_def log_ok_def room_log_def empty_db_def)

definition sample_tick :: tick where
  "sample_tick = \<lparr>tk_utc = 0, tk_now = 0, tk_fresh = word_of_nat\<rparr>"





subsection \<open>Presence\<close>

definition connections :: "presence \<Rightarrow> uuid \<Rightarrow> uuid \<Rightarrow> nat" where
  "connections P r u = (case map_of (P r) u of None \<Rightarrow> 0 | Some p \<Rightarrow> pp_connections p)"

definition holds :: "actor \<Rightarrow> session \<Rightarrow> uuid \<Rightarrow> uuid \<Rightarrow> nat" where
  \<comment> \<open>1 if the session is one of the connections of \<open>u\<close> to the room\<close>
  "holds actor s r u = (if ss_joined_room s = Some r \<and> u = act_id actor then 1 else 0)"

lemma connections_register:
  "connections (register_participant r actor P) q u =
     connections P q u + (if q = r \<and> u = act_id actor then 1 else 0)"
  by (auto simp: connections_def register_participant_def Let_def update_conv' split: option.splits)

lemma connections_unregister:
  "connections (unregister_participant r a P) q u =
     connections P q u - (if q = r \<and> u = a then 1 else 0)"
  by (auto simp: connections_def unregister_participant_def update_conv' split: option.splits)

lemma snapshot_presence: "gw_presence (publish_participant_snapshot E r x g) = gw_presence g"
  by (simp add: publish_participant_snapshot_def)

lemma send_joined: "send_value f s = (ok, s') \<Longrightarrow> ss_joined_room s' = ss_joined_room s"
  by (auto simp: send_value_def split: if_splits)

lemma join_presence:
  assumes "handle_join E actor req s g = (ok, s', g')"
  shows "connections (gw_presence g') q u + holds actor s q u = connections (gw_presence g) q u + holds actor s' q u"
proof (cases "ss_joined_room s")
  case None
  obtain f s1 sent s2 where sv: "send_value f s1 = (sent, s2)" "s' = s2" "ss_joined_room s1 = Some (jn_room_id req)"
    and g': "gw_presence g' = register_participant (jn_room_id req) actor (gw_presence g)"
    using assms None
    by (auto simp: handle_join_def Let_def snapshot_presence room_channel_def split: prod.splits if_splits)
  have "ss_joined_room s' = Some (jn_room_id req)" using send_joined [OF sv(1)] sv by simp
  then show ?thesis using None by (auto simp: g' connections_register holds_def)
next
  case (Some r)
  have "gw_presence g' = gw_presence g \<and> ss_joined_room s' = Some r"
  proof (cases "r = jn_room_id req")
    case True
    with assms Some show ?thesis
      by (auto simp: handle_join_def Let_def room_channel_def split: prod.splits dest: send_joined)
  next
    case False
    with assms Some show ?thesis
      by (auto simp: handle_join_def Let_def send_error_def split: prod.splits dest: send_joined)
  qed
  then show ?thesis using Some by (simp add: holds_def)
qed

lemma message_presence:
  assumes "gateway_ok g" "handle_message E t actor msg s g = (ok, s', g')"
  shows "connections (gw_presence g') q u + holds actor s q u = connections (gw_presence g) q u + holds actor s' q u"
proof -
  have same: ?thesis if "emits s s'" "gw_presence g' = gw_presence g" using that by (simp add: emits_def holds_def)
  show ?thesis
  proof (cases msg)
    case (Text_in raw)
    show ?thesis
    proof (cases "act_expires_at actor \<le> tk_utc t")
      case True
      with assms(2) Text_in close_emits show ?thesis by (intro same) (auto simp: handle_message_def)
    next
      case False
      show ?thesis
      proof (cases "validate_request E raw")
        case (Inl e)
        with assms(2) Text_in False show ?thesis
          by (intro same) (auto simp: handle_message_def split: prod.splits dest: send_error_emits)
      next
        case (Inr request)
        have other: ?thesis if "handle_request E t actor request s g = (ok, s', g')"
          using handle_request_ok [OF assms(1) that] same by blast
        show ?thesis
        proof (cases request)
          case (SessionAuthenticate r)
          with assms(2) Text_in False Inr show ?thesis
            by (intro same) (auto simp: handle_message_def split: prod.splits dest: send_error_emits)
        next
          case (Join r)
          with assms(2) Text_in False Inr show ?thesis by (intro join_presence) (simp add: handle_message_def)
        qed (use assms(2) Text_in False Inr other in \<open>simp_all add: handle_message_def\<close>)
      qed
    qed
  qed (use assms in \<open>simp_all add: handle_message_def\<close>)
qed

lemma step_presence:
  assumes "gateway_ok g" "session_ok E (act_id actor) s (gw_db g)" "session_step E actor t input s g = (out, s', g')"
  shows "connections (gw_presence g') q u + holds actor s q u = connections (gw_presence g) q u + holds actor s' q u"
proof (cases input)
  case Expired
  with assms(3) close_emits [of s JNull Rpc_unauthenticated "''authentication expired''"] show ?thesis
    by (auto simp: session_step_def emits_def holds_def)
next
  case (Incoming m)
  then show ?thesis
    using assms(1,3) message_presence [OF assms(1), of E t actor _ s _ s' g' q u]
    by (cases m) (auto simp: session_step_def split: prod.splits)
next
  case (Broadcast b)
  show ?thesis
  proof (cases "ss_receiver s")
    case None
    with assms(3) Broadcast show ?thesis by (simp add: session_step_def)
  next
    case (Some r)
    obtain o1 s1 where b: "session_broadcast E actor r b g s = (o1, s1)" by fastforce
    have "s' = s1" "g' = g" using assms(3) Broadcast Some b by (simp_all add: session_step_def)
    then show ?thesis using broadcast_ok [OF assms(1,2) Some b] by (simp add: holds_def)
  qed
qed

lemma cleanup_connections:
  "cleanup_presence E actor s g = (s', g') \<Longrightarrow>
     connections (gw_presence g') q u = connections (gw_presence g) q u - holds actor s q u"
  by (auto simp: cleanup_presence_def snapshot_presence connections_unregister holds_def split: option.splits)

lemma run_presence:
  assumes "gateway_ok g" "session_ok E (act_id actor) s (gw_db g)" "list_all (others_ok \<circ> fst) inputs"
    "list_all (\<lambda>i. \<forall>g. gw_presence (fst i g) = gw_presence g) inputs" "holds actor s q u \<le> connections (gw_presence g) q u"
    "websocket_session E actor inputs s g = (out, s', g')"
  shows "connections (gw_presence g') q u + holds actor s q u = connections (gw_presence g) q u +
    (if out = Break then 0 else holds actor s' q u)"
  using assms
proof (induction inputs arbitrary: s g)
  case (Cons i inputs)
  obtain others t input where i: "i = (others, t, input)" by (metis prod_cases3)
  let ?g = "others g"
  have g: "gateway_ok ?g" "later (gw_db g) (gw_db ?g)" "gw_presence ?g = gw_presence g"
    using Cons.prems(1,3,4) i by (simp_all add: others_ok_def)
  have s: "session_ok E (act_id actor) s (gw_db ?g)" using session_ok_later [OF Cons.prems(2) g(2)] .
  obtain o1 s1 g1 where st: "session_step E actor t input s ?g = (o1, s1, g1)" by (metis prod_cases3)
  note step = session_step_ok [OF g(1) s st] and pres = step_presence [OF g(1) s st, of q u]
  show ?case
  proof (cases o1)
    case Continue
    then have "session_ok E (act_id actor) s1 (gw_db g1)" "websocket_session E actor inputs s1 g1 = (out, s', g')"
      using step Cons.prems(6) i st by simp_all
    moreover have "holds actor s1 q u \<le> connections (gw_presence g1) q u" using pres g(3) Cons.prems(5) by simp
    ultimately show ?thesis using Cons.IH [of g1 s1] step Cons.prems(3,4) pres g(3) by simp
  next
    case Break
    obtain s2 g2 where c: "cleanup_presence E actor s1 g1 = (s2, g2)" by fastforce
    have "out = outcome.Break" "g' = g2" using Cons.prems(6) i st Break c by simp_all
    then show ?thesis using cleanup_connections [OF c, of q u] pres g(3) Cons.prems(5) by simp
  next
    case Panic
    with step show ?thesis by simp
  qed
qed simp

text \<open>
  No connection is leaked or counted twice.  However a session ends, each count of open connections
  is what it was before the session; while it runs, the count of its actor in the joined room is one
  more, and every other count is unchanged.
\<close>

theorem session_presence:
  assumes "gateway_ok g" "list_all (others_ok \<circ> fst) inputs"
    "list_all (\<lambda>i. \<forall>g. gw_presence (fst i g) = gw_presence g) inputs"
    "websocket_session E actor inputs (new_session n) g = (out, s', g')"
  shows "connections (gw_presence g') r u = connections (gw_presence g) r u +
    (if out \<noteq> Break \<and> ss_joined_room s' = Some r \<and> u = act_id actor then 1 else 0)"
  using run_presence [OF assms(1) new_session_ok assms(2,3) _ assms(4), of r u]
  by (auto simp: holds_def new_session_def split: if_splits)

theorem session_presence_witness:
  "\<exists>out s' g'. websocket_session sample_ext sample_actor [(id, sample_tick, Incoming None)] (new_session 2) sample_gateway
     = (out, s', g') \<and> connections (gw_presence g') 8 1 = 0"
proof -
  obtain out s' g' where w: "websocket_session sample_ext sample_actor [(id, sample_tick, Incoming None)]
      (new_session 2) sample_gateway = (out, s', g')" by (metis prod_cases3)
  have o: "list_all (others_ok \<circ> fst) [(id, sample_tick, Incoming None)]"
    "list_all (\<lambda>i. \<forall>g. gw_presence (fst i g) = gw_presence g) [(id, sample_tick, Incoming None)]"
    by (simp_all add: others_ok_def later_refl)
  have "out = Break" using w by (auto simp: session_step_def cleanup_presence_def new_session_def)
  with session_presence [OF sample_gateway_ok o w, of 8 1] w show ?thesis
    by (auto simp: connections_def sample_gateway_def)
qed


subsection \<open>Authentication and duplicates\<close>



lemma send_duplicates_all:
  "length es \<le> ss_budget s \<Longrightarrow>
   send_duplicates es s = (True, s\<lparr>ss_out := ss_out s @ map Duplicate_frame es, ss_budget := ss_budget s - length es\<rparr>)"
  by (induction es arbitrary: s) (simp_all add: send_value_def)

text \<open>
  C40: the reply to a repeated request is not filtered by visibility.  A participant who joined the room
  and repeats a recorded request of somebody else (the fingerprint does not include the author) is sent
  every event of that request, also one addressed to others.
\<close>

theorem duplicate_reply_unfiltered:
  assumes "ss_joined_room s = Some r" "request_room_id request = Some r" "request_request_id request = Some q"
    "prior_request r q (gw_db g) = Some (fingerprint E request, es)" "\<not> not_processed request" "\<not> humans_only request"
    "length es \<le> ss_budget s" "e \<in> set es" "\<not> event_visible_to E e (act_id actor)"
  shows "Duplicate_frame e \<in> set (ss_out (fst (snd (handle_request E t actor request s g)))) \<and>
    \<not> event_visible_to E e (act_id actor)"
proof -
  have "process E (gw_enabled g) (gw_presence g) (tk_fresh t) (tk_now t) actor request (gw_db g) =
      Inr (\<lparr>pr_events = es, pr_duplicate = True\<rparr>, gw_db g)"
    using process_prior [OF assms(2-5)] assms(6) by simp
  then have "gateway_process E t actor request g = (Inr \<lparr>pr_events = es, pr_duplicate = True\<rparr>, g)"
    by (simp add: gateway_process_def)
  then show ?thesis
    using assms(1,2,8,9) send_duplicates_all [OF assms(7)] by (simp add: handle_request_def Let_def)
qed

theorem duplicate_reply_unfiltered_witness:
  "\<exists>e g. Duplicate_frame e \<in> set (ss_out (fst (snd (handle_request sample_ext sample_tick (sample_actor\<lparr>act_id := 2\<rparr>)
     (ChatSend sample_message) ((new_session 9)\<lparr>ss_joined_room := Some 8\<rparr>) g)))) \<and>
     \<not> event_visible_to sample_ext e 2"
proof -
  define e where "e = \<lparr>ev_event_id = 3, ev_room_id = 8, ev_sequence = 1, ev_request_id = 7,
      ev_event_type = ''message.created'', ev_actor_id = 1, ev_actor_role = ''human'', ev_actor_display_name = None,
      ev_payload = jobj [(''delivery'', JStr ''mentioned''), (''audienceIds'', JArr [])], ev_occurred_at = 0\<rparr>"
  define g where "g = sample_gateway\<lparr>gw_db := empty_db\<lparr>room_events := [e], room_requests :=
      [\<lparr>rq_room_id = 8, rq_request_id = 7, rq_fingerprint = fingerprint sample_ext (ChatSend sample_message),
        rq_event_ids = [3]\<rparr>]\<rparr>\<rparr>"
  have "prior_request 8 7 (gw_db g) = Some (fingerprint sample_ext (ChatSend sample_message), [e])"
    by (simp add: prior_request_def g_def events_by_id_def by_sequence_def e_def)
  moreover have "\<not> event_visible_to sample_ext e 2" by (simp add: event_visible_to_def e_def wire_simps)
  ultimately show ?thesis
    using duplicate_reply_unfiltered [of "(new_session 9)\<lparr>ss_joined_room := Some 8\<rparr>" 8 "ChatSend sample_message" 7 g
        sample_ext "[e]" e "sample_actor\<lparr>act_id := 2\<rparr>" sample_tick]
    by (auto simp: sample_message_def new_session_def)
qed

text \<open>
  The expiry timer is set without overflow.  The delay is between zero and the largest \<open>i64\<close>, and is
  the time left until the token expires whenever that time is in range.
\<close>

theorem expiry_timer_bounds:
  assumes "i64_min \<le> expires_at * 1000" "expires_at * 1000 \<le> i64_max"
    "i64_min \<le> expires_at * 1000 - now_millis" "expires_at * 1000 - now_millis \<le> i64_max"
  shows "expires_in_millis expires_at now_millis = max 0 (expires_at * 1000 - now_millis) \<and>
    0 \<le> expires_in_millis a b \<and> expires_in_millis a b \<le> i64_max"
  using assms by (simp add: expires_in_millis_def Let_def) (simp add: i64_max_def)

theorem expiry_timer_bounds_witness:
  "expires_in_millis 1700000000 1699999999000 = 1000 \<and> expires_in_millis i64_max 0 \<le> i64_max"
  using expiry_timer_bounds [of 1700000000 1699999999000 i64_max 0] by (simp add: i64_min_def i64_max_def)

end
