(* ===== verification/Facilitator.thy ===== *)
theory Facilitator
  imports Event_Store
begin

text \<open>
  The facilitator, \<open>src/facilitator.rs\<close>: the validation of a draft decision proposed by the memory
  engine against the events it cites.  The lemmas give the accepted drafts and the error of every
  rejected one.
\<close>

definition FACILITATOR_ACTOR_ID :: uuid where
  "FACILITATOR_ACTOR_ID = 0x6e326e00000000000000000000000001"

definition FACILITATOR_DISPLAY_NAME :: string where
  "FACILITATOR_DISPLAY_NAME = ''ThoughtKhoral Facilitator''"

record new_decision_proposal =
  np_title :: string
  np_summary :: string
  np_source_event_ids :: "uuid list"
  np_actor_id :: uuid
  np_actor_role :: string
  np_actor_display_name :: string

record memory_engine_draft_proposal =
  mp_room_id :: uuid
  mp_title :: string
  mp_summary :: string
  mp_source_event_ids :: "uuid list"

datatype memory_proposal_validation_error =
    EmptyRoom
  | EmptyTitle
  | EmptySummary
  | MissingSourceEvent uuid
  | SourceEventFromAnotherRoom
  | DuplicateSourceEvent uuid

fun check_sources ::
  "uuid \<Rightarrow> (uuid \<rightharpoonup> room_event) \<Rightarrow> uuid list \<Rightarrow> uuid list \<Rightarrow> memory_proposal_validation_error + unit" where
  \<comment> \<open>the loop over the cited events; \<open>seen\<close> is the \<open>HashSet\<close>\<close>
  "check_sources room_id events seen [] = Inr ()"
| "check_sources room_id events seen (event_id # rest) =
     (if event_id \<in> set seen then Inl (DuplicateSourceEvent event_id)
      else case events event_id of
        None \<Rightarrow> Inl (MissingSourceEvent event_id)
      | Some event \<Rightarrow>
          if ev_room_id event \<noteq> room_id then Inl SourceEventFromAnotherRoom
          else check_sources room_id events (event_id # seen) rest)"

definition event_index :: "room_event list \<Rightarrow> uuid \<rightharpoonup> room_event" where
  "event_index source_events = map_of (rev (map (\<lambda>e. (ev_event_id e, e)) source_events))"

definition validate_memory_engine_proposal ::
  "memory_engine_draft_proposal \<Rightarrow> room_event list \<Rightarrow> memory_proposal_validation_error + new_decision_proposal" where
  "validate_memory_engine_proposal candidate source_events =
     (if mp_room_id candidate = 0 then Inl EmptyRoom
      else if trim (mp_title candidate) = [] then Inl EmptyTitle
      else if trim (mp_summary candidate) = [] then Inl EmptySummary
      else if mp_source_event_ids candidate = [] then Inl (MissingSourceEvent 0)
      else
        rbind (check_sources (mp_room_id candidate) (event_index source_events) [] (mp_source_event_ids candidate)) (\<lambda>_.
          Inr \<lparr>np_title = mp_title candidate, np_summary = mp_summary candidate,
               np_source_event_ids = mp_source_event_ids candidate, np_actor_id = FACILITATOR_ACTOR_ID,
               np_actor_role = ''agent'', np_actor_display_name = FACILITATOR_DISPLAY_NAME\<rparr>))"

lemma check_sources_iff:
  "check_sources r ix seen ids = Inr u \<longleftrightarrow>
     distinct ids \<and> set ids \<inter> set seen = {} \<and> (\<forall>i \<in> set ids. \<exists>e. ix i = Some e \<and> ev_room_id e = r)"
proof (induction ids arbitrary: seen)
  case (Cons i ids)
  show ?case
  proof (cases "ix i")
    case (Some e)
    then show ?thesis using Cons.IH [of "i # seen"] by auto
  qed auto
qed simp

lemma event_index_Some:
  assumes "distinct (map ev_event_id es)"
  shows "event_index es i = Some e \<longleftrightarrow> e \<in> set es \<and> ev_event_id e = i"
proof -
  have "distinct (map fst (rev (map (\<lambda>e. (ev_event_id e, e)) es)))"
    using assms by (simp add: comp_def flip: rev_map)
  then show ?thesis unfolding event_index_def by (auto simp: map_of_eq_Some_iff)
qed

text \<open>
  A draft of the memory engine becomes a proposal exactly when it names a room, has a title and a
  summary that are not blank, and cites at least one event, none of them twice and each an event of the
  named room; the proposal then has the draft's content under the facilitator's identity.
\<close>

theorem memory_proposal_accepted_iff:
  assumes "distinct (map ev_event_id es)"
  shows "validate_memory_engine_proposal c es = Inr p \<longleftrightarrow>
    mp_room_id c \<noteq> 0 \<and> trim (mp_title c) \<noteq> [] \<and> trim (mp_summary c) \<noteq> [] \<and> mp_source_event_ids c \<noteq> [] \<and>
    distinct (mp_source_event_ids c) \<and>
    list_all (\<lambda>i. list_ex (\<lambda>e. ev_event_id e = i \<and> ev_room_id e = mp_room_id c) es) (mp_source_event_ids c) \<and>
    p = \<lparr>np_title = mp_title c, np_summary = mp_summary c, np_source_event_ids = mp_source_event_ids c,
         np_actor_id = FACILITATOR_ACTOR_ID, np_actor_role = ''agent'', np_actor_display_name = FACILITATOR_DISPLAY_NAME\<rparr>"
  by (auto simp: validate_memory_engine_proposal_def result_simps check_sources_iff event_index_Some [OF assms]
      list_all_iff list_ex_iff split: if_splits)

theorem memory_proposal_accepted_iff_witness:
  "(let e = \<lparr>ev_event_id = 3, ev_room_id = 2, ev_sequence = 1, ev_request_id = 4, ev_event_type = ''message.created'',
        ev_actor_id = 5, ev_actor_role = ''human'', ev_actor_display_name = None, ev_payload = JNull, ev_occurred_at = 0\<rparr>
    in is_ok (validate_memory_engine_proposal
        \<lparr>mp_room_id = 2, mp_title = ''T'', mp_summary = ''S'', mp_source_event_ids = [3]\<rparr> [e]))"
proof -
  let ?e = "\<lparr>ev_event_id = 3, ev_room_id = 2, ev_sequence = 1, ev_request_id = 4, ev_event_type = ''message.created'',
        ev_actor_id = 5, ev_actor_role = ''human'', ev_actor_display_name = None, ev_payload = JNull, ev_occurred_at = 0\<rparr>"
  have d: "distinct (map ev_event_id [?e])" by simp
  have t: "trim ''T'' \<noteq> []" "trim ''S'' \<noteq> []" by code_simp+
  have "\<exists>p. validate_memory_engine_proposal
        \<lparr>mp_room_id = 2, mp_title = ''T'', mp_summary = ''S'', mp_source_event_ids = [3]\<rparr> [?e] = Inr p"
    using memory_proposal_accepted_iff [OF d, of "\<lparr>mp_room_id = 2, mp_title = ''T'', mp_summary = ''S'', mp_source_event_ids = [3]\<rparr>"] t
    by simp
  then show ?thesis by auto
qed

end
