(* ===== verification/Gateway_Run.thy ===== *)
theory Gateway_Run
  imports Gateway_Frames Ws_Session Facilitator
begin

text \<open>
  The database of a running gateway: the transactions of the components in any order.  The step relation
  \<open>reachable\<close> closes the empty database under them; the invariants of the components hold in every
  reachable database, by rule induction, and the refinement of the event log by the decisions table is
  the interpretation of \<open>projection\<close> on these transactions.
\<close>

datatype transaction =
    Request bool presence "nat \<Rightarrow> uuid" timestamp actor validated_request
  | Task task_op timestamp
  | Converse conversation_policy turn_op

fun run_transaction :: "ext \<Rightarrow> transaction \<Rightarrow> db \<Rightarrow> db" where
  "run_transaction E (Request enabled presence fresh now actor request) d =
     commit d (process E enabled presence fresh now actor request d)"
| "run_transaction E (Task op now) d = snd (run_task_op E op now d)"
| "run_transaction E (Converse policy op) d = run_turn_op E policy op d"

inductive reachable :: "ext \<Rightarrow> db \<Rightarrow> bool" for E where
  start: "reachable E empty_db"
| step: "reachable E d \<Longrightarrow> reachable E (run_transaction E x d)"

inductive_cases reachable_cases: "reachable E d"

subsection \<open>What a transaction leaves\<close>

definition decision_type :: "string \<Rightarrow> bool" where
  "decision_type t \<longleftrightarrow> t \<in> {''decision.confirmed'', ''decision.dismissed'', ''decision.deleted'', ''decision.edited''}"

definition open_decisions :: "db \<Rightarrow> bool" where
  \<comment> \<open>no decision event is addressed to some participants only\<close>
  "open_decisions d \<longleftrightarrow> (\<forall>e \<in> set (room_events d). decision_type (ev_event_type e) \<longrightarrow> jget (ev_payload e) ''delivery'' = None)"

definition db_ok :: "db \<Rightarrow> bool" where
  "db_ok d \<longleftrightarrow> log_ok d \<and> tasks_ok d \<and> tasks_distinct d \<and> decisions_ok d \<and> open_decisions d \<and> turns_ok d"

lemma empty_turns: "turns_ok empty_db" "reports_ok E empty_db"
  by (simp_all add: turns_ok_def live_keys_def active_keys_def seats_def reports_ok_def empty_db_def)

lemma empty_db_ok: "db_ok empty_db"
  using empty_turns by (simp add: db_ok_def log_ok_def room_log_def tasks_ok_def tasks_distinct_def decisions_ok_def open_decisions_def empty_db_def)

definition quiet :: "db \<Rightarrow> db \<Rightarrow> bool" where
  \<comment> \<open>a transaction that has nothing to do with decisions\<close>
  "quiet d d' \<longleftrightarrow> decisions d' = decisions d \<and>
     (\<exists>es. room_events d' = room_events d @ es \<and> (\<forall>e \<in> set es. \<not> decision_type (ev_event_type e))) \<and>
     (\<exists>rs. room_requests d' = room_requests d @ rs)"

lemma quiet_refl: "quiet d d"
  by (simp add: quiet_def)

lemma quiet_rows: "d' = d\<lparr>agent_tasks := ts\<rparr> \<Longrightarrow> quiet d d'"
  by (simp add: quiet_def)

lemma quiet_view:
  assumes "quiet d d'"
  shows "\<exists>es. room_log d' r = room_log d r @ es \<and> active_view d' r = fold (apply_decision E) es (active_view d r)"
proof -
  from assms obtain es where es: "decisions d' = decisions d" "room_events d' = room_events d @ es"
    "\<forall>e \<in> set es. \<not> decision_type (ev_event_type e)" by (auto simp: quiet_def)
  have "fold (apply_decision E) xs m = m" if "\<forall>e \<in> set xs. \<not> decision_type (ev_event_type e)" for xs m
    using that by (induction xs) (simp_all add: apply_other decision_type_def)
  then have "fold (apply_decision E) (filter (\<lambda>e. ev_room_id e = r) es) (active_view d r) = active_view d r"
    using es(3) by simp
  then show ?thesis using es(1,2)
    by (intro exI [of _ "filter (\<lambda>e. ev_room_id e = r) es"]) (simp add: room_log_def active_view_def)
qed

lemma start_quiet:
  assumes "start_agent_task_in_transaction E task event now requester name start idem d = Inr (res, d')"
  shows "quiet d d'"
proof (cases rule: start_Inr [OF assms])
  case 1
  then show ?thesis by (simp add: quiet_refl)
next
  case (2 requested d1 t)
  have "\<exists>rs. room_requests d' = room_requests d @ rs"
  proof -
    have "d1 = d\<lparr>room_events := room_events d @ [requested]\<rparr>" using 2(2) by (auto simp: append_Inr)
    then show ?thesis
      using assms 2(1) by (auto simp: start_agent_task_in_transaction_def insert_agent_task_def record_request_def
          append_frame Let_def result_simps split: if_splits)
  qed
  moreover have "\<not> decision_type (ev_event_type requested)" using 2(2) by (auto simp: append_Inr decision_type_def)
  ultimately show ?thesis using 2(6-8) by (auto simp: quiet_def)
qed

lemma update_quiet:
  assumes "record_agent_task_update_with_outcome E req event now utc_now lease change d = Inr (res, d')"
  shows "quiet d d'"
proof (cases rule: update_Inr [OF assms])
  case 1
  then show ?thesis by (simp add: quiet_refl)
next
  case (2 task payload state e d1)
  have "ev_event_type e = up_event_type change" using 2(7) by (auto simp: append_Inr)
  then have "\<not> decision_type (ev_event_type e)"
    using 2(6) by (auto simp: state_for_update_def decision_type_def split: if_splits)
  then show ?thesis using 2(8-10) by (auto simp: quiet_def)
qed

lemma task_op_quiet:
  assumes "tasks_distinct d" "run_task_op E op now d = (r, d')"
  shows "quiet d d'"
proof (cases op)
  case (Claim_by_id task owner)
  then have "claim_agent_task E task owner now d = (r, d')" using assms(2) by simp
  then show ?thesis
  proof (cases rule: claim_agent_task_cases [OF assms(1), consumes 1])
    case 1
    then show ?thesis by (simp add: quiet_refl)
  next
    case (2 t)
    show ?thesis by (rule quiet_rows [OF 2(5)])
  qed
next
  case (Claim_oldest agent owner)
  then have "claim_oldest_queued_agent_task E agent owner now d = (r, d')" using assms(2) by simp
  then show ?thesis
  proof (cases rule: claim_oldest_cases)
    case 1
    then show ?thesis by (simp add: quiet_refl)
  next
    case (2 t)
    show ?thesis by (rule quiet_rows [OF 2(6)])
  qed
next
  case (Start task event requester name start idem)
  then show ?thesis using assms(2) quiet_refl start_quiet
    by (cases "start_agent_task_in_transaction E task event now requester name start idem d") (auto simp: commit_def)
next
  case (Update req event utc_now lease change)
  then show ?thesis using assms(2) quiet_refl update_quiet
    by (cases "record_agent_task_update_with_outcome E req event now utc_now lease change d") (auto simp: commit_def)
qed

lemma task_op_ok:
  assumes "log_ok d" "tasks_ok d" "tasks_distinct d" "run_task_op E op now d = (r, d')"
  shows "log_ok d' \<and> tasks_ok d' \<and> tasks_distinct d'"
proof (cases op)
  case (Claim_by_id task owner)
  then show ?thesis using claims_ok(1) [OF assms(1-3)] assms(4) by simp
next
  case (Claim_oldest agent owner)
  then show ?thesis using claims_ok(2) [OF assms(1-3)] assms(4) by simp
next
  case (Start task event requester name start idem)
  then show ?thesis using assms start_ok [OF assms(1-3), of E task event now requester name start idem]
    by (cases "start_agent_task_in_transaction E task event now requester name start idem d") (auto simp: commit_def)
next
  case (Update req event utc_now lease change)
  then show ?thesis using assms update_ok [OF assms(1-3), of E req event now utc_now lease change]
    by (cases "record_agent_task_update_with_outcome E req event now utc_now lease change d") (auto simp: commit_def)
qed

subsection \<open>Decision events are addressed to the whole room\<close>

definition no_delivery :: "room_event \<Rightarrow> bool" where
  "no_delivery e \<longleftrightarrow> jget (ev_payload e) ''delivery'' = None"

lemma open_decisions_append:
  assumes "open_decisions d" "room_events d' = room_events d @ es"
    "\<And>e. e \<in> set es \<Longrightarrow> decision_type (ev_event_type e) \<Longrightarrow> no_delivery e"
  shows "open_decisions d'"
  using assms by (auto simp: open_decisions_def no_delivery_def)

lemma append_no_delivery:
  assumes "jsonb_ok E" "append_event_in_transaction E i (actor_event a r q t ty v) d = Inr (e, d')"
    "exact v" "jget v ''delivery'' = None"
  shows "no_delivery e"
  using append_exact [OF assms(1,2)] assms(3,4) by (simp add: actor_event_def no_delivery_def)

lemma payloads_open:
  "jget (decision_payload E i st t s src) ''delivery'' = None"
  "jget (jset (decision_payload E i st t s src) ''derivedFromDecisionId'' v) ''delivery'' = None"
  by (simp_all add: decision_payload_def wire_simps)

lemma settle_open:
  assumes "jsonb_ok E" "settle_decision E i1 actor req st ty row d = Inr (es, d')"
  shows "\<forall>e \<in> set es. no_delivery e"
  using assms(2) append_no_delivery [OF assms(1) _ exact_payloads(1) payloads_open(1)]
  by (auto simp: settle_decision_def result_simps)

lemma edit_open:
  assumes "jsonb_ok E" "edit_decision E rid i1 i2 actor req row d = Inr (es, d')"
  shows "\<forall>e \<in> set es. no_delivery e"
proof -
  let ?p1 = "jobj [(''decisionId'', juuid E (dt_decision_id req)), (''status'', JStr ''superseded''),
     (''replacementDecisionId'', juuid E rid)]"
  have "exact ?p1" "jget ?p1 ''delivery'' = None" by (simp_all add: exact_jobj wire_simps)
  note first = append_no_delivery [OF assms(1) _ this]
    and second = append_no_delivery [OF assms(1) _ exact_payloads(2) payloads_open(2)]
  show ?thesis using assms(2) by (auto simp: edit_decision_def result_simps dest: first second)
qed

lemma transition_open:
  assumes "jsonb_ok E" "transition_decision_in_transaction E rid i1 i2 actor req d = Inr (es, d')"
  shows "\<forall>e \<in> set es. no_delivery e"
  using assms(2)
proof (cases rule: transition_Inr)
  case (1 row)
  then show ?thesis
    by (cases "dt_action req") (auto dest: settle_open [OF assms(1)] edit_open [OF assms(1)])
qed

lemma delete_open:
  assumes "jsonb_ok E" "delete_decision_in_transaction E i actor req d = Inr (es, d')"
  shows "\<forall>e \<in> set es. no_delivery e"
proof -
  have "exact (jobj [(''decisionId'', juuid E x), (''priorStatus'', JStr a), (''title'', JStr b), (''summary'', JStr c),
      (''sourceEventIds'', juuids E src)])" for x a b c src
    using exact_payloads(1) by (simp add: decision_payload_def exact_jobj)
  note deleted = append_no_delivery [OF assms(1) _ this]
  show ?thesis
    using assms(2) by (auto simp: delete_decision_in_transaction_def result_simps wire_simps dest!: deleted)
qed

lemma perform_open:
  assumes "jsonb_ok E" "perform_request E fresh now actor ps request d = Inr (es, d')"
    "request_room_id request = Some r" "request_request_id request = Some q" "prior_request r q d = None"
    "e \<in> set es" "decision_type (ev_event_type e)"
  shows "no_delivery e"
proof (cases request)
  case (ChatSend c)
  note s = send_chat_Inr [of E fresh actor ps c d es d']
  have c: "send_chat E fresh actor ps c d = Inr (es, d')" using assms(2) ChatSend by simp
  have "ev_event_type e = ''message.created'' \<or> agent_step (ev_event_type e)"
    using s(2,3,5) [OF c] assms(6) by (cases es) auto
  then have "\<not> decision_type (ev_event_type e)"
    using agent_step_other [of "ev_event_type e"] by (auto simp: decision_type_def)
  then show ?thesis using assms(7) by simp
next
  case (DecisionPropose p)
  then show ?thesis using assms(2,6,7) propose_Inr(3) [of E "fresh 0" "fresh 1" actor p d es d']
    by (simp add: decision_type_def)
next
  case (DecisionTransition t)
  then show ?thesis using assms(2,6) transition_open [OF assms(1)] by simp
next
  case (DecisionDelete c)
  then show ?thesis using assms(2,6) delete_open [OF assms(1)] by simp
next
  case (AgentTaskStart c)
  with assms(2) obtain res where res:
    "start_agent_task_in_transaction E (fresh 0) (fresh 1) now (act_id actor) (act_display_name actor) c False d = Inr (res, d')"
    "es = sr_events res" by (auto simp: result_simps)
  show ?thesis using start_fresh_Inr(3) [OF res(1)] assms(3-7) AgentTaskStart res(2) by (simp add: decision_type_def)
qed (use assms in simp_all)

lemma request_step:
  assumes "uuid_ok E" "jsonb_ok E" "db_ok d" "process E enabled presence fresh now actor request d = Inr (p, d')"
  shows "db_ok d' \<and> (\<exists>es. room_log d' r = room_log d r @ es \<and> active_view d' r = fold (apply_decision E) es (active_view d r))"
  using assms(4)
proof (cases rule: process_Inr)
  case (duplicate a q)
  then show ?thesis using assms(3) by (intro conjI exI [of _ "[]"]) simp_all
next
  case (performed a q d1)
  note ok = assms(3) [unfolded db_ok_def]
  have same: "room_events d' = room_events d1" "decisions d' = decisions d1" "agent_tasks d' = agent_tasks d1"
    using performed(5) by (auto simp: record_request_def result_simps)
  note ap = perform_Inr(1) [OF performed(4,1,2,3), unfolded appends_def]
  have events: "room_events d' = room_events d @ pr_events p" using ap same by simp
  have "log_ok d'" using ok process_frame(3) [OF assms(4)] by simp
  moreover have "tasks_ok d1 \<and> tasks_distinct d1" using perform_tasks [OF _ _ _ performed(4,1,2,3)] ok by simp
  then have "tasks_ok d' \<and> tasks_distinct d'"
    using tasks_ok_extend [of d1 d' "[]"] same by (simp add: tasks_distinct_def)
  moreover have view: "decisions_ok d1"
    "\<forall>r. active_view d1 r = fold (apply_decision E) (filter (\<lambda>e. ev_room_id e = r) (pr_events p)) (active_view d r)"
    using perform_view [OF assms(1,2) performed(4,1,2,3)] ok by (simp_all add: view_kept_def)
  moreover have "open_decisions d'"
    using open_decisions_append [OF _ events] perform_open [OF assms(2) performed(4,1,2,3)] ok by simp
  moreover have "turns_ok d'"
    using ok apart_turns(1) [OF process_apart [of d E enabled presence fresh now actor request]] assms(4) by (simp add: commit_def)
  ultimately have "db_ok d'" using same by (simp add: db_ok_def decisions_ok_def)
  moreover have "room_log d' r = room_log d r @ filter (\<lambda>e. ev_room_id e = r) (pr_events p)"
    using events by (simp add: room_log_def)
  moreover have "active_view d' r = active_view d1 r" using same by (simp add: active_view_def)
  ultimately show ?thesis using view(2) by auto
qed

lemma request_later: "later d (commit d (process E enabled presence fresh now actor request d))"
  by (cases "process E enabled presence fresh now actor request d") (auto simp: commit_def intro: process_later later_refl)

lemma task_later:
  assumes "db_ok d"
  shows "later d (snd (run_task_op E op now d))"
proof -
  obtain r d' where t: "run_task_op E op now d = (r, d')" by fastforce
  show ?thesis
    using task_op_quiet [OF _ t] task_op_ok [OF _ _ _ t] assms t by (auto simp: quiet_def later_def db_ok_def)
qed

lemma task_step:
  assumes "db_ok d"
  shows "db_ok (snd (run_task_op E op now d)) \<and>
    (\<exists>es. room_log (snd (run_task_op E op now d)) r = room_log d r @ es \<and>
       active_view (snd (run_task_op E op now d)) r = fold (apply_decision E) es (active_view d r))"
proof -
  obtain x d' where t: "run_task_op E op now d = (x, d')" by fastforce
  note ok = assms [unfolded db_ok_def]
  have q: "quiet d d'" using task_op_quiet [OF _ t] ok by simp
  then have "open_decisions d'" "decisions_ok d'" using ok by (auto simp: quiet_def open_decisions_def decisions_ok_def)
  moreover have "turns_ok d'" using ok apart_turns(1) [OF task_op_apart [of d E op now]] t by simp
  ultimately have "db_ok d'" using task_op_ok [OF _ _ _ t] ok by (simp add: db_ok_def)
  with quiet_view [OF q] t show ?thesis by simp
qed

lemma talks_quiet: "talks d d' \<Longrightarrow> quiet d d'"
  by (auto simp: talks_def quiet_def decision_type_def)

lemma converse_step:
  assumes "db_ok d"
  shows "db_ok (run_turn_op E policy op d)" "later d (run_turn_op E policy op d)" "quiet d (run_turn_op E policy op d)"
proof -
  let ?d = "run_turn_op E policy op d"
  note ok = assms [unfolded db_ok_def]
  have p: "talks d ?d" "turns_ok ?d" using run_turn_op_proceeds [of d E policy op] ok by (simp_all add: proceeds_def)
  show q: "quiet d ?d" by (rule talks_quiet [OF p(1)])
  obtain es where es: "room_events ?d = room_events d @ es" using p(1) by (auto simp: talks_def)
  show "later d ?d" using p(1) by (auto simp: talks_def later_def)
  have "tasks_ok ?d" using tasks_ok_extend [OF _ es] p(1) ok by (simp add: talks_def)
  moreover have "open_decisions ?d" using q ok by (auto simp: quiet_def open_decisions_def)
  ultimately show "db_ok ?d" using p ok by (simp add: db_ok_def talks_def tasks_distinct_def decisions_ok_def)
qed

definition run_ok :: "ext \<Rightarrow> db \<Rightarrow> bool" where
  "run_ok E d \<longleftrightarrow> uuid_ok E \<and> jsonb_ok E \<and> db_ok d"

lemma transaction_step:
  assumes "run_ok E d"
  shows "run_ok E (run_transaction E x d) \<and> later d (run_transaction E x d) \<and>
    (\<exists>es. room_log (run_transaction E x d) r = room_log d r @ es \<and>
       active_view (run_transaction E x d) r = fold (apply_decision E) es (active_view d r))"
proof (cases x)
  case (Request enabled presence fresh now actor request)
  show ?thesis
  proof (cases "process E enabled presence fresh now actor request d")
    case (Inl e)
    then show ?thesis using assms Request by (auto simp: commit_def later_refl)
  next
    case (Inr pd)
    then show ?thesis
      using request_step [of E d enabled presence fresh now actor request "fst pd" "snd pd"] assms Request
        request_later [of d E enabled presence fresh now actor request]
      by (cases pd) (auto simp: commit_def run_ok_def)
  qed
next
  case (Task op now)
  then show ?thesis using assms task_step [of d E op now r] task_later [of d E op now] by (simp add: run_ok_def)
next
  case (Converse policy op)
  have "db_ok d" using assms by (simp add: run_ok_def)
  from converse_step [OF this] quiet_view [OF converse_step(3) [OF this]] show ?thesis
    using assms Converse by (simp add: run_ok_def)
qed

interpretation decisions_view: projection "run_ok E" room_log active_view "apply_decision E" "[]" "run_transaction E" for E
  by unfold_locales (use transaction_step in blast)+

lemma reachable_ok:
  assumes "uuid_ok E" "jsonb_ok E" "reachable E d"
  shows "run_ok E d \<and> (\<exists>xs. d = fold (run_transaction E) xs empty_db)"
  using assms(3)
proof (induction rule: reachable.induct)
  case start
  then show ?case using assms(1,2) empty_db_ok by (auto simp: run_ok_def intro: exI [of _ "[]"])
next
  case (step d x)
  then obtain xs where "d = fold (run_transaction E) xs empty_db" by blast
  then have "run_transaction E x d = fold (run_transaction E) (xs @ [x]) empty_db" by simp
  then show ?case using step.IH decisions_view.step_inv by blast
qed

lemma reachable_run: "reachable E d \<Longrightarrow> reachable E (fold (run_transaction E) xs d)"
  by (induction xs arbitrary: d) (auto intro: reachable.step)

lemma run_later: "run_ok E d \<Longrightarrow> later d (fold (run_transaction E) xs d)"
proof (induction xs arbitrary: d)
  case (Cons x xs)
  have "later d (run_transaction E x d)" using transaction_step [OF Cons.prems] by blast
  moreover have "later (run_transaction E x d) (fold (run_transaction E) xs (run_transaction E x d))"
    using Cons.IH decisions_view.step_inv [OF Cons.prems] by blast
  ultimately show ?case using later_trans by simp
qed (simp add: later_refl)

lemma reachable_view:
  assumes "uuid_ok E" "jsonb_ok E" "reachable E d"
  shows "active_view d r = fold (apply_decision E) (room_log d r) []"
proof -
  obtain xs where xs: "d = fold (run_transaction E) xs empty_db" using reachable_ok [OF assms] by blast
  have "active_view empty_db r = fold (apply_decision E) (room_log empty_db r) []"
    by (simp add: active_view_def room_log_def empty_db_def)
  with xs show ?thesis
    using decisions_view.run_view [of E empty_db r xs] assms(1,2) empty_db_ok by (simp add: run_ok_def)
qed

text \<open>
  C2: Whatever transactions a gateway runs, in whatever order: the log of every room is numbered from 1
  without a gap, no two tasks and no two decisions share an identifier, and every task refers to a position of
  its room's log at which its request stands.
\<close>

theorem reachable_invariants:
  assumes "uuid_ok E" "jsonb_ok E" "reachable E d"
  shows "log_ok d \<and> tasks_distinct d \<and> tasks_ok d \<and> decisions_ok d"
  using reachable_ok [OF assms] by (simp add: run_ok_def db_ok_def)

text \<open>
  C1: The decisions an agent is shown, a projection of the event log, are those the decisions table holds as
  active: in every reachable database replaying the log of a room gives the active rows of the room in the order
  of their identifiers.
\<close>

theorem projection_matches_table:
  assumes "uuid_ok E" "jsonb_ok E" "reachable E d"
  shows "active_decisions E (room_log d r) =
    map active_row (sort_key dc_decision_id (filter (\<lambda>x. dc_room_id x = r \<and> dc_status x = Active) (decisions d)))"
  using reachable_view [OF assms, of r]
  by (simp add: active_decisions_def decision_map_def active_view_def comp_def flip: reachable_view [OF assms])

subsection \<open>Retries\<close>

text \<open>
  C4: A request that was carried out is carried out once.  After any number of further transactions, a request
  with the same room and request identifiers gets the events of the first one back and changes nothing when
  it asks for the same, and is refused as a conflict when it asks for anything else.
\<close>

theorem request_performed_once:
  assumes "uuid_ok E" "time_ok E" "jsonb_ok E" "reachable E d"
    "process E enabled presence fresh now actor request d = Inr (p, d')" "\<not> pr_duplicate p"
    "d'' = fold (run_transaction E) xs d'"
    "request_room_id again = request_room_id request" "request_request_id again = request_request_id request"
    "\<not> not_processed again" "humans_only again \<longrightarrow> act_role actor' = Human"
  shows "process E enabled' presence' fresh' now' actor' again d'' =
    (if without_rpc_id again = without_rpc_id request
     then Inr (\<lparr>pr_events = pr_events p, pr_duplicate = True\<rparr>, d'') else Inl Conflicting_duplicate)"
proof -
  have ok: "run_ok E d" using reachable_ok assms(1,3,4) by blast
  then have "log_ok d" by (simp add: run_ok_def db_ok_def)
  have "run_ok E d'" using decisions_view.step_inv [OF ok, of "Request enabled presence fresh now actor request"] assms(5)
    by (simp add: commit_def)
  then have "later d' d''" using run_later assms(7) by blast
  then obtain r q where rq: "request_room_id request = Some r" "request_request_id request = Some q"
    "prior_request r q d'' = Some (fingerprint E request, pr_events p)"
    using process_entry [OF assms(3) \<open>log_ok d\<close> assms(5,6)] by blast
  have "fingerprint E request = fingerprint E again \<longleftrightarrow> without_rpc_id again = without_rpc_id request"
    using fingerprint_inject [OF assms(1,2), of request again] rq(1) assms(8) by auto
  then show ?thesis
    using process_prior [of again r q d''] rq assms(8-11) by simp
qed

subsection \<open>A run\<close>

definition sample_run :: "uuid \<Rightarrow> validated_request \<Rightarrow> transaction" where
  "sample_run offset request = Request False (\<lambda>_. []) (\<lambda>n. offset + word_of_nat n) 0 sample_actor request"

definition sample_confirmation :: decision_transition where
  "sample_confirmation = \<lparr>dt_id = ''2'', dt_contract_version = ''n2n.room.v1'', dt_request_id = 9, dt_room_id = 8,
     dt_occurred_at = 0, dt_decision_id = 0, dt_action = Confirm, dt_edited_title = None, dt_edited_summary = None\<rparr>"

definition sample_row :: "decision_status \<Rightarrow> decision_row" where
  "sample_row st = \<lparr>dc_decision_id = 0, dc_room_id = 8, dc_status = st, dc_title = ''T'', dc_summary = ''S'',
     dc_derived_from = None, dc_source_event_ids = [], dc_created_at = 0, dc_updated_at = 0\<rparr>"

definition proposed_db :: db where
  "proposed_db = run_transaction plain_ext (sample_run 0 (DecisionPropose sample_proposal)) empty_db"

definition confirmed_db :: db where
  "confirmed_db = run_transaction plain_ext (sample_run 10 (DecisionTransition sample_confirmation)) proposed_db"

lemma plain_valid:
  "ty \<noteq> ''message.created'' \<Longrightarrow> is_valid_room_event plain_ext i (actor_event a r q t ty v)"
  by (simp add: is_valid_room_event_def message_mentions_are_unique_def actor_event_def wire_simps plain_ext_def)

lemma plain_jsonb: "jsonb plain_ext v = Some v"
  by (simp add: plain_ext_def)

lemma proposed_db_state:
  "decisions proposed_db = [sample_row Draft]" "map ev_event_id (room_events proposed_db) = [1]"
  "map rq_request_id (room_requests proposed_db) = [7]" "room_log proposed_db 8 = room_events proposed_db"
  "map ev_sequence (room_events proposed_db) = [1]"
  by (simp_all add: proposed_db_def sample_run_def commit_def process_def sample_actor_def sample_proposal_def prior_request_def
      empty_db_def propose_decision_def insert_decision_def text_ok_def append_event_in_transaction_def plain_valid plain_jsonb
      record_request_def Let_def i64_max_def)
    (simp_all add: actor_event_def text_ok_def sample_row_def plain_ext_def store_micros_def room_log_def)

lemma confirmed_step:
  "\<exists>e d1. perform_request plain_ext (\<lambda>n. 10 + word_of_nat n) 0 sample_actor ps
      (DecisionTransition sample_confirmation) proposed_db = Inr ([e], d1) \<and>
      decisions d1 = [sample_row Active] \<and> room_requests d1 = room_requests proposed_db \<and> length (room_events d1) = 2"
proof -
  obtain e where e: "room_events proposed_db = [e]" "ev_event_id e = 1" "ev_sequence e = 1" "ev_room_id e = 8"
  proof -
    from proposed_db_state(2) obtain e where e: "room_events proposed_db = [e]" "ev_event_id e = 1" by auto
    moreover have "ev_sequence e = 1" "ev_room_id e = 8"
      using proposed_db_state(4,5) e by (auto simp: room_log_def split: if_splits)
    ultimately show thesis using that by blast
  qed
  have "max_key ev_sequence [e] = 1" using e by (simp add: max_key_def)
  then show ?thesis
    by (simp add: transition_decision_in_transaction_def select_decision_def proposed_db_state(1) sample_confirmation_def
        settle_decision_def append_event_in_transaction_def plain_valid plain_jsonb Let_def e i64_max_def
        set_decision_status_def row_update_def)
      (simp add: actor_event_def text_ok_def sample_row_def e sample_actor_def plain_ext_def store_micros_def)
qed

lemma confirmed_db_state: "decisions confirmed_db = [sample_row Active]" "length (room_events confirmed_db) = 2"
proof -
  let ?r = "DecisionTransition sample_confirmation"
  have prior: "prior_request 8 9 proposed_db = None"
    using proposed_db_state(3) by (auto simp: prior_request_def find_None_iff)
  obtain e d1 where s: "perform_request plain_ext (\<lambda>n. 10 + word_of_nat n) 0 sample_actor
      (participant_snapshot plain_ext False (\<lambda>_. []) 8 proposed_db) ?r proposed_db = Inr ([e], d1)"
    "decisions d1 = [sample_row Active]" "room_requests d1 = room_requests proposed_db" "length (room_events d1) = 2"
    using confirmed_step by blast
  from proposed_db_state(3) s(3) have "(8, 9) \<notin> (\<lambda>r. (rq_room_id r, rq_request_id r)) ` set (room_requests d1)" by auto
  then have "\<exists>d2. record_request plain_ext 8 9 (fingerprint plain_ext ?r) [e] d1 = Inr d2 \<and>
      decisions d2 = decisions d1 \<and> room_events d2 = room_events d1"
    by (auto simp: record_request_def plain_jsonb result_simps find_None_iff)
  then have "decisions confirmed_db = decisions d1 \<and> room_events confirmed_db = room_events d1"
    using s(1) prior
    by (auto simp: confirmed_db_def sample_run_def process_def commit_def sample_confirmation_def sample_actor_def)
  then show "decisions confirmed_db = [sample_row Active]" "length (room_events confirmed_db) = 2" using s by simp_all
qed

lemma sample_reachable: "reachable plain_ext proposed_db" "reachable plain_ext confirmed_db"
  by (auto simp: proposed_db_def confirmed_db_def intro: reachable.intros)

theorem reachable_invariants_witness: "log_ok confirmed_db \<and> length (room_events confirmed_db) = 2"
  using reachable_invariants [OF plain_ext_laws(3,1) sample_reachable(2)] confirmed_db_state(2) by simp

theorem projection_matches_table_witness:
  "active_decisions plain_ext (room_log confirmed_db 8) = [active_row (sample_row Active)]"
  using projection_matches_table [OF plain_ext_laws(3,1) sample_reachable(2), of 8]
  by (simp add: confirmed_db_state sample_row_def)

theorem request_performed_once_witness:
  "\<exists>es. process plain_ext True (\<lambda>_. []) (\<lambda>_. 0) 5 sample_actor
     (DecisionPropose (sample_proposal\<lparr>dp_id := ''9''\<rparr>)) confirmed_db =
       Inr (\<lparr>pr_events = es, pr_duplicate = True\<rparr>, confirmed_db) \<and>
   process plain_ext True (\<lambda>_. []) (\<lambda>_. 0) 5 sample_actor
     (DecisionPropose (sample_proposal\<lparr>dp_title := ''U''\<rparr>)) confirmed_db = Inl Conflicting_duplicate"
proof -
  let ?p = "DecisionPropose sample_proposal"
  from sample_proposal_ok obtain p d' where
    a: "process plain_ext False (\<lambda>_. []) (\<lambda>n. word_of_nat n) 0 sample_actor ?p empty_db = Inr (p, d')" "\<not> pr_duplicate p"
    by blast
  then have d': "confirmed_db = fold (run_transaction plain_ext) [sample_run 10 (DecisionTransition sample_confirmation)] d'"
    by (simp add: confirmed_db_def proposed_db_def sample_run_def commit_def)
  note once = request_performed_once [OF plain_ext_laws(3,4,1) reachable.start a d']
  have "without_rpc_id (DecisionPropose (sample_proposal\<lparr>dp_id := ''9''\<rparr>)) = without_rpc_id ?p"
    "without_rpc_id (DecisionPropose (sample_proposal\<lparr>dp_title := ''U''\<rparr>)) \<noteq> without_rpc_id ?p"
    by (simp_all add: sample_proposal_def)
  with once [of "DecisionPropose (sample_proposal\<lparr>dp_id := ''9''\<rparr>)" sample_actor True "\<lambda>_. []" "\<lambda>_. 0" 5]
    once [of "DecisionPropose (sample_proposal\<lparr>dp_title := ''U''\<rparr>)" sample_actor True "\<lambda>_. []" "\<lambda>_. 0" 5]
  show ?thesis by auto
qed

end
