(* ===== verification/Conversation_Example.thy ===== *)
theory Conversation_Example
  imports Gateway_Run
begin

text \<open>
  A conversation that was run: a turn is reserved, claimed by a worker and completed with a reply.
\<close>

definition talk_ext :: ext where
  \<comment> \<open>the plain sample with a schema of reports that asks for the phase of a progress report\<close>
  "talk_ext = plain_ext\<lparr>profile_schema := \<lambda>name. Some (\<lambda>v. name = ''update'' \<and> jidx v ''kind'' = JStr ''progress'' \<longrightarrow>
     as_str (jidx (jidx v ''data'') ''phase'') \<noteq> None)\<rparr>"

definition ask_request :: "uuid \<Rightarrow> json" where
  "ask_request r = jobj [(''agentId'', juuid talk_ext CODEX_AGENT_ID), (''roomId'', juuid talk_ext r), (''requestId'', juuid talk_ext 7),
     (''occurredAt'', jtime talk_ext 0), (''text'', JStr ''hi''),
     (''mentions'', JArr [jobj [(''type'', JStr ''participant''), (''id'', juuid talk_ext CODEX_AGENT_ID), (''token'', JStr ''codex-agent'')]])]"

definition talk_actor :: actor where
  "talk_actor = sample_actor\<lparr>act_expires_at := 1000\<rparr>"

definition ask_fresh :: "uuid \<Rightarrow> nat \<Rightarrow> uuid" where
  "ask_fresh b n = b + word_of_nat n"

definition talk_clock :: "nat \<Rightarrow> timestamp" where
  "talk_clock n = 0"

lemma talk_ext_simps [simp]:
  "jsonb talk_ext v = Some v" "pg_time talk_ext = store_micros" "from_timestamp talk_ext = make_seconds"
  "time_parse talk_ext (time_text talk_ext t) = Some t" "event_schema talk_ext = (\<lambda>_. True)"
  "json_text talk_ext v = ''{}''" "sha256_hex talk_ext = (\<lambda>s. s)"
  "parse_uuid_json talk_ext (juuid talk_ext u) = Some u"
  by (simp_all add: talk_ext_def plain_ext_def int_read_text parse_uuid_json_juuid [OF plain_ext_laws(3), unfolded plain_ext_def]
      sample_ext_def parse_uuid_json_def hyphenated_roundtrip)

lemma talk_ext_laws: "jsonb_ok talk_ext" "uuid_ok talk_ext" "update_schema talk_ext"
  using plain_ext_laws by (auto simp: talk_ext_def update_schema_def elim!: as_str.elims)

lemma talk_profile:
  assumes "safe_numbers v" "name = ''update'' \<and> jidx v ''kind'' = JStr ''progress'' \<longrightarrow> as_str (jidx (jidx v ''data'') ''phase'') \<noteq> None"
  shows "validate_profile_value talk_ext name v = Inr ()"
  using assms by (simp add: validate_profile_value_def talk_ext_def)

lemma safe_jobj: "(\<forall>f \<in> set kvs. safe_numbers (snd f)) \<Longrightarrow> safe_numbers (jobj kvs)"
  using set_fold_upd [of kvs "[]"] unfolding jobj_def by (simp only: safe_numbers.simps) auto

subsection \<open>The reservation\<close>

definition talk_settings :: json where
  "talk_settings = jobj [(''model'', JStr ''m''), (''reasoningEffort'', JStr ''e''), (''catalogRevision'', JStr ''c'')]"

definition ask_plan :: "uuid \<Rightarrow> uuid \<Rightarrow> turn_plan" where
  "ask_plan r b = \<lparr>pl_request = (ask_request r), pl_room = r, pl_request_id = 7, pl_fingerprint = turn_fingerprint talk_ext 1 (ask_request r),
     pl_mode = ''new'', pl_current = None, pl_conversation_id = b, pl_generation = 1, pl_base = 0, pl_settings = talk_settings,
     pl_now = 0, pl_authorization = seconds 1000\<rparr>"

definition ask_prompt :: "uuid \<Rightarrow> uuid \<Rightarrow> room_event" where
  "ask_prompt r b = \<lparr>ev_event_id = b + 2, ev_room_id = r, ev_sequence = 1, ev_request_id = 7,
     ev_event_type = ''message.created'', ev_actor_id = 1, ev_actor_role = ''human'', ev_actor_display_name = Some ''Maya'',
     ev_payload = ne_payload (prompt_event talk_ext talk_actor (ask_plan r b) 0), ev_occurred_at = 0\<rparr>"

lemma talk_request_simps:
  "jidx (ask_request r) ''agentId'' = juuid talk_ext CODEX_AGENT_ID" "jidx (ask_request r) ''roomId'' = juuid talk_ext r"
  "jidx (ask_request r) ''requestId'' = juuid talk_ext 7" "jget_str (ask_request r) ''occurredAt'' = Some (time_text talk_ext 0)"
  "jidx (ask_request r) ''text'' = JStr ''hi''" "jget (ask_request r) ''settings'' = None" "jget (ask_request r) ''conversation'' = None"
  by (simp_all add: ask_request_def wire_simps)

lemma talk_request_valid: "validate_turn_request talk_ext (ask_request r) = Inr (ask_request r)"
proof -
  let ?m = "jobj [(''type'', JStr ''participant''), (''id'', juuid talk_ext CODEX_AGENT_ID), (''token'', JStr ''codex-agent'')]"
  have mention: "turn_mentions (juuid talk_ext CODEX_AGENT_ID) [?m] [] [] False = Inr True" by (simp add: turn_mentions.simps wire_simps)
  have "safe_numbers (ask_request r)" by (simp add: ask_request_def jobj_def)
  moreover have "jidx (ask_request r) ''mentions'' = JArr [?m]"
    by (simp add: ask_request_def wire_simps)
  ultimately show ?thesis
    using mention by (simp add: validate_turn_request_def talk_profile talk_request_simps)
qed

lemma sample_policy_simps [simp]:
  "cp_enabled sample_policy" "cp_policy_revision sample_policy = ''p''" "cp_guidance_revision sample_policy = ''g''"
  "cp_catalog_revision sample_policy = ''c''" "cp_turn_deadline_seconds sample_policy = 180"
  "cp_model sample_policy = ''m''" "cp_reasoning_effort sample_policy = ''e''"
  "cp_interrupt_grace_seconds sample_policy = 5" "cp_max_records sample_policy = 2000" "cp_max_context_bytes sample_policy = 1048576"
  "offers sample_policy (JStr ''m'') (JStr ''e'')" "turn_minimum sample_policy = 185000000000"
  by (simp_all add: sample_policy_def default_policy_def offers_def turn_minimum_def)

lemma empty_db_simps [simp]:
  "room_events empty_db = []" "room_requests empty_db = []" "decisions empty_db = []" "agent_conversations empty_db = []"
  "conversation_tasks empty_db = []" "conversation_updates empty_db = []" "conversation_update_requests empty_db = []"
  "conversation_disclosures empty_db = []"
  by (simp_all add: empty_db_def)

lemma talk_authorized:
  "authorize_conversation_turn talk_ext talk_actor 1000000000000 0 185000000000 = Inr 1000000000000"
  by (simp add: authorize_conversation_turn_def talk_actor_def sample_actor_def make_seconds_def)

definition vacant :: "uuid \<Rightarrow> uuid \<Rightarrow> db \<Rightarrow> bool" where
  \<comment> \<open>nothing happened in the room, and the identifiers are not in use\<close>
  "vacant r b d \<longleftrightarrow> (\<forall>e \<in> set (room_events d). ev_room_id e \<noteq> r \<and> ev_event_id e \<noteq> b + 2) \<and>
     (\<forall>x \<in> set (room_requests d). rq_room_id x \<noteq> r) \<and> (\<forall>x \<in> set (decisions d). dc_room_id x \<noteq> r) \<and>
     (\<forall>c \<in> set (agent_conversations d). cv_room_id c \<noteq> r \<and> cv_conversation_id c \<noteq> b) \<and>
     (\<forall>t \<in> set (conversation_tasks d). ct_room_id t \<noteq> r \<and> ct_task_id t \<noteq> b + 1)"

lemma vacant_filters:
  assumes "vacant r b d"
  shows "filter (\<lambda>e. ev_room_id e = r) (room_events d) = []" "filter (\<lambda>e. ev_room_id e = r \<and> p e) (room_events d) = []"
    "find (\<lambda>e. ev_event_id e = i \<and> ev_room_id e = r \<and> p e) (room_events d) = None"
    "b + 2 \<notin> ev_event_id ` set (room_events d)"
    "find (\<lambda>x. rq_room_id x = r \<and> rq_request_id x = q) (room_requests d) = None"
    "filter (\<lambda>x. dc_room_id x = r \<and> q' x) (decisions d) = []"
    "find (\<lambda>c. cv_room_id c = r \<and> p' c) (agent_conversations d) = None"
    "filter (\<lambda>c. cv_room_id c = r \<and> p' c) (agent_conversations d) = []"
    "\<not> list_ex (\<lambda>x. cv_conversation_id x = b \<or> cv_room_id x = r \<and> p' x) (agent_conversations d)"
    "filter (\<lambda>t. t1 t \<and> ct_room_id t = r \<and> t2 t) (conversation_tasks d) = []"
    "\<not> list_ex (\<lambda>x. ct_task_id x = b + 1 \<or> ct_room_id x = r \<and> t3 x) (conversation_tasks d)"
  using assms by (auto simp: vacant_def filter_empty_conv find_None_iff list_ex_iff)

lemma ask_planned:
  assumes "vacant r b d"
  shows "plan_turn talk_ext sample_policy b (ask_request r) r 7 (turn_fingerprint talk_ext 1 (ask_request r)) 0 1000000000000 d = Inr (ask_plan r b)"
proof -
  have "resolve_settings sample_policy None = Inr talk_settings"
    by (simp add: resolve_settings_def Let_def wire_simps talk_settings_def)
  moreover have "jget_str (jidx (ask_request r) ''conversation'') ''mode'' = None"
    by (simp add: talk_request_simps jidx_def jget_str_def)
  ultimately show ?thesis
    by (simp add: plan_turn_def Let_def current_conversation_def place_turn_def shared_settings_def talk_request_simps ask_plan_def
        MAX_SAFE_INTEGER_def vacant_filters [OF assms])
qed

lemma ask_prepared:
  assumes "vacant r b d"
  shows "reserve_prepare talk_ext sample_policy None (ask_fresh b 0) talk_clock talk_actor (ask_request r) 1000000000000 d = Inr (Planned (ask_plan r b))"
proof -
  have "act_id talk_actor = 1" "ask_fresh b 0 = b" by (simp_all add: talk_actor_def sample_actor_def ask_fresh_def)
  then show ?thesis
    by (simp add: reserve_prepare_def talk_authorized talk_clock_def talk_request_valid uuid_field_def talk_request_simps
        prior_request_def Let_def ask_planned [OF assms] vacant_filters [OF assms])
qed

lemma ask_prompted:
  assumes "vacant r b d"
  shows "append_event_in_transaction talk_ext (b + 2) (prompt_event talk_ext talk_actor (ask_plan r b) 0) d =
    Inr (ask_prompt r b, d\<lparr>room_events := room_events d @ [ask_prompt r b]\<rparr>)"
proof -
  have "is_valid_room_event talk_ext (b + 2) (prompt_event talk_ext talk_actor (ask_plan r b) 0)"
    by (simp add: is_valid_room_event_def message_mentions_are_unique_def prompt_event_def wire_simps ask_plan_def ask_request_def)
  moreover have "ne_room_id (prompt_event talk_ext talk_actor (ask_plan r b) 0) = r" by (simp add: prompt_event_def ask_plan_def)
  ultimately show ?thesis
    by (simp add: append_event_in_transaction_def i64_max_def Let_def ask_prompt_def vacant_filters [OF assms])
      (simp add: prompt_event_def ask_plan_def talk_actor_def sample_actor_def text_ok_def store_micros_def)
qed

definition ask_core :: "uuid \<Rightarrow> uuid \<Rightarrow> json" where
  "ask_core r b = jobj [(''kind'', JStr ''baseline''), (''baseRevision'', JInt 0), (''revision'', JInt 1),
    (''policyRevision'', JStr ''p''), (''entries'', JArr [context_entry talk_ext (ask_prompt r b) ''hi'']),
    (''activeDecisions'', JArr []), (''nativeReplyBindings'', JArr [])]"

definition ask_context :: "uuid \<Rightarrow> uuid \<Rightarrow> json" where
  "ask_context r b = jset (ask_core r b) ''digest'' (JStr ''{}'')"

lemma talk_prompt_simps [simp]:
  "ev_actor_display_name (ask_prompt r b) = Some ''Maya''"
  "ev_event_id (ask_prompt r b) = b + 2" "ev_room_id (ask_prompt r b) = r" "ev_sequence (ask_prompt r b) = 1"
  "ev_event_type (ask_prompt r b) = ''message.created''" "ev_actor_role (ask_prompt r b) = ''human''"
  "text_field E (ev_payload (ask_prompt r b)) ''text'' = Some ''hi''" "text_field E (ev_payload (ask_prompt r b)) ''delivery'' = Some ''room''"
  "jget (ev_payload (ask_prompt r b)) ''audienceIds'' = Some (JArr [])"
  by (simp_all add: ask_prompt_def text_field_def prompt_event_def wire_simps ask_plan_def talk_request_simps)

lemma ask_context_built:
  assumes "vacant r b d"
  shows "build_context talk_ext r b 1 0 (b + 2) sample_policy (d\<lparr>room_events := room_events d @ [ask_prompt r b]\<rparr>) = Inr (ask_context r b)"
proof -
  have rows: "context_rows talk_ext r b 1 0 1 (d\<lparr>room_events := room_events d @ [ask_prompt r b]\<rparr>) = [((ask_prompt r b), None)]"
    by (simp add: context_rows_def context_messages_def room_wide_def left_join_def reply_turns_def by_sequence_def vacant_filters [OF assms])
  have row: "freeze_row talk_ext b 1 0 ((ask_prompt r b), None) = Inr (False, context_entry talk_ext (ask_prompt r b) ''hi'')"
    by (simp add: freeze_row_def native_reply_def)
  have core: "freeze_context talk_ext r b 1 0 1 sample_policy (d\<lparr>room_events := room_events d @ [ask_prompt r b]\<rparr>) = Inr (ask_core r b)"
    by (simp add: freeze_context_def rows row oversized_reply_def native_reply_def row_bytes_def context_decisions_def
        ask_core_def Let_def vacant_filters [OF assms])
  have "wf_json (context_preimage talk_ext r b 1 (b + 2) sample_policy (ask_core r b)) \<and>
      safe_numbers (context_preimage talk_ext r b 1 (b + 2) sample_policy (ask_core r b)) \<and>
      ascii_keys (context_preimage talk_ext r b 1 (b + 2) sample_policy (ask_core r b))"
    by (simp add: context_preimage_def context_entry_def ask_core_def ask_prompt_def jobj_def is_ascii_def MAX_SAFE_INTEGER_def)
  then have "canonical_context_bytes talk_ext (context_preimage talk_ext r b 1 (b + 2) sample_policy (ask_core r b)) = Inr ''{}''"
    using sorted_value_id [of "context_preimage talk_ext r b 1 (b + 2) sample_policy (ask_core r b)"]
    by (simp add: canonical_context_bytes_def)
  moreover have "trigger_event talk_ext r (b + 2) (d\<lparr>room_events := room_events d @ [ask_prompt r b]\<rparr>) = Some (ask_prompt r b)"
    by (simp add: trigger_event_def find_append vacant_filters [OF assms])
  ultimately show ?thesis
    using core by (simp add: build_context_def MAX_SAFE_INTEGER_def ask_context_def)
qed

definition ask_frozen :: "uuid \<Rightarrow> uuid \<Rightarrow> json" where
  "ask_frozen r b = frozen_input talk_ext sample_policy talk_actor (ask_plan r b) (b + 1) (b + 2) (ask_context r b) 180000000000"

definition ask_sources :: "uuid \<Rightarrow> uuid \<Rightarrow> json" where
  "ask_sources r b = source_manifest (ask_context r b)"

definition ask_accepted :: "uuid \<Rightarrow> uuid \<Rightarrow> json" where
  "ask_accepted r b = accepted_turn talk_ext (ask_plan r b) (b + 1) (ask_prompt r b)"

definition ask_turn :: "uuid \<Rightarrow> uuid \<Rightarrow> turn_row" where
  "ask_turn r b = reserved_turn talk_ext sample_policy talk_actor (ask_plan r b) (b + 1) (b + 2) 1 (ask_frozen r b) talk_settings (ask_sources r b) (ask_accepted r b) 180000000000"

definition ask_conversation :: "uuid \<Rightarrow> uuid \<Rightarrow> conversation_row" where
  "ask_conversation r b =
     \<lparr>cv_conversation_id = b, cv_room_id = r, cv_agent_id = CODEX_AGENT_ID, cv_generation = 1, cv_state = Conv_reserved,
      cv_consumed_revision = 0, cv_policy_revision = ''p'', cv_guidance_revision = ''g'', cv_selected_settings = talk_settings,
      cv_active_task_id = Some (b + 1), cv_created_at = 0, cv_updated_at = 0\<rparr>"

lemma talk_sources_eq: "(ask_sources r b) = JArr [jobj [(''sourceId'', juuid talk_ext (b + 2)), (''sourceKind'', JStr ''event'')]]"
  by (simp add: ask_sources_def source_manifest_def elements_def ask_context_def ask_core_def add_source_def context_entry_def wire_simps)

lemma talk_safe: "safe_numbers (ask_frozen r b)" "safe_numbers (ask_accepted r b)"
proof -
  show "safe_numbers (ask_frozen r b)"
    by (simp add: ask_frozen_def frozen_input_def ask_context_def ask_core_def ask_plan_def talk_settings_def context_entry_def ask_prompt_def
        jobj_def MAX_SAFE_INTEGER_def wire_simps)
      (simp add: jidx_def)
  show "safe_numbers (ask_accepted r b)"
    by (simp add: ask_accepted_def accepted_turn_def ask_plan_def talk_settings_def jobj_def MAX_SAFE_INTEGER_def)
qed

lemma talk_frozen_object: "\<exists>fs. (ask_frozen r b) = JObj fs"
  by (simp add: ask_frozen_def frozen_input_def jobj_def)

definition ask_db :: "uuid \<Rightarrow> uuid \<Rightarrow> db \<Rightarrow> db" where
  "ask_db r b d = d\<lparr>room_events := room_events d @ [ask_prompt r b],
     room_requests := room_requests d @ [\<lparr>rq_room_id = r, rq_request_id = 7,
       rq_fingerprint = turn_fingerprint talk_ext 1 (ask_request r), rq_event_ids = [b + 2]\<rparr>],
     agent_conversations := agent_conversations d @ [ask_conversation r b],
     conversation_tasks := conversation_tasks d @ [ask_turn r b]\<rparr>"

lemma ask_committed:
  assumes "vacant r b d"
  shows "reserve_commit talk_ext sample_policy (b + 1) (b + 2) 0 talk_actor (ask_plan r b) d =
     Inr (\<lparr>rv_accepted = (ask_accepted r b), rv_prompt = Some (ask_prompt r b)\<rparr>, ask_db r b d)"
proof -
  have plan: "pl_request (ask_plan r b) = (ask_request r)" "pl_room (ask_plan r b) = r" "pl_conversation_id (ask_plan r b) = b" "pl_generation (ask_plan r b) = 1"
    "pl_base (ask_plan r b) = 0" "pl_now (ask_plan r b) = 0" "pl_request_id (ask_plan r b) = 7" "pl_fingerprint (ask_plan r b) = turn_fingerprint talk_ext 1 (ask_request r)"
    "pl_settings (ask_plan r b) = talk_settings" "pl_authorization (ask_plan r b) = 1000000000000"
    by (simp_all add: ask_plan_def)
  obtain fs where frozen: "(ask_frozen r b) = JObj fs" using talk_frozen_object by blast
  have accepted: "jidx (ask_accepted r b) ''triggerEventId'' = juuid talk_ext (b + 2)" "jidx (ask_accepted r b) ''contextRevision'' = JInt 1"
    by (simp_all add: ask_accepted_def accepted_turn_def wire_simps)
  have enter: "enter_conversation talk_ext sample_policy (ask_plan r b) (b + 1) talk_settings x = 
      Inr (x\<lparr>agent_conversations := agent_conversations d @ [ask_conversation r b]\<rparr>)"
    if "agent_conversations x = agent_conversations d" for x
    using that vacant_filters [OF assms] by (simp add: enter_conversation_def ask_plan_def insert_conversation_def safe_integer_def revision_ok_def text_ok_def char_count_def
        is_continuation_def MAX_SAFE_INTEGER_def ask_conversation_def store_micros_def)
  have turn: "insert_turn (ask_turn r b) x = Inr (x\<lparr>conversation_tasks := conversation_tasks d @ [ask_turn r b]\<rparr>)"
    if "conversation_tasks x = conversation_tasks d"
    "room_requests x = room_requests d @ [\<lparr>rq_room_id = r, rq_request_id = 7, rq_fingerprint = fp, rq_event_ids = es\<rparr>]"
    "agent_conversations x = agent_conversations d @ [ask_conversation r b]" "room_events x = room_events d @ [ask_prompt r b]" for x fp es
    using that vacant_filters [OF assms] by (simp add: insert_turn_def ask_turn_def reserved_turn_def plan ask_conversation_def safe_integer_def MAX_SAFE_INTEGER_def
        revision_ok_def text_ok_def char_count_def is_continuation_def talk_sources_eq frozen store_micros_def)
  show ?thesis
    by (simp add: reserve_commit_def plan talk_request_simps ask_prompted [OF assms] ask_context_built [OF assms] vacant_filters [OF assms] MAX_SAFE_INTEGER_def Let_def
       ask_frozen_def [symmetric] ask_accepted_def [symmetric] talk_profile talk_safe record_request_def stored_def
       enter accepted uuid_field_def ask_sources_def [symmetric] ask_turn_def [symmetric] turn talk_authorized ask_db_def i64_min_def i64_max_def)
qed

lemma ask_reserved:
  assumes "vacant r b d"
  shows "reserve_inner talk_ext sample_policy None (None :: unit catalog option) (ask_fresh b) talk_clock talk_actor (ask_request r) 1000000000000 () d =
     (Inr (\<lparr>rv_accepted = ask_accepted r b, rv_prompt = Some (ask_prompt r b)\<rparr>, ask_db r b d), ())"
proof -
  have "ask_fresh b 1 = b + 1" "ask_fresh b 2 = b + 2" "talk_clock 2 = 0" by (simp_all add: ask_fresh_def talk_clock_def)
  then show ?thesis by (simp add: reserve_inner_def ask_prepared [OF assms] ask_committed [OF assms])
qed

lemma ask_reachable:
  assumes "reachable talk_ext d" "vacant r b d"
  shows "reachable talk_ext (ask_db r b d)"
  using reachable.step [OF assms(1), of "Converse sample_policy
      (Reserve None (ask_fresh b) talk_clock talk_actor (ask_request r) 1000000000000)"] ask_reserved [OF assms(2)]
  by (simp add: commit_def)

subsection \<open>The claim\<close>

lemma ask_turn_simps [simp]:
  "ct_task_id (ask_turn r b) = b + 1" "ct_room_id (ask_turn r b) = r" "ct_agent_id (ask_turn r b) = CODEX_AGENT_ID" "ct_conversation_id (ask_turn r b) = b"
  "ct_generation (ask_turn r b) = 1" "ct_state (ask_turn r b) = Turn_reserved" "ct_lease_token (ask_turn r b) = None"
  "ct_frozen_input (ask_turn r b) = ask_frozen r b" "ct_policy_revision (ask_turn r b) = ''p''" "ct_created_at (ask_turn r b) = 0"
  "ct_authorization_expires_at (ask_turn r b) = 1000000000000" "ct_expires_at (ask_turn r b) = 180000000000"
  "ct_source_manifest (ask_turn r b) = ask_sources r b" "ct_request_id (ask_turn r b) = 7" "ct_context_revision (ask_turn r b) = 1"
  "ct_last_update_ordinal (ask_turn r b) = 0" "ct_requester_id (ask_turn r b) = 1" "ct_last_progress_at (ask_turn r b) = None"
  "ct_selected_settings (ask_turn r b) = talk_settings" "ct_failure (ask_turn r b) = None"
  by (simp_all add: ask_turn_def reserved_turn_def ask_plan_def store_micros_def talk_actor_def sample_actor_def)

lemma ask_frozen_simps [simp]:
  "jidx (ask_frozen r b) ''guidanceRevision'' = JStr ''g''" "jidx (ask_frozen r b) ''model'' = JStr ''m''"
  "jidx (ask_frozen r b) ''reasoningEffort'' = JStr ''e''" "jidx (jidx (ask_frozen r b) ''context'') ''digest'' = JStr ''{}''"
  by (simp_all add: ask_frozen_def frozen_input_def wire_simps ask_plan_def talk_settings_def ask_context_def ask_core_def)

lemma ask_conversation_simps [simp]:
  "cv_conversation_id (ask_conversation r b) = b" "cv_room_id (ask_conversation r b) = r" "cv_agent_id (ask_conversation r b) = CODEX_AGENT_ID"
  "cv_generation (ask_conversation r b) = 1" "cv_active_task_id (ask_conversation r b) = Some (b + 1)" "cv_state (ask_conversation r b) = Conv_reserved"
  by (simp_all add: ask_conversation_def)

definition talk_input :: claim_input where
  "talk_input = \<lparr>ci_db_now = 0, ci_now = 0, ci_token = 30, ci_failure_id = 31\<rparr>"

definition ask_answer :: "uuid \<Rightarrow> uuid \<Rightarrow> uuid \<Rightarrow> json" where
  "ask_answer r b token = jobj [(''packet'', leased_packet talk_ext (ask_frozen r b) (JStr ''w'') (jtime talk_ext 185000000000)),
     (''leaseToken'', juuid talk_ext token)]"

lemma ask_claimed:
  assumes "claim_candidates 0 d = ask_turn r b # rest" "task_in_transaction (b + 1) d = Inr (ask_turn r b, ask_conversation r b)"
    "ci_db_now i = 0" "ci_now i = 0"
  shows "claim_once talk_ext sample_policy ''w'' i d = Inr (Claimed (ask_answer r b (ci_token i)),
     set_conversation b (\<lambda>c. c\<lparr>cv_state := Conv_running, cv_updated_at := 0\<rparr>)
       (set_turn (b + 1) (\<lambda>t. t\<lparr>ct_state := Turn_running, ct_lease_owner := Some ''w'', ct_lease_token := Some (ci_token i),
          ct_lease_expires_at := Some 185000000000, ct_updated_at := 0\<rparr>) d))"
proof -
  have "safe_numbers (leased_packet talk_ext (ask_frozen r b) (JStr ''w'') (jtime talk_ext 185000000000))"
    by (simp add: leased_packet_def ask_frozen_def frozen_input_def ask_context_def ask_core_def ask_plan_def talk_settings_def context_entry_def
        ask_prompt_def jobj_def MAX_SAFE_INTEGER_def wire_simps)
      (simp add: jidx_def)
  then show ?thesis
    using assms by (simp add: claim_once_def task_authority_def require_enabled_def policy_still_fits_def
        turn_live_def lease_turn_def revision_ok_def char_count_def is_continuation_def text_ok_def talk_profile ask_answer_def
        store_micros_def Let_def)
qed

subsection \<open>One turn\<close>

abbreviation talk_request :: json where "talk_request \<equiv> ask_request 8"

abbreviation talk_prompt :: room_event where "talk_prompt \<equiv> ask_prompt 8 20"

abbreviation talk_accepted :: json where "talk_accepted \<equiv> ask_accepted 8 20"

abbreviation talk_turn :: turn_row where "talk_turn \<equiv> ask_turn 8 20"

abbreviation talk_conversation :: conversation_row where "talk_conversation \<equiv> ask_conversation 8 20"

abbreviation talk_fresh :: "nat \<Rightarrow> uuid" where "talk_fresh \<equiv> ask_fresh 20"

definition reserved_db :: db where
  "reserved_db = ask_db 8 20 empty_db"

lemma talk_vacant: "vacant 8 20 empty_db"
  by (simp add: vacant_def)

lemma talk_reserved:
  "reserve_inner talk_ext sample_policy None (None :: unit catalog option) talk_fresh talk_clock talk_actor talk_request 1000000000000 () empty_db =
     (Inr (\<lparr>rv_accepted = talk_accepted, rv_prompt = Some talk_prompt\<rparr>, reserved_db), ())"
  unfolding reserved_db_def by (rule ask_reserved [OF talk_vacant])

lemma reserved_reachable: "reachable talk_ext reserved_db"
  unfolding reserved_db_def by (rule ask_reachable [OF reachable.start talk_vacant])

lemma reserved_db_simps [simp]: "conversation_tasks reserved_db = [talk_turn]" "agent_conversations reserved_db = [talk_conversation]"
  "room_events reserved_db = [talk_prompt]" "conversation_updates reserved_db = []" "conversation_update_requests reserved_db = []"
  "conversation_disclosures reserved_db = []" "decisions reserved_db = []"
  by (simp_all add: reserved_db_def ask_db_def)

definition leased_turn :: turn_row where
  "leased_turn = talk_turn\<lparr>ct_state := Turn_running, ct_lease_owner := Some ''w'', ct_lease_token := Some 30,
     ct_lease_expires_at := Some 185000000000, ct_updated_at := 0\<rparr>"

definition claimed_db :: db where
  "claimed_db = reserved_db\<lparr>conversation_tasks := [leased_turn],
     agent_conversations := [talk_conversation\<lparr>cv_state := Conv_running, cv_updated_at := 0\<rparr>]\<rparr>"

lemma talk_claimed: "claim_once talk_ext sample_policy ''w'' talk_input reserved_db = Inr (Claimed (ask_answer 8 20 30), claimed_db)"
  using ask_claimed [of reserved_db 8 20 "[]" talk_input]
  by (simp add: claim_candidates_def task_in_transaction_def talk_input_def claimed_db_def set_conversation_def set_turn_def row_update_def leased_turn_def)

lemma claimed_reachable: "reachable talk_ext claimed_db"
  using reachable.step [OF reserved_reachable, of "Converse sample_policy (Claim_round ''w'' talk_input)"] talk_claimed
  by (simp add: commit_def)

lemma talk_repeated:
  "is_ok (fst (reserve_inner talk_ext sample_policy None (None :: unit catalog option) talk_fresh talk_clock talk_actor talk_request
     1000000000000 () claimed_db))"
proof -
  have "act_id talk_actor = 1" by (simp add: talk_actor_def sample_actor_def)
  moreover have "ct_room_id leased_turn = 8" "ct_request_id leased_turn = 7" "ct_requester_id leased_turn = 1"
    by (simp_all add: leased_turn_def)
  ultimately show ?thesis
    by (simp add: reserve_inner_def reserve_prepare_def talk_authorized talk_clock_def talk_request_valid uuid_field_def
        talk_request_simps prior_request_def Let_def claimed_db_def reserved_db_def ask_db_def replay_turn_def)
qed

subsection \<open>The reply\<close>

definition talk_result :: json where
  "talk_result = jobj [(''conversationId'', juuid talk_ext 20), (''generation'', JInt 1), (''consumedRevision'', JInt 1),
     (''contextDigest'', JStr ''{}''), (''assistantText'', JStr ''ok''), (''citations'', JArr [juuid talk_ext 22])]"

definition talk_report :: json where
  "talk_report = jobj [(''taskId'', juuid talk_ext 21), (''generation'', JInt 1), (''contextDigest'', JStr ''{}''),
     (''updateId'', juuid talk_ext 40), (''ordinal'', JInt 1), (''kind'', JStr ''completed''), (''data'', talk_result)]"

definition talk_reply :: room_event where
  "talk_reply = \<lparr>ev_event_id = 41, ev_room_id = 8, ev_sequence = 2, ev_request_id = 7, ev_event_type = ''message.created'',
     ev_actor_id = CODEX_AGENT_ID, ev_actor_role = ''agent'', ev_actor_display_name = Some ''Codex Agent'',
     ev_payload = ne_payload (reply_event leased_turn talk_result 0), ev_occurred_at = 0\<rparr>"

definition talk_ack :: json where
  "talk_ack = acknowledgement talk_ext leased_turn talk_reply ''ok''"

lemma leased_turn_simps [simp]:
  "ct_task_id leased_turn = 21" "ct_room_id leased_turn = 8" "ct_agent_id leased_turn = CODEX_AGENT_ID" "ct_conversation_id leased_turn = 20"
  "ct_generation leased_turn = 1" "ct_state leased_turn = Turn_running" "ct_lease_token leased_turn = Some 30" "ct_frozen_input leased_turn = ask_frozen 8 20"
  "ct_policy_revision leased_turn = ''p''" "ct_authorization_expires_at leased_turn = 1000000000000" "ct_expires_at leased_turn = 180000000000"
  "ct_source_manifest leased_turn = ask_sources 8 20" "ct_request_id leased_turn = 7" "ct_context_revision leased_turn = 1"
  "ct_last_update_ordinal leased_turn = 0" "ct_lease_expires_at leased_turn = Some 185000000000" "ct_last_progress_at leased_turn = None"
  "ct_requester_id leased_turn = 1" "ct_selected_settings leased_turn = talk_settings" "ct_failure leased_turn = None"
  by (simp_all add: leased_turn_def)

lemma claimed_db_simps [simp]: "conversation_tasks claimed_db = [leased_turn]"
  "agent_conversations claimed_db = [talk_conversation\<lparr>cv_state := Conv_running, cv_updated_at := 0\<rparr>]"
  "room_events claimed_db = [talk_prompt]" "conversation_updates claimed_db = []" "conversation_update_requests claimed_db = []"
  "conversation_disclosures claimed_db = []"
  by (simp_all add: claimed_db_def)

lemma talk_report_simps [simp]:
  "jidx talk_report ''taskId'' = juuid talk_ext 21" "jidx talk_report ''generation'' = JInt 1" "jidx talk_report ''contextDigest'' = JStr ''{}''"
  "jidx talk_report ''updateId'' = juuid talk_ext 40" "jidx talk_report ''ordinal'' = JInt 1" "jidx talk_report ''kind'' = JStr ''completed''"
  "jidx talk_report ''data'' = talk_result" "safe_numbers talk_report" "safe_numbers talk_result"
  by (simp_all add: talk_report_def talk_result_def wire_simps) (simp_all add: jobj_def MAX_SAFE_INTEGER_def)

lemma talk_result_simps [simp]:
  "jidx talk_result ''conversationId'' = juuid talk_ext 20" "jidx talk_result ''generation'' = JInt 1" "jidx talk_result ''consumedRevision'' = JInt 1"
  "jidx talk_result ''contextDigest'' = JStr ''{}''" "jidx talk_result ''assistantText'' = JStr ''ok''"
  "jidx talk_result ''citations'' = JArr [juuid talk_ext 22]" "jidx talk_result ''effectiveSettings'' = JNull" "jidx talk_result ''usage'' = JNull"
  by (simp_all add: talk_result_def wire_simps)

lemma talk_report_admitted: "admit_update talk_ext sample_policy 21 30 talk_report claimed_db =
    Inr ((leased_turn, talk_conversation\<lparr>cv_state := Conv_running, cv_updated_at := 0\<rparr>), 40)"
  by (simp add: admit_update_def talk_profile owned_room_def task_in_transaction_def require_enabled_def uuid_field_def)

lemma talk_report_authorized:
  "task_authority sample_policy 0 (leased_turn, talk_conversation\<lparr>cv_state := Conv_running, cv_updated_at := 0\<rparr>) (Some 30) False = Inr ()"
  by (simp add: task_authority_def require_enabled_def policy_still_fits_def turn_live_def)

lemma talk_citations: "validate_citations talk_ext sample_policy leased_turn talk_result claimed_db = Inr ()"
  by (simp add: validate_citations_def talk_sources_eq check_citation_def event_citable_def room_wide_def uuid_field_def wire_simps)

lemma talk_replied:
  "append_event_in_transaction talk_ext 41 (reply_event leased_turn talk_result 0) claimed_db =
     Inr (talk_reply, claimed_db\<lparr>room_events := [talk_prompt, talk_reply]\<rparr>)"
proof -
  have "is_valid_room_event talk_ext 41 (reply_event leased_turn talk_result 0)"
    by (simp add: is_valid_room_event_def message_mentions_are_unique_def reply_event_def wire_simps)
  then show ?thesis
    by (simp add: append_event_in_transaction_def i64_max_def Let_def talk_reply_def)
      (simp add: reply_event_def text_ok_def store_micros_def)
qed

definition completed_turn :: turn_row where
  "completed_turn = leased_turn\<lparr>ct_state := Turn_completed, ct_result := Some talk_result, ct_reply_event_id := Some 41,
     ct_receipt_acknowledgement := Some talk_ack, ct_effective_settings := None, ct_usage := None, ct_updated_at := 0\<rparr>"

lemma talk_completed:
  "\<exists>d. complete_turn talk_ext sample_policy 41 0 leased_turn talk_result claimed_db = Inr ((talk_ack, talk_reply), d) \<and>
     conversation_updates d = [] \<and> conversation_update_requests d = [] \<and> conversation_tasks d = [completed_turn]"
proof -
  have "safe_numbers talk_ack"
    by (simp add: talk_ack_def acknowledgement_def talk_reply_def jobj_def MAX_SAFE_INTEGER_def)
  then show ?thesis
    by (simp add: complete_turn_def talk_profile talk_citations talk_replied talk_ack_def Let_def stored_def stored_option_def optional_json_def
       talk_sources_eq disclose_def uuid_field_def wire_simps revision_ok_def text_ok_def char_count_def is_continuation_def set_conversation_def set_turn_def
       row_update_def completed_turn_def store_micros_def)
      (simp add: talk_reply_def)
qed

lemma talk_reported:
  obtains d where "record_update talk_ext sample_policy 0 talk_clock 41 42 21 30 talk_report claimed_db =
     (Inr \<lparr>uo_response = talk_ack, uo_event = Some talk_reply\<rparr>, d)"
    "map cu_kind (turn_updates 21 d) = [''completed'']" "is_ok (task_view talk_ext sample_policy 8 21 d)"
proof -
  obtain d where d: "complete_turn talk_ext sample_policy 41 0 leased_turn talk_result claimed_db = Inr ((talk_ack, talk_reply), d)"
    "conversation_updates d = []" "conversation_update_requests d = []" "conversation_tasks d = [completed_turn]"
    using talk_completed by blast
  have meta: "check_metadata ''completed'' talk_result = Inr ()"
    by (simp add: check_metadata_def validate_metadata_def optional_json_def)
  have "\<exists>d'. apply_update talk_ext sample_policy 0 talk_clock 41
      (leased_turn, talk_conversation\<lparr>cv_state := Conv_running, cv_updated_at := 0\<rparr>) 30 40 talk_report claimed_db =
      Inr (\<lparr>uo_response = talk_ack, uo_event = Some talk_reply\<rparr>, d') \<and> map cu_kind (turn_updates 21 d') = [''completed''] \<and>
      is_ok (task_view talk_ext sample_policy 8 21 d')"
    by (simp add: apply_update_def Let_def i64_min_def i64_max_def MAX_SAFE_INTEGER_def meta carry_out_def d talk_clock_def
        retain_update_def coalesced_def stored_def displace_def insert_update_def safe_integer_def insert_update_request_def
        set_turn_def talk_report_authorized turn_updates_def row_update_def)
      (simp add: task_view_def require_enabled_def turn_updates_def Let_def completed_turn_def talk_profile safe_jobj update_json_def talk_settings_def
        MAX_SAFE_INTEGER_def)
  then obtain d' where d': "apply_update talk_ext sample_policy 0 talk_clock 41
      (leased_turn, talk_conversation\<lparr>cv_state := Conv_running, cv_updated_at := 0\<rparr>) 30 40 talk_report claimed_db =
      Inr (\<lparr>uo_response = talk_ack, uo_event = Some talk_reply\<rparr>, d')" "map cu_kind (turn_updates 21 d') = [''completed'']"
      "is_ok (task_view talk_ext sample_policy 8 21 d')" by (elim exE conjE) (rule that)
  have "record_update talk_ext sample_policy 0 talk_clock 41 42 21 30 talk_report claimed_db =
     (Inr \<lparr>uo_response = talk_ack, uo_event = Some talk_reply\<rparr>, d')"
    using d'(1) by (simp add: record_update_def talk_report_admitted) (simp add: talk_clock_def talk_report_authorized)
  then show thesis using d'(2,3) by (rule that)
qed

subsection \<open>Two turns\<close>

definition pair_db :: db where
  "pair_db = ask_db 9 60 reserved_db"

lemma pair_reachable: "reachable talk_ext pair_db"
proof -
  have "vacant 9 60 reserved_db" by (simp add: vacant_def reserved_db_def ask_db_def)
  then show ?thesis unfolding pair_db_def by (rule ask_reachable [OF reserved_reachable])
qed

lemma pair_claimed:
  obtains d1 d2 where "claim_once talk_ext sample_policy ''w'' talk_input pair_db = Inr (Claimed (ask_answer 8 20 30), d1)"
    "claim_once talk_ext sample_policy ''w'' (talk_input\<lparr>ci_token := 32\<rparr>) d1 = Inr (Claimed (ask_answer 9 60 32), d2)"
proof -
  have "claim_candidates 0 pair_db = [ask_turn 8 20, ask_turn 9 60]"
    by (simp add: claim_candidates_def pair_db_def ask_db_def)
  moreover have "task_in_transaction (20 + 1) pair_db = Inr (ask_turn 8 20, ask_conversation 8 20)"
    by (simp add: task_in_transaction_def pair_db_def ask_db_def)
  ultimately have one: "claim_once talk_ext sample_policy ''w'' talk_input pair_db = Inr (Claimed (ask_answer 8 20 30),
      pair_db\<lparr>conversation_tasks := [leased_turn, ask_turn 9 60],
        agent_conversations := [talk_conversation\<lparr>cv_state := Conv_running, cv_updated_at := 0\<rparr>, ask_conversation 9 60]\<rparr>)"
    using ask_claimed [of pair_db 8 20 "[ask_turn 9 60]" talk_input]
    by (simp add: talk_input_def set_conversation_def set_turn_def row_update_def leased_turn_def pair_db_def ask_db_def)
  let ?d = "pair_db\<lparr>conversation_tasks := [leased_turn, ask_turn 9 60],
        agent_conversations := [talk_conversation\<lparr>cv_state := Conv_running, cv_updated_at := 0\<rparr>, ask_conversation 9 60]\<rparr>"
  have "claim_candidates 0 ?d = [ask_turn 9 60]" by (simp add: claim_candidates_def leased_turn_def)
  moreover have "task_in_transaction (60 + 1) ?d = Inr (ask_turn 9 60, ask_conversation 9 60)"
    by (simp add: task_in_transaction_def leased_turn_def)
  ultimately have "claim_once talk_ext sample_policy ''w'' (talk_input\<lparr>ci_token := 32\<rparr>) ?d = Inr (Claimed (ask_answer 9 60 32),
      set_conversation 60 (\<lambda>c. c\<lparr>cv_state := Conv_running, cv_updated_at := 0\<rparr>)
       (set_turn 61 (\<lambda>t. t\<lparr>ct_state := Turn_running, ct_lease_owner := Some ''w'', ct_lease_token := Some 32,
          ct_lease_expires_at := Some 185000000000, ct_updated_at := 0\<rparr>) ?d))"
    using ask_claimed [of ?d 9 60 "[]" "talk_input\<lparr>ci_token := 32\<rparr>"] by (simp add: talk_input_def)
  with one show thesis by (rule that)
qed

end
