(* ===== verification/Gateway_Conversations.thy ===== *)
theory Gateway_Conversations
  imports Conversation_Example
begin

text \<open>
  The promises of the conversation store for a running gateway, whatever transactions are interleaved: one live
  turn per room and agent, leases granted once, turns that stay ended, requests and reports that are carried out
  once, overdue turns that end.
\<close>

lemma reachable_turns:
  assumes "uuid_ok E" "jsonb_ok E" "reachable E d"
  shows "turns_ok d"
  using reachable_ok [OF assms] by (simp add: run_ok_def db_ok_def)

lemma transaction_turns:
  assumes "turns_ok d"
  shows "turns_step d (run_transaction E x d)"
proof (cases x)
  case (Request enabled presence fresh now actor request)
  then show ?thesis using apart_turns(2) [OF process_apart] by simp
next
  case (Task op now)
  then show ?thesis using apart_turns(2) [OF task_op_apart] by simp
next
  case (Converse policy op)
  then show ?thesis using run_turn_op_proceeds [of d E policy op] assms by (simp add: proceeds_def)
qed

lemma run_turns: "run_ok E d \<Longrightarrow> turns_step d (fold (run_transaction E) xs d)"
proof (induction xs arbitrary: d)
  case (Cons x xs)
  have "turns_ok d" using Cons.prems by (simp add: run_ok_def db_ok_def)
  then have "turns_step d (run_transaction E x d)" by (rule transaction_turns)
  moreover have "turns_step (run_transaction E x d) (fold (run_transaction E) xs (run_transaction E x d))"
    using Cons.IH decisions_view.step_inv [OF Cons.prems] by blast
  ultimately show ?case using turns_step_trans by simp
qed (simp add: turns_step_same)

lemma run_requests:
  "\<exists>qs. conversation_update_requests (fold (run_transaction E) xs d) = conversation_update_requests d @ qs"
proof (induction xs arbitrary: d)
  case (Cons x xs)
  have "\<exists>qs. conversation_update_requests (run_transaction E x d) = conversation_update_requests d @ qs"
  proof (cases x)
    case (Request enabled presence fresh now actor request)
    then show ?thesis using process_apart [of d E enabled presence fresh now actor request] by (simp add: apart_def)
  next
    case (Task op now)
    then show ?thesis using task_op_apart [of d E op now] by (simp add: apart_def)
  next
    case (Converse policy op)
    then show ?thesis using run_turn_op_proceeds [of d E policy op] by (auto simp: proceeds_def talks_def)
  qed
  then show ?case using Cons.IH [of "run_transaction E x d"] by auto
qed simp

lemma reachable_reports:
  assumes "uuid_ok E" "jsonb_ok E" "update_schema E" "reachable E d"
  shows "reports_ok E d"
  using assms(4)
proof (induction rule: reachable.induct)
  case start
  show ?case by (rule empty_turns)
next
  case (step d x)
  have "turns_ok d" by (rule reachable_turns [OF assms(1,2) step.hyps])
  then show ?case
    using step.IH run_turn_op_reports [OF step.IH _ assms(2,3)] apart_turns(3) [OF process_apart] apart_turns(3) [OF task_op_apart]
    by (cases x) simp_all
qed

subsection \<open>Live turns\<close>

text \<open>
  C8: A room has at most one live turn of an agent, whatever the gateway did before, and a live turn is the
  active turn of exactly one conversation, which is busy and has the turn's room, agent and generation.
\<close>

theorem one_live_turn:
  assumes "uuid_ok E" "jsonb_ok E" "reachable E d" "t \<in> set (conversation_tasks d)" "turn_live t"
  shows "{x \<in> set (conversation_tasks d). turn_live x \<and> ct_room_id x = ct_room_id t \<and> ct_agent_id x = ct_agent_id t} = {t} \<and>
    (\<exists>c. {x \<in> set (agent_conversations d). cv_active_task_id x = Some (ct_task_id t)} = {c} \<and>
       cv_state c \<in> {Conv_reserved, Conv_running} \<and> cv_conversation_id c = ct_conversation_id t \<and>
       cv_room_id c = ct_room_id t \<and> cv_agent_id c = ct_agent_id t \<and> cv_generation c = ct_generation t)"
proof
  note ok = reachable_turns [OF assms(1-3)]
  show "{x \<in> set (conversation_tasks d). turn_live x \<and> ct_room_id x = ct_room_id t \<and> ct_agent_id x = ct_agent_id t} = {t}"
    using single_live_turn [OF ok _ assms(4) _ assms(5)] assms(4,5) by blast
  obtain c where c: "c \<in> set (agent_conversations d)" "cv_active_task_id c = Some (ct_task_id t)" "busy c"
    "conversation_key c = snd (turn_key t)" by (rule live_active [OF ok assms(4,5)])
  have "x = c" if "x \<in> set (agent_conversations d)" "cv_active_task_id x = Some (ct_task_id t)" for x
    using unique_conversation [OF ok c(1) that(1)] conversation_of [OF ok assms(4,5)] that c(1,2) by metis
  then have "{x \<in> set (agent_conversations d). cv_active_task_id x = Some (ct_task_id t)} = {c}" using c(1,2) by blast
  then show "\<exists>c. {x \<in> set (agent_conversations d). cv_active_task_id x = Some (ct_task_id t)} = {c} \<and>
       cv_state c \<in> {Conv_reserved, Conv_running} \<and> cv_conversation_id c = ct_conversation_id t \<and>
       cv_room_id c = ct_room_id t \<and> cv_agent_id c = ct_agent_id t \<and> cv_generation c = ct_generation t"
    using c(3,4) by (intro exI [of _ c]) (auto simp: busy_def conversation_key_def turn_key_def)
qed

theorem one_live_turn_witness:
  "{x \<in> set (conversation_tasks claimed_db). turn_live x \<and> ct_room_id x = 8 \<and> ct_agent_id x = CODEX_AGENT_ID} = {leased_turn}"
  using one_live_turn [OF talk_ext_laws(2,1) claimed_reachable, of leased_turn] by (simp add: turn_live_def)

text \<open>
  C17: A turn is never lost and its terms never change: after any further transactions it is still there with the
  input that was frozen for it, its requester and its deadlines; a lease once granted stays the same lease, and a
  turn that has ended keeps its state, result, failure, reply and acknowledgement.
\<close>

theorem turn_history:
  assumes "uuid_ok E" "jsonb_ok E" "reachable E d" "t \<in> set (conversation_tasks d)"
  shows "\<exists>t' \<in> set (conversation_tasks (fold (run_transaction E) xs d)). turn_fixed t' = turn_fixed t \<and>
    (ct_lease_token t \<noteq> None \<longrightarrow> turn_lease t' = turn_lease t) \<and> (\<not> turn_live t \<longrightarrow> turn_outcome t' = turn_outcome t)"
proof -
  have "turns_step d (fold (run_transaction E) xs d)" using reachable_ok [OF assms(1-3)] run_turns by blast
  then obtain t' where "t' \<in> set (conversation_tasks (fold (run_transaction E) xs d))" "turn_step t t'"
    by (rule turns_stepE [OF _ assms(4)])
  then show ?thesis unfolding turn_step_def by blast
qed

theorem turn_history_witness:
  "\<exists>t' \<in> set (conversation_tasks (fold (run_transaction talk_ext)
      [Converse sample_policy (Report 0 talk_clock 41 42 21 30 talk_report)] claimed_db)).
     turn_fixed t' = turn_fixed leased_turn \<and> turn_lease t' = turn_lease leased_turn"
proof -
  have "leased_turn \<in> set (conversation_tasks claimed_db)" "ct_lease_token leased_turn \<noteq> None" by simp_all
  with turn_history [OF talk_ext_laws(2,1) claimed_reachable this(1),
      of "[Converse sample_policy (Report 0 talk_clock 41 42 21 30 talk_report)]"]
  show ?thesis by blast
qed

subsection \<open>Leases\<close>

lemma claim_once_Claimed:
  assumes "turns_ok d" "claim_once E policy owner i d = Inr (Claimed v, d')"
  obtains t t' where "t \<in> set (conversation_tasks d)" "ct_state t = Turn_reserved" "t' \<in> set (conversation_tasks d')"
    "ct_task_id t' = ct_task_id t" "ct_state t' = Turn_running" "ct_lease_token t' = Some (ci_token i)"
    "jidx v ''leaseToken'' = juuid E (ci_token i)"
    "\<exists>expiry. jidx v ''packet'' = leased_packet E (ct_frozen_input t') (JStr owner) (jtime E expiry)"
    "ci_now i < ct_expires_at t" "ci_now i < ct_authorization_expires_at t"
proof -
  obtain candidate rest where cs: "claim_candidates (ci_db_now i) d = candidate # rest"
    using assms(2) by (auto simp: claim_once_def split: list.splits)
  then obtain t c where tc: "task_in_transaction (ct_task_id candidate) d = Inr (t, c)"
    using assms(2) by (auto simp: claim_once_def result_simps)
  have *: "task_in_transaction (ct_task_id candidate) d = Inr (t, c)" "task_authority policy (ci_now i) (t, c) None True = Inr ()"
    "lease_turn E policy owner i t d = Inr (Claimed v, d')"
    using assms(2) cs tc by (auto simp: claim_once_def result_simps split: sum.splits)
  note t = task_in_transaction_Inr(1) [OF *(1)]
  obtain expiry packet where p: "v = jobj [(''packet'', packet), (''leaseToken'', juuid E (ci_token i))]"
    "packet = leased_packet E (ct_frozen_input t) (JStr owner) (jtime E expiry)"
    using *(3) by (auto simp: lease_turn_def Let_def result_simps)
  obtain e where d': "d' = set_conversation (ct_conversation_id t)
       (\<lambda>c. c\<lparr>cv_state := Conv_running, cv_updated_at := ci_db_now i\<rparr>)
       (set_turn (ct_task_id t)
         (\<lambda>t. t\<lparr>ct_state := Turn_running, ct_lease_owner := Some owner, ct_lease_token := Some (ci_token i),
                ct_lease_expires_at := Some e, ct_updated_at := ci_db_now i\<rparr>) d)" by (rule lease_Inr [OF *(3)])
  let ?t = "t\<lparr>ct_state := Turn_running, ct_lease_owner := Some owner, ct_lease_token := Some (ci_token i),
                ct_lease_expires_at := Some e, ct_updated_at := ci_db_now i\<rparr>"
  have "?t \<in> set (conversation_tasks d')" using t by (force simp: d' set_conversation_def set_turn_def set_row_update)
  moreover have "jidx v ''packet'' = packet" "jidx v ''leaseToken'' = juuid E (ci_token i)" by (simp_all add: p(1) wire_simps)
  moreover have "ci_now i < ct_expires_at t" "ci_now i < ct_authorization_expires_at t"
    using *(2) by (auto simp: task_authority_def result_simps split: if_splits)
  ultimately show thesis using that [of t ?t] t authority_live(2) [OF *(2)] p(2) by auto
qed

text \<open>
  C9: A turn is handed out once.  When a claim got a lease, then after any further transactions a claim that gets
  a lease gets it for another turn; each answer is the frozen input of the turn with the lease token of the claim.
\<close>

theorem lease_granted_once:
  assumes "uuid_ok E" "jsonb_ok E" "reachable E d"
    "claim_once E policy owner i d = Inr (Claimed v, d1)" "d2 = fold (run_transaction E) xs d1"
    "claim_once E policy' owner' i' d2 = Inr (Claimed v', d3)"
  shows "\<exists>t \<in> set (conversation_tasks d1). \<exists>t' \<in> set (conversation_tasks d3).
    ct_lease_token t = Some (ci_token i) \<and> jidx v ''leaseToken'' = juuid E (ci_token i) \<and>
    (\<exists>expiry. jidx v ''packet'' = leased_packet E (ct_frozen_input t) (JStr owner) (jtime E expiry)) \<and>
    ct_lease_token t' = Some (ci_token i') \<and> jidx v' ''leaseToken'' = juuid E (ci_token i') \<and>
    (\<exists>expiry. jidx v' ''packet'' = leased_packet E (ct_frozen_input t') (JStr owner') (jtime E expiry)) \<and>
    ct_task_id t \<noteq> ct_task_id t'"
proof -
  have ok: "run_ok E d" using reachable_ok assms(1-3) by blast
  then have ok1: "run_ok E d1" using decisions_view.step_inv [OF ok, of "Converse policy (Claim_round owner i)"] assms(4) by (simp add: commit_def)
  have "reachable E d1" using reachable.step [OF assms(3), of "Converse policy (Claim_round owner i)"] assms(4) by (simp add: commit_def)
  then have "turns_ok d2" using reachable_turns [OF assms(1,2)] reachable_run assms(5) by blast
  obtain t1 where t: "t1 \<in> set (conversation_tasks d1)" "ct_state t1 = Turn_running" "ct_lease_token t1 = Some (ci_token i)"
    "jidx v ''leaseToken'' = juuid E (ci_token i)"
    "\<exists>expiry. jidx v ''packet'' = leased_packet E (ct_frozen_input t1) (JStr owner) (jtime E expiry)"
    by (rule claim_once_Claimed [OF reachable_turns [OF assms(1-3)] assms(4)]) (rule that; assumption)
  obtain u u1 where u: "u \<in> set (conversation_tasks d2)" "ct_state u = Turn_reserved" "u1 \<in> set (conversation_tasks d3)"
    "ct_task_id u1 = ct_task_id u" "ct_lease_token u1 = Some (ci_token i')"
    "jidx v' ''leaseToken'' = juuid E (ci_token i')"
    "\<exists>expiry. jidx v' ''packet'' = leased_packet E (ct_frozen_input u1) (JStr owner') (jtime E expiry)"
    by (rule claim_once_Claimed [OF \<open>turns_ok d2\<close> assms(6)]) (rule that; assumption)
  obtain t2 where t2: "t2 \<in> set (conversation_tasks d2)" "turn_step t1 t2"
    by (rule turns_stepE [OF run_turns [OF ok1, of xs] t(1)]) (use assms(5) that in blast)
  have "ct_task_id t1 \<noteq> ct_task_id u1"
  proof
    assume "ct_task_id t1 = ct_task_id u1"
    moreover have "ct_task_id t2 = ct_task_id t1" using t2(2) by (simp add: turn_step_def turn_fixed_def turn_key_def)
    ultimately have "t2 = u" using unique_turn [OF \<open>turns_ok d2\<close> u(1) t2(1)] u(4) by simp
    then show False using t2(2) u(2) t(2) by (simp add: turn_step_def)
  qed
  then show ?thesis using t u by (intro bexI [OF _ t(1)] bexI [OF _ u(3)]) simp
qed

theorem lease_granted_once_witness:
  "\<exists>d1 d3. claim_once talk_ext sample_policy ''w'' talk_input pair_db = Inr (Claimed (ask_answer 8 20 30), d1) \<and>
     claim_once talk_ext sample_policy ''w'' (talk_input\<lparr>ci_token := 32\<rparr>) d1 = Inr (Claimed (ask_answer 9 60 32), d3) \<and>
     (\<exists>t \<in> set (conversation_tasks d1). \<exists>t' \<in> set (conversation_tasks d3).
        ct_lease_token t = Some 30 \<and> ct_lease_token t' = Some 32 \<and> ct_task_id t \<noteq> ct_task_id t')"
proof -
  obtain d1 d3 where c: "claim_once talk_ext sample_policy ''w'' talk_input pair_db = Inr (Claimed (ask_answer 8 20 30), d1)"
    "claim_once talk_ext sample_policy ''w'' (talk_input\<lparr>ci_token := 32\<rparr>) d1 = Inr (Claimed (ask_answer 9 60 32), d3)"
    by (rule pair_claimed)
  have "d1 = fold (run_transaction talk_ext) [] d1" by simp
  from lease_granted_once [OF talk_ext_laws(2,1) pair_reachable c(1) this c(2)]
  obtain t t' where "t \<in> set (conversation_tasks d1)" "t' \<in> set (conversation_tasks d3)"
    "ct_lease_token t = Some (ci_token talk_input)" "ct_lease_token t' = Some (ci_token (talk_input\<lparr>ci_token := 32\<rparr>))"
    "ct_task_id t \<noteq> ct_task_id t'" by (elim bexE conjE) (rule that)
  then have "\<exists>t \<in> set (conversation_tasks d1). \<exists>t' \<in> set (conversation_tasks d3).
      ct_lease_token t = Some 30 \<and> ct_lease_token t' = Some 32 \<and> ct_task_id t \<noteq> ct_task_id t'"
    by (auto simp: talk_input_def)
  with c show ?thesis by (intro exI conjI)
qed



subsection \<open>Reports\<close>

lemma fail_state_requests: "fail_task_state E db_now row error d = Inr d' \<Longrightarrow> conversation_update_requests d' = conversation_update_requests d"
  by (cases row) (auto simp: fail_task_state_def result_simps)

lemma disclose_all_requests:
  assumes "disclose_all E policy t sources d = Inr d'"
  shows "conversation_update_requests d' = conversation_update_requests d"
  using arg_cong [OF disclose_all_frame [OF assms], of conversation_update_requests] by simp

lemma complete_requests:
  "complete_turn E policy event_id now t data d = Inr ((ack, reply), d') \<Longrightarrow>
     conversation_update_requests d' = conversation_update_requests d"
  by (auto simp: complete_turn_def Let_def result_simps append_Inr set_conversation_def set_turn_def dest!: disclose_all_requests)

lemma note_kind_requests:
  assumes "note_kind E db_now now row kind data d = Inr d'"
  shows "conversation_update_requests d' = conversation_update_requests d"
proof -
  obtain d1 where d1: "(if kind = ''failed'' then rbind (ok_or InvalidTaskInput (as_str (jidx data ''code''))) (\<lambda>code.
        rbind (failure_code code) (\<lambda>error. fail_task_state E db_now row error d)) else Inr d) = Inr d1"
    "conversation_update_requests d' = conversation_update_requests d1"
    using assms by (auto simp: note_kind_def result_simps set_turn_def split: if_splits)
  then show ?thesis by (auto simp: result_simps dest: fail_state_requests split: if_splits)
qed

lemma carry_out_requests:
  assumes "carry_out E policy db_now now event_id row update_id ordinal kind data d = Inr (response, event, d')"
  shows "conversation_update_requests d' = conversation_update_requests d"
proof (cases "kind = ''completed''")
  case True
  then obtain ack reply where "complete_turn E policy event_id now (fst row) data d = Inr ((ack, reply), d')"
    using assms by (auto simp: carry_out_def result_simps)
  then show ?thesis by (rule complete_requests)
next
  case False
  then have "note_kind E db_now now row kind data d = Inr d'" using assms by (auto simp: carry_out_def result_simps)
  then show ?thesis by (rule note_kind_requests)
qed

lemma retain_requests:
  assumes "retain_update E now t update_id ordinal kind data d = Inr d'"
  shows "conversation_update_requests d' = conversation_update_requests d"
  using assms by (cases rule: retain_cases) (simp_all add: set_turn_def)

lemma carry_out_exact:
  assumes "carry_out E policy db_now now event_id row update_id ordinal kind data d = Inr (response, event, d')"
  shows "exact response"
proof (cases "kind = ''completed''")
  case True
  then show ?thesis
    using assms safe_exact unfolding carry_out_def complete_turn_def Let_def by (clarsimp simp: result_simps)
next
  case False
  then show ?thesis using assms by (auto simp: carry_out_def result_simps intro!: exact_jobj)
qed

lemma new_report:
  assumes "record_update E policy db_now clock event_id failure_id task lease request d = (Inr outcome, d')" "d' \<noteq> d" "jsonb_ok E"
  obtains t c update_id q where "admit_update E policy task lease request d = Inr ((t, c), update_id)"
    "apply_update E policy db_now clock event_id (t, c) lease update_id request d = Inr (outcome, d')"
    "conversation_update_requests d' = conversation_update_requests d @ [q]"
    "cq_task_id q = task" "cq_update_id q = update_id" "cq_request q = request" "cq_response q = uo_response outcome"
    "find (\<lambda>q. cq_task_id q = task \<and> cq_update_id q = update_id) (conversation_update_requests d) = None"
proof -
  obtain t c update_id where a: "admit_update E policy task lease request d = Inr ((t, c), update_id)"
    "apply_update E policy db_now clock event_id (t, c) lease update_id request d = Inr (outcome, d')"
    "find (\<lambda>q. cq_task_id q = task \<and> cq_update_id q = update_id) (conversation_update_requests d) = None"
    using assms by (auto simp: record_update_def split: sum.splits option.splits if_splits)
  have tid: "ct_task_id t = task" by (rule task_in_transaction_Inr(2) [OF admit_update_Inr(1) [OF a(1)]])
  have exact: "exact request" using a(1) safe_exact by (auto simp: admit_update_def result_simps)
  obtain ordinal kind d1 d2 q where *:
    "carry_out E policy db_now (clock 1) event_id (t, c) update_id ordinal kind (jidx request ''data'') d =
       Inr (uo_response outcome, uo_event outcome, d1)"
    "retain_update E (clock 1) t update_id ordinal kind (jidx request ''data'') d1 = Inr d2"
    "insert_update_request q (set_turn (ct_task_id t) (\<lambda>t. t\<lparr>ct_last_update_ordinal := ordinal\<rparr>) d2) = Inr d'"
    "cq_task_id q = ct_task_id t" "cq_update_id q = update_id" "jsonb E request = Some (cq_request q)"
    "jsonb E (uo_response outcome) = Some (cq_response q)"
    by (rule apply_update_Inr [OF a(2)]) (rule that; assumption)
  have "conversation_update_requests d2 = conversation_update_requests d"
    using carry_out_requests [OF *(1)] retain_requests [OF *(2)] by simp
  then have "conversation_update_requests d' = conversation_update_requests d @ [q]"
    using *(3) by (auto simp: insert_update_request_def result_simps set_turn_def)
  then show thesis
    using that [OF a(1,2)] *(4-7) tid a(3) jsonb_column.store_exact [OF assms(3) exact]
      jsonb_column.store_exact [OF assms(3) carry_out_exact [OF *(1)]] by simp
qed

text \<open>
  C10: A report is carried out once.  When a report changed the database, then after any further transactions a
  report with the same identifier for the same turn changes nothing, and it is answered only when it says the
  same, with the answer given first.
\<close>

theorem report_performed_once:
  assumes "jsonb_ok E"
    "record_update E policy db_now clock event_id failure_id task lease request d = (Inr outcome, d1)" "d1 \<noteq> d"
    "d2 = fold (run_transaction E) xs d1" "uuid_field E again ''updateId'' = uuid_field E request ''updateId''"
  shows "snd (record_update E policy' db_now' clock' event_id' failure_id' task lease' again d2) = d2 \<and>
    (case fst (record_update E policy' db_now' clock' event_id' failure_id' task lease' again d2) of
       Inl e \<Rightarrow> True | Inr o' \<Rightarrow> again = request \<and> uo_response o' = uo_response outcome \<and> uo_event o' = None)"
proof -
  obtain t c update_id q where n: "admit_update E policy task lease request d = Inr ((t, c), update_id)"
    "conversation_update_requests d1 = conversation_update_requests d @ [q]"
    "cq_task_id q = task" "cq_update_id q = update_id" "cq_request q = request" "cq_response q = uo_response outcome"
    "find (\<lambda>q. cq_task_id q = task \<and> cq_update_id q = update_id) (conversation_update_requests d) = None"
    by (rule new_report [OF assms(2,3,1)])
  obtain qs where "conversation_update_requests d2 = conversation_update_requests d1 @ qs" using run_requests assms(4) by blast
  then have found: "find (\<lambda>q. cq_task_id q = task \<and> cq_update_id q = update_id) (conversation_update_requests d2) = Some q"
    using n(2-5,7) by (simp add: find_append)
  show ?thesis
  proof (cases "admit_update E policy' task lease' again d2")
    case (Inr x)
    then obtain t' c' i where x: "admit_update E policy' task lease' again d2 = Inr ((t', c'), i)" by (cases x) auto
    have "uuid_field E request ''updateId'' = Inr update_id" "uuid_field E again ''updateId'' = Inr i"
      using n(1) x by (auto simp: admit_update_def result_simps)
    then have i: "i = update_id" using assms(5) by simp
    show ?thesis
      using n(5,6) by (auto simp: record_update_def x i found replay_update_def result_simps split: sum.splits if_splits)
  qed (simp add: record_update_def)
qed

theorem report_performed_once_witness:
  "\<exists>d1 d2. record_update talk_ext sample_policy 0 talk_clock 41 42 21 30 talk_report claimed_db =
       (Inr \<lparr>uo_response = talk_ack, uo_event = Some talk_reply\<rparr>, d1) \<and> d1 \<noteq> claimed_db \<and>
     d2 = fold (run_transaction talk_ext) [Converse sample_policy (Claim_round ''w'' talk_input)] d1 \<and>
     snd (record_update talk_ext sample_policy 5 talk_clock 43 44 21 30 talk_report d2) = d2"
proof -
  obtain d1 where d1: "record_update talk_ext sample_policy 0 talk_clock 41 42 21 30 talk_report claimed_db =
      (Inr \<lparr>uo_response = talk_ack, uo_event = Some talk_reply\<rparr>, d1)" "map cu_kind (turn_updates 21 d1) = [''completed'']"
    by (rule talk_reported)
  have "d1 \<noteq> claimed_db" using d1(2) by (auto simp: turn_updates_def)
  show ?thesis
    by (intro exI conjI)
      (rule d1(1) \<open>d1 \<noteq> _\<close> refl conjunct1 [OF report_performed_once [OF talk_ext_laws(1) d1(1) \<open>d1 \<noteq> _\<close> refl refl]])+
qed

subsection \<open>Overdue turns\<close>

lemma error_document:
  assumes "jsonb_ok E"
  shows "stored E (jobj [(''code'', JStr (error_code e)), (''message'', JStr (error_code e))]) \<noteq> Inl x"
    "stored E (jobj [(''code'', JStr (error_code e))]) \<noteq> Inl x"
proof -
  have "exact (jobj [(''code'', JStr (error_code e)), (''message'', JStr (error_code e))])"
    "\<not> has_nul (jobj [(''code'', JStr (error_code e)), (''message'', JStr (error_code e))])"
    "exact (jobj [(''code'', JStr (error_code e))])" "\<not> has_nul (jobj [(''code'', JStr (error_code e))])"
    by (cases e; simp add: jobj_def)+
  then show "stored E (jobj [(''code'', JStr (error_code e)), (''message'', JStr (error_code e))]) \<noteq> Inl x"
    "stored E (jobj [(''code'', JStr (error_code e))]) \<noteq> Inl x"
    using jsonb_column.store_accepts [OF assms] by (simp_all add: stored_def)
qed

lemma fail_task_succeeds:
  assumes "jsonb_ok E" "reports_ok E d" "t \<in> set (conversation_tasks d)" "turn_live t"
    "update_id \<notin> cu_update_id ` set (conversation_updates d)"
  shows "\<exists>d'. fail_task E db_now update_id (t, c) error d = Inr d'"
proof -
  obtain d1 where d1: "fail_task_state E db_now (t, c) error d = Inr d1" "conversation_updates d1 = conversation_updates d"
    using error_document(1) [OF assms(1), of error]
    by (cases "stored E (jobj [(''code'', JStr (error_code error)), (''message'', JStr (error_code error))])")
      (auto simp: fail_task_state_def)
  obtain v where v: "stored E (jobj [(''code'', JStr (error_code error))]) = Inr v"
    using error_document(2) [OF assms(1), of error] by (cases "stored E (jobj [(''code'', JStr (error_code error))])") auto
  have row: "0 \<le> ct_last_update_ordinal t" "ct_last_update_ordinal t < MAX_SAFE_INTEGER"
    "\<forall>u \<in> set (turn_updates (ct_task_id t) d). cu_ordinal u \<le> ct_last_update_ordinal t"
    using assms(2-4) by (auto simp: reports_ok_def reports_row_def)
  have "insert_update \<lparr>cu_task_id = ct_task_id t, cu_update_id = update_id, cu_ordinal = ct_last_update_ordinal t + 1,
      cu_kind = ''failed'', cu_occurred_at = db_now, cu_data = v\<rparr> d1 \<noteq> Inl x" for x
    using row assms(5) d1(2) by (auto simp: insert_update_def result_simps list_ex_iff safe_integer_def turn_updates_def)
  moreover have "ct_last_update_ordinal t + 1 \<le> i64_max" using row(2) by (simp add: MAX_SAFE_INTEGER_def i64_max_def)
  ultimately show ?thesis
    using d1(1) v row(2) by (cases "insert_update \<lparr>cu_task_id = ct_task_id t, cu_update_id = update_id,
      cu_ordinal = ct_last_update_ordinal t + 1, cu_kind = ''failed'', cu_occurred_at = db_now, cu_data = v\<rparr> d1")
      (auto simp: fail_task_def Let_def)
qed

lemma live_in_transaction:
  assumes "turns_ok d" "t \<in> set (conversation_tasks d)" "turn_live t" "ct_agent_id t = CODEX_AGENT_ID"
  obtains c where "task_in_transaction (ct_task_id t) d = Inr (t, c)"
proof -
  have "find (\<lambda>x. ct_task_id x = ct_task_id t \<and> ct_agent_id x = CODEX_AGENT_ID) (conversation_tasks d) \<noteq> None"
    using assms by (auto simp: find_None_iff)
  then obtain x where x: "find (\<lambda>x. ct_task_id x = ct_task_id t \<and> ct_agent_id x = CODEX_AGENT_ID) (conversation_tasks d) = Some x"
    by blast
  then have "x = t" using unique_turn [OF assms(1,2)] by (auto simp: find_Some_iff)
  obtain c where "c \<in> set (agent_conversations d)" "conversation_key c = snd (turn_key t)" using live_active [OF assms(1-3)] by metis
  then have "find (\<lambda>c. cv_conversation_id c = ct_conversation_id t \<and> cv_room_id c = ct_room_id t \<and>
               cv_agent_id c = ct_agent_id t \<and> cv_generation c = ct_generation t) (agent_conversations d) \<noteq> None"
    by (auto simp: find_None_iff conversation_key_def turn_key_def)
  then show thesis using that x \<open>x = t\<close> by (auto simp: task_in_transaction_def)
qed

definition overdue :: "timestamp \<Rightarrow> turn_row \<Rightarrow> bool" where
  "overdue now t \<longleftrightarrow> ct_expires_at t \<le> now \<or> ct_authorization_expires_at t \<le> now"

lemma overdue_refused: "overdue now t \<Longrightarrow> \<exists>e. task_authority policy now (t, c) None True = Inl e"
  by (cases "task_authority policy now (t, c) None True")
    (auto simp: overdue_def task_authority_def result_simps split: if_splits)

lemma claim_fails_overdue:
  assumes ok: "jsonb_ok E" "turns_ok d" "reports_ok E d" and cs: "claim_candidates (ci_db_now i) d = t # rest"
    and t: "overdue (ci_now i) t" and fresh: "ci_failure_id i \<notin> cu_update_id ` set (conversation_updates d)"
  obtains d' t' where "claim_once E policy owner i d = Inr (Failed_overdue, d')" "becomes d t d' t'" "ct_state t' = Turn_failed"
    "claim_candidates (ci_db_now i) d' = rest"
    "cu_update_id ` set (conversation_updates d') \<subseteq> insert (ci_failure_id i) (cu_update_id ` set (conversation_updates d))"
proof -
  have m: "t \<in> set (conversation_tasks d)" "turn_live t" "ct_agent_id t = CODEX_AGENT_ID"
  proof -
    have "t \<in> set (claim_candidates (ci_db_now i) d)" using cs by simp
    then show "t \<in> set (conversation_tasks d)" "turn_live t" "ct_agent_id t = CODEX_AGENT_ID"
      by (auto simp: claim_candidates_def turn_live_def)
  qed
  obtain c where c: "task_in_transaction (ct_task_id t) d = Inr (t, c)" by (rule live_in_transaction [OF ok(2) m])
  obtain e where e: "task_authority policy (ci_now i) (t, c) None True = Inl e" using overdue_refused [OF t] by blast
  obtain d' where d': "fail_task E (ci_db_now i) (ci_failure_id i) (t, c) e d = Inr d'"
    using fail_task_succeeds [OF ok(1,3) m(1,2) fresh] by blast
  have ids: "distinct (map ct_task_id (conversation_tasks d))" using ok(2) by (simp add: turns_ok_def)
  obtain t' u where b: "becomes d t d' t'" "ct_state t' = Turn_failed" "conversation_updates d' = conversation_updates d @ [u]"
    using fail_task_becomes [OF ids m(1,2) d'] by metis
  have "cu_update_id u = ci_failure_id i"
    using d' b(3) by (auto simp: fail_task_def fail_task_state_def insert_update_def set_turn_def Let_def result_simps)
  have "claim_candidates (ci_db_now i) d' = rest"
  proof -
    let ?P = "\<lambda>t. ct_agent_id t = CODEX_AGENT_ID \<and> (ct_state t = Turn_reserved \<or> ct_state t = Turn_running \<and>
      ((case ct_lease_expires_at t of None \<Rightarrow> False | Some expiry \<Rightarrow> expiry \<le> ci_db_now i) \<or>
       ct_expires_at t \<le> ci_db_now i \<or> ct_authorization_expires_at t \<le> ci_db_now i))"
    have not: "\<not> ?P t'" using b(2) by simp
    have "filter ?P (map (\<lambda>x. if ct_task_id x = ct_task_id t then t' else x) xs) =
        filter (\<lambda>x. ct_task_id x \<noteq> ct_task_id t) (filter ?P xs)" for xs
      using not by (induction xs) auto
    then have "claim_candidates (ci_db_now i) d' = filter (\<lambda>x. ct_task_id x \<noteq> ct_task_id t) (claim_candidates (ci_db_now i) d)"
      using b(1) unfolding claim_candidates_def by (simp only: becomes_def row_update_def filter_sort)
    moreover have "distinct (map ct_task_id (claim_candidates (ci_db_now i) d))"
    proof -
      have "distinct (claim_candidates (ci_db_now i) d)" using ids by (simp add: claim_candidates_def distinct_map)
      moreover have "inj_on ct_task_id (set (claim_candidates (ci_db_now i) d))"
        using claim_candidates_in unique_turn [OF ok(2)] by (meson inj_onI)
      ultimately show ?thesis by (simp add: distinct_map)
    qed
    ultimately show ?thesis using cs by (auto simp: filter_id_conv image_iff)
  qed
  then show thesis using that [of d' t'] b c cs e d' \<open>cu_update_id u = _\<close> by (auto simp: claim_once_def)
qed

lemma claim_once_kept:
  assumes "jsonb_ok E" "update_schema E" "turns_ok d" "reports_ok E d" "claim_once E policy owner i d = Inr (step, d')"
  shows "turns_ok d'" "reports_ok E d'" "turns_step d d'"
  using run_turn_op_proceeds [of d E policy "Claim_round owner i"] run_turn_op_reports [OF assms(4,3,1,2), of policy "Claim_round owner i"]
    assms(3,5) by (simp_all add: proceeds_def commit_def)

lemma rounds_end_overdue:
  assumes "jsonb_ok E" "update_schema E" "turns_ok d" "reports_ok E d"
    "\<forall>n. ci_db_now (inputs n) = T \<and> ci_now (inputs n) = N" "inj_on (\<lambda>n. ci_failure_id (inputs n)) {..<100}"
    "\<forall>t \<in> set (claim_candidates T d). overdue N t" "length (claim_candidates T d) < k"
    "\<forall>n < k. ci_failure_id (inputs n) \<notin> cu_update_id ` set (conversation_updates d)" "k \<le> 100"
  shows "\<exists>d'. claim_rounds E policy owner inputs (\<lambda>_ d. d) k d = (Inr None, d') \<and> claim_candidates T d' = [] \<and>
    turns_ok d' \<and> turns_step d d' \<and>
    (\<forall>t \<in> set (claim_candidates T d). \<exists>t' \<in> set (conversation_tasks d'). ct_task_id t' = ct_task_id t \<and> ct_state t' = Turn_failed)"
  using assms(3,4,7-10)
proof (induction "claim_candidates T d" arbitrary: d k)
  case Nil
  then obtain n where "k = Suc n" by (cases k) auto
  then show ?case using Nil assms(5) by (simp add: claim_once_def turns_step_same)
next
  case (Cons t rest)
  note cs = Cons.hyps(2) [symmetric]
  obtain n where k: "k = Suc n" using Cons.prems(4) by (cases k) auto
  have "overdue (ci_now (inputs n)) t" using Cons.prems(3) cs assms(5) by simp
  moreover have "claim_candidates (ci_db_now (inputs n)) d = t # rest" using cs assms(5) by simp
  moreover have "ci_failure_id (inputs n) \<notin> cu_update_id ` set (conversation_updates d)" using Cons.prems(5) k by simp
  ultimately obtain d1 t1 where d1: "claim_once E policy owner (inputs n) d = Inr (Failed_overdue, d1)" "becomes d t d1 t1"
    "ct_state t1 = Turn_failed" "claim_candidates T d1 = rest"
    "cu_update_id ` set (conversation_updates d1) \<subseteq> insert (ci_failure_id (inputs n)) (cu_update_id ` set (conversation_updates d))"
    using claim_fails_overdue [OF assms(1) Cons.prems(1,2)] assms(5) by metis
  note kept = claim_once_kept [OF assms(1,2) Cons.prems(1,2) d1(1)]
  have fresh: "\<forall>m < n. ci_failure_id (inputs m) \<notin> cu_update_id ` set (conversation_updates d1)"
  proof (intro allI impI)
    fix m assume "m < n"
    then have "ci_failure_id (inputs m) \<noteq> ci_failure_id (inputs n)" using inj_on_contraD [OF assms(6)] Cons.prems(6) k by simp
    then show "ci_failure_id (inputs m) \<notin> cu_update_id ` set (conversation_updates d1)"
      using Cons.prems(5) \<open>m < n\<close> k d1(5) by (meson insert_iff less_Suc_eq subsetD)
  qed
  have late: "\<forall>t \<in> set (claim_candidates T d1). overdue N t" "length (claim_candidates T d1) < n"
    using Cons.prems(3,4) cs k d1(4) by simp_all
  obtain d' where d': "claim_rounds E policy owner inputs (\<lambda>_ d. d) n d1 = (Inr None, d')" "claim_candidates T d' = []"
    "turns_ok d'" "turns_step d1 d'"
    "\<forall>t \<in> set rest. \<exists>t' \<in> set (conversation_tasks d'). ct_task_id t' = ct_task_id t \<and> ct_state t' = Turn_failed"
    using Cons.hyps(1) [OF d1(4) [symmetric] kept(1,2) late fresh] Cons.prems(6) k unfolding d1(4) by (meson Suc_leD)
  obtain t2 where "t2 \<in> set (conversation_tasks d')" "turn_step t1 t2"
    by (rule turns_stepE [OF d'(4) becomes_after(2) [OF d1(2)]])
  then have "ct_task_id t2 = ct_task_id t" "ct_state t2 = Turn_failed"
    using d1(2,3) by (simp_all add: turn_step_def turn_fixed_def turn_key_def turn_outcome_def turn_live_def becomes_def)
  then have "\<forall>t \<in> set (t # rest). \<exists>t' \<in> set (conversation_tasks d'). ct_task_id t' = ct_task_id t \<and> ct_state t' = Turn_failed"
    using d'(5) \<open>t2 \<in> _\<close> by auto
  then show ?case using d' d1(1) k turns_step_trans [OF kept(3) d'(4)] cs by simp
qed



subsection \<open>What the browser is shown\<close>

text \<open>
  C32: The view of a turn is complete: at most five reports are retained for a turn, so the limit of the query
  cuts nothing off, and the view lists every retained report in the order of the ordinals.
\<close>

theorem task_view_complete:
  assumes "uuid_ok E" "jsonb_ok E" "update_schema E" "reachable E d" "task_view E policy room task d = Inr v"
  shows "length (turn_updates task d) \<le> 5 \<and>
    jidx v ''updates'' = JArr (map (update_json E) (sort_key cu_ordinal (turn_updates task d)))"
proof -
  obtain t where f: "find (\<lambda>t. ct_task_id t = task \<and> ct_room_id t = room \<and> ct_agent_id t = CODEX_AGENT_ID) (conversation_tasks d) = Some t"
    "jidx v ''updates'' = JArr (map (update_json E) (take 256 (sort_key cu_ordinal (turn_updates task d))))"
    using assms(5) by (auto simp: task_view_def Let_def result_simps wire_simps)
  then have t: "t \<in> set (conversation_tasks d)" "ct_task_id t = task" by (auto simp: find_Some_iff)
  have "distinct (map (slot E) (turn_updates task d))"
    using reachable_reports [OF assms(1-4)] t(1,2) by (auto simp: reports_ok_def reports_row_def)
  then have "length (turn_updates task d) = card (slot E ` set (turn_updates task d))"
    by (metis distinct_card length_map set_map)
  also have "\<dots> \<le> card {Slot_accepted, Slot_progress, Slot_settings, Slot_usage, Slot_end}"
  proof (rule card_mono)
    have "x \<in> {Slot_accepted, Slot_progress, Slot_settings, Slot_usage, Slot_end}" for x by (cases x) simp_all
    then show "slot E ` set (turn_updates task d) \<subseteq> {Slot_accepted, Slot_progress, Slot_settings, Slot_usage, Slot_end}" by blast
  qed simp
  finally have "length (turn_updates task d) \<le> 5" by simp
  then show ?thesis using f(2) by simp
qed

theorem task_view_complete_witness:
  "\<exists>d v. reachable talk_ext d \<and> map cu_kind (turn_updates 21 d) = [''completed''] \<and> task_view talk_ext sample_policy 8 21 d = Inr v \<and>
     jidx v ''updates'' = JArr (map (update_json talk_ext) (turn_updates 21 d))"
proof -
  obtain d where d: "record_update talk_ext sample_policy 0 talk_clock 41 42 21 30 talk_report claimed_db =
      (Inr \<lparr>uo_response = talk_ack, uo_event = Some talk_reply\<rparr>, d)" "map cu_kind (turn_updates 21 d) = [''completed'']"
    "is_ok (task_view talk_ext sample_policy 8 21 d)"
    by (rule talk_reported)
  have r: "reachable talk_ext d"
    using reachable.step [OF claimed_reachable, of "Converse sample_policy (Report 0 talk_clock 41 42 21 30 talk_report)"] d(1) by simp
  obtain v where v: "task_view talk_ext sample_policy 8 21 d = Inr v" using d(3) by (auto simp: is_ok_def split: sum.splits)
  obtain u where "turn_updates 21 d = [u]" using d(2) by auto
  with task_view_complete [OF talk_ext_laws(2,1,3) r v] r v d(2) show ?thesis by auto
qed

subsection \<open>Reservations\<close>

lemma turn_request_same: "validate_turn_request E request = Inr v \<Longrightarrow> v = request \<and> safe_numbers request"
  by (auto simp: validate_turn_request_def result_simps split: if_splits)

lemma prepare_cases:
  assumes "reserve_prepare E policy state fresh clock actor request expiry d = Inr step"
  obtains room request_id limit where "uuid_field E request ''roomId'' = Inr room" "uuid_field E request ''requestId'' = Inr request_id"
    "safe_numbers request" "authorize_conversation_turn E actor expiry (clock 1) (turn_minimum policy) = Inr limit" "cp_enabled policy"
    "\<And>prior es. prior_request room request_id d = Some (prior, es) \<Longrightarrow>
       replay_turn prior (turn_fingerprint E (act_id actor) request) room request_id (act_id actor) d = Inr step"
    "prior_request room request_id d = None \<Longrightarrow> \<exists>plan. step = Planned plan \<and>
       plan_turn E policy fresh request room request_id (turn_fingerprint E (act_id actor) request) (clock 1) limit d = Inr plan"
proof -
  from assms obtain v x where v: "validate_turn_request E request = Inr v" "cp_enabled policy"
    "authorize_conversation_turn E actor expiry (clock 1) (turn_minimum policy) = Inr x"
    unfolding reserve_prepare_def Let_def by (auto simp: result_simps)
  note same = turn_request_same [OF v(1)]
  obtain room request_id where ids: "uuid_field E request ''roomId'' = Inr room" "uuid_field E request ''requestId'' = Inr request_id"
    using assms v same unfolding reserve_prepare_def Let_def by (auto simp: result_simps)
  show thesis
  proof (rule that [OF ids _ v(3,2)])
    show "replay_turn prior (turn_fingerprint E (act_id actor) request) room request_id (act_id actor) d = Inr step"
      if "prior_request room request_id d = Some (prior, es)" for prior es
      using assms v same ids that unfolding reserve_prepare_def Let_def by (auto simp: result_simps)
    show "\<exists>plan. step = Planned plan \<and>
        plan_turn E policy fresh request room request_id (turn_fingerprint E (act_id actor) request) (clock 1) x d = Inr plan"
      if "prior_request room request_id d = None"
      using assms v same ids that unfolding reserve_prepare_def Let_def by (auto simp: result_simps)
  qed (use same in simp)
qed

lemma fingerprint_same:
  assumes "uuid_ok E" "turn_fingerprint E a v = turn_fingerprint E b w"
  shows "a = b" "v = w"
proof -
  have "jidx (turn_fingerprint E a v) ''requesterId'' = juuid E a" "jidx (turn_fingerprint E a v) ''intent'' = v" for a v
    by (simp_all add: turn_fingerprint_def wire_simps)
  then have "juuid E a = juuid E b" "v = w" using assms(2) by metis+
  then show "a = b" "v = w" using parse_uuid_json_juuid [OF assms(1)] by (metis option.inject, simp)
qed

lemma new_reservation:
  assumes "reserve_inner E policy state catalog fresh clock actor request expiry s d = (Inr (rv, d'), s')" "rv_prompt rv \<noteq> None"
  obtains plan where "reserve_prepare E policy state (fresh 0) clock actor request expiry d = Inr (Planned plan)"
    "reserve_commit E policy (fresh 1) (fresh 2) (clock 2) actor plan d = Inr (rv, d')"
  using assms by (auto simp: reserve_inner_def split: sum.splits reservation_step.splits option.splits prod.splits)

lemma reservation_kept:
  assumes "run_ok E d" "reserve_inner E policy state catalog fresh clock actor request expiry s d = (Inr (rv, d'), s')"
  shows "run_ok E d'"
proof -
  have "d' \<in> {d, run_turn_op E policy (Reserve state fresh clock actor request expiry) d}"
    using mediated_reservation [of d E policy state catalog fresh clock actor request expiry s] assms(2) by (simp add: commit_def)
  then have "d' = d \<or> d' = run_transaction E (Converse policy (Reserve state fresh clock actor request expiry)) d" by simp
  then show ?thesis using assms(1) decisions_view.step_inv by blast
qed

lemma reservation_recorded:
  assumes E: "jsonb_ok E"
    and new: "reserve_inner E policy state catalog fresh clock actor request expiry s d = (Inr (rv, d'), s')" "rv_prompt rv \<noteq> None"
  obtains room request_id ids t where "uuid_field E request ''roomId'' = Inr room" "uuid_field E request ''requestId'' = Inr request_id"
    "request_entry (room, request_id) d' = Some (turn_fingerprint E (act_id actor) request, ids)"
    "conversation_tasks d' = conversation_tasks d @ [t]"
    "\<forall>x \<in> set (conversation_tasks d). \<not> (ct_room_id x = room \<and> ct_request_id x = request_id)"
    "ct_room_id t = room" "ct_request_id t = request_id" "ct_requester_id t = act_id actor" "ct_accepted_turn t = rv_accepted rv"
proof -
  obtain plan where plan: "reserve_prepare E policy state (fresh 0) clock actor request expiry d = Inr (Planned plan)"
    "reserve_commit E policy (fresh 1) (fresh 2) (clock 2) actor plan d = Inr (rv, d')" by (rule new_reservation [OF new])
  obtain room request_id limit where i: "uuid_field E request ''roomId'' = Inr room" "uuid_field E request ''requestId'' = Inr request_id"
    "safe_numbers request"
    "plan_turn E policy (fresh 0) request room request_id (turn_fingerprint E (act_id actor) request) (clock 1) limit d = Inr plan"
  proof (rule prepare_cases [OF plan(1)])
    fix room request_id limit
    assume a: "uuid_field E request ''roomId'' = Inr room" "uuid_field E request ''requestId'' = Inr request_id" "safe_numbers request"
      "prior_request room request_id d = None \<Longrightarrow> \<exists>p. Planned plan = Planned p \<and>
       plan_turn E policy (fresh 0) request room request_id (turn_fingerprint E (act_id actor) request) (clock 1) limit d = Inr p"
      "\<And>prior es. prior_request room request_id d = Some (prior, es) \<Longrightarrow>
         replay_turn prior (turn_fingerprint E (act_id actor) request) room request_id (act_id actor) d = Inr (Planned plan)"
    have "prior_request room request_id d = None"
      using a(5) by (cases "prior_request room request_id d") (auto simp: replay_turn_def split: if_splits option.splits)
    then show thesis using that a by blast
  qed
  note p = plan_turn_Inr [OF i(4)]
  obtain at prompt d1 d2 settings d3 t where *:
    "append_event_in_transaction E (fresh 2) (prompt_event E actor plan at) d = Inr (prompt, d1)"
    "record_request E (pl_room plan) (pl_request_id plan) (pl_fingerprint plan) [prompt] d1 = Inr d2"
    "enter_conversation E policy plan (fresh 1) settings d2 = Inr d3" "insert_turn t d3 = Inr d'"
    "turn_key t = (fresh 1, pl_conversation_id plan, pl_room plan, CODEX_AGENT_ID, pl_generation plan)"
    "ct_request_id t = pl_request_id plan" "ct_requester_id t = act_id actor"
    "rv_accepted rv = accepted_turn E plan (fresh 1) prompt" "jsonb E (rv_accepted rv) = Some (ct_accepted_turn t)"
    by (rule reserve_commit_Inr [OF plan(2)])
  have "safe_numbers (rv_accepted rv)" using plan(2) unfolding reserve_commit_def Let_def by (clarsimp simp: result_simps)
  then have accepted: "ct_accepted_turn t = rv_accepted rv" using jsonb_column.store_exact [OF E safe_exact *(9)] by blast
  have fp: "exact (turn_fingerprint E (act_id actor) request)"
    using safe_exact [OF i(3)] by (auto simp: turn_fingerprint_def intro!: exact_jobj)
  let ?v = "(turn_fingerprint E (act_id actor) request, [ev_event_id prompt])"
  have "enter_request E (room, request_id) ?v d1 = Inr d2" using *(2) p by (simp add: record_request_enter)
  from requests.enter_lookup [OF this] have "request_entry (room, request_id) d2 = Some ?v"
    using jsonb_column.store_exact [OF E fp] by auto
  moreover have rows: "room_requests d' = room_requests d2" "conversation_tasks d' = conversation_tasks d @ [t]"
    "conversation_tasks d3 = conversation_tasks d"
    using *(1-4) by (auto simp: append_Inr record_request_def enter_conversation_def insert_conversation_def insert_turn_def
        set_conversation_def Let_def result_simps split: if_splits option.splits)
  ultimately have entry: "request_entry (room, request_id) d' = Some ?v" using request_entry_frame by metis
  have "\<forall>x \<in> set (conversation_tasks d). \<not> (ct_room_id x = room \<and> ct_request_id x = request_id)"
    using *(4-6) p rows(3) by (auto simp: insert_turn_def result_simps list_ex_iff turn_key_def)
  then show thesis using that [OF i(1,2) entry rows(2)] *(5-7) p accepted by (simp add: turn_key_def)
qed

text \<open>
  C13: A turn is reserved once.  After a reservation and any further transactions, a reservation with the same
  room and request identifiers writes nothing: it is answered only when the same person asks for the same turn,
  with the answer given first and without another prompt.
\<close>

theorem turn_reserved_once:
  assumes "uuid_ok E" "jsonb_ok E" "reachable E d"
    "reserve_inner E policy state catalog fresh clock actor request expiry s d = (Inr (rv, d1), s1)" "rv_prompt rv \<noteq> None"
    "d2 = fold (run_transaction E) xs d1"
    "uuid_field E again ''roomId'' = uuid_field E request ''roomId''" "uuid_field E again ''requestId'' = uuid_field E request ''requestId''"
  shows "case fst (reserve_inner E policy' state' catalog' fresh' clock' actor' again expiry' s' d2) of
    Inl e \<Rightarrow> True
  | Inr (rv', d3) \<Rightarrow> d3 = d2 \<and> again = request \<and> act_id actor' = act_id actor \<and>
      rv' = \<lparr>rv_accepted = rv_accepted rv, rv_prompt = None\<rparr>"
proof -
  obtain room request_id ids t where r: "uuid_field E request ''roomId'' = Inr room" "uuid_field E request ''requestId'' = Inr request_id"
    "request_entry (room, request_id) d1 = Some (turn_fingerprint E (act_id actor) request, ids)"
    "conversation_tasks d1 = conversation_tasks d @ [t]"
    "\<forall>x \<in> set (conversation_tasks d). \<not> (ct_room_id x = room \<and> ct_request_id x = request_id)"
    "ct_room_id t = room" "ct_request_id t = request_id" "ct_requester_id t = act_id actor" "ct_accepted_turn t = rv_accepted rv"
    by (rule reservation_recorded [OF assms(2,4,5)])
  have ok: "run_ok E d1" using reservation_kept [OF _ assms(4)] reachable_ok [OF assms(1-3)] by blast
  have prior: "\<exists>es. prior_request room request_id d2 = Some (turn_fingerprint E (act_id actor) request, es)"
    using later_entry [OF run_later [OF ok] r(3), of xs] assms(6) by (simp add: prior_request_entry)
  have found: "\<exists>t'. find (\<lambda>t. ct_room_id t = room \<and> ct_request_id t = request_id \<and> ct_requester_id t = act_id actor)
      (conversation_tasks d2) = Some t' \<and> ct_accepted_turn t' = rv_accepted rv"
  proof -
    obtain g added where g: "conversation_tasks d2 = map g (conversation_tasks d1) @ added"
      "\<forall>x \<in> set (conversation_tasks d1). turn_step x (g x)" using run_turns [OF ok, of xs] assms(6) by (auto simp: turns_step_def)
    have fixed: "ct_room_id (g x) = ct_room_id x" "ct_request_id (g x) = ct_request_id x" "ct_requester_id (g x) = ct_requester_id x"
      "ct_accepted_turn (g x) = ct_accepted_turn x" if "x \<in> set (conversation_tasks d) \<or> x = t" for x
      using g(2) that r(4) by (auto simp: turn_step_def turn_fixed_def turn_key_def)
    have "find (\<lambda>t. ct_room_id t = room \<and> ct_request_id t = request_id \<and> ct_requester_id t = act_id actor)
        (map g (conversation_tasks d)) = None"
      using r(5) fixed by (auto simp: find_None_iff)
    then show ?thesis using g(1) r(4,6-9) fixed [of t] by (simp add: find_append)
  qed
  show ?thesis
  proof (cases "reserve_prepare E policy' state' (fresh' 0) clock' actor' again expiry' d2")
    case (Inr step)
    obtain room' request_id' where "uuid_field E again ''roomId'' = Inr room'" "uuid_field E again ''requestId'' = Inr request_id'"
      "\<forall>prior es. prior_request room' request_id' d2 = Some (prior, es) \<longrightarrow>
         replay_turn prior (turn_fingerprint E (act_id actor') again) room' request_id' (act_id actor') d2 = Inr step"
      by (rule prepare_cases [OF Inr]) blast
    moreover from this(1,2) have "room' = room" "request_id' = request_id" using assms(7,8) r(1,2) by simp_all
    ultimately have replay: "replay_turn (turn_fingerprint E (act_id actor) request) (turn_fingerprint E (act_id actor') again)
        room request_id (act_id actor') d2 = Inr step" using prior by blast
    then have "turn_fingerprint E (act_id actor) request = turn_fingerprint E (act_id actor') again"
      by (simp add: replay_turn_def split: if_splits)
    note same = fingerprint_same [OF assms(1) this]
    then have "step = Replayed (rv_accepted rv)" using replay found by (auto simp: replay_turn_def)
    then show ?thesis using Inr same by (simp add: reserve_inner_def)
  qed (simp add: reserve_inner_def)
qed

theorem turn_reserved_once_witness:
  "\<exists>rv d. fst (reserve_inner talk_ext sample_policy None (None :: unit catalog option) talk_fresh talk_clock talk_actor talk_request
       1000000000000 () claimed_db) = Inr (rv, d) \<and> d = claimed_db \<and> rv = \<lparr>rv_accepted = talk_accepted, rv_prompt = None\<rparr>"
proof -
  have "claimed_db = fold (run_transaction talk_ext) [Converse sample_policy (Claim_round ''w'' talk_input)] reserved_db"
    using talk_claimed by (simp add: commit_def)
  from turn_reserved_once [where policy' = sample_policy and state' = None and catalog' = "None :: unit catalog option" and
      fresh' = talk_fresh and clock' = talk_clock and actor' = talk_actor and expiry' = 1000000000000 and s' = "()",
      OF talk_ext_laws(2,1) reachable.start talk_reserved _ this refl refl]
  show ?thesis using talk_repeated by (auto simp: is_ok_def split: sum.splits)
qed

text \<open>
  C14: What a reservation does.  It is made for a human whose authority outlasts the deadline and the grace period of
  the turn, in a room without a live turn of the agent; the prompt is the next event of the room, addressed to the
  whole room; one reserved turn without a lease is added, and it expires before the authority does.
\<close>

theorem reservation_effect:
  assumes "uuid_ok E" "jsonb_ok E" "reachable E d"
    "reserve_inner E policy state catalog fresh clock actor request expiry s d = (Inr (rv, d1), s1)" "rv_prompt rv = Some prompt"
  shows "act_role actor = Human \<and> cp_enabled policy \<and>
    (\<exists>token. from_timestamp E (act_expires_at actor) = Some token \<and> clock 2 + turn_minimum policy \<le> min expiry token) \<and>
    room_log d1 (ev_room_id prompt) = room_log d (ev_room_id prompt) @ [prompt] \<and> ev_actor_id prompt = act_id actor \<and>
    (\<exists>t. conversation_tasks d1 = conversation_tasks d @ [t] \<and> ct_room_id t = ev_room_id prompt \<and> ct_agent_id t = CODEX_AGENT_ID \<and>
       ct_state t = Turn_reserved \<and> ct_lease_token t = None \<and> ct_requester_id t = act_id actor \<and>
       ct_expires_at t \<le> ct_authorization_expires_at t) \<and>
    (\<forall>x \<in> set (conversation_tasks d). turn_live x \<longrightarrow> \<not> (ct_room_id x = ev_room_id prompt \<and> ct_agent_id x = CODEX_AGENT_ID))"
proof -
  obtain plan where plan: "reserve_prepare E policy state (fresh 0) clock actor request expiry d = Inr (Planned plan)"
    "reserve_commit E policy (fresh 1) (fresh 2) (clock 2) actor plan d = Inr (rv, d1)"
    using new_reservation [OF assms(4)] assms(5) by auto
  obtain at d2 d3 d4 settings t where *:
    "append_event_in_transaction E (fresh 2) (prompt_event E actor plan at) d = Inr (prompt, d2)"
    "record_request E (pl_room plan) (pl_request_id plan) (pl_fingerprint plan) [prompt] d2 = Inr d3"
    "enter_conversation E policy plan (fresh 1) settings d3 = Inr d4" "insert_turn t d4 = Inr d1"
    "turn_key t = (fresh 1, pl_conversation_id plan, pl_room plan, CODEX_AGENT_ID, pl_generation plan)"
    "ct_state t = Turn_reserved" "ct_lease_token t = None" "ct_requester_id t = act_id actor"
    "\<exists>x. authorize_conversation_turn E actor (pl_authorization plan) (clock 2) (turn_minimum policy) = Inr x"
  proof (rule reserve_commit_Inr [OF plan(2)])
    fix at p d2 d3 ctx settings d4 t
    assume a: "append_event_in_transaction E (fresh 2) (prompt_event E actor plan at) d = Inr (p, d2)"
      "record_request E (pl_room plan) (pl_request_id plan) (pl_fingerprint plan) [p] d2 = Inr d3"
      "enter_conversation E policy plan (fresh 1) settings d3 = Inr d4" "insert_turn t d4 = Inr d1"
      "turn_key t = (fresh 1, pl_conversation_id plan, pl_room plan, CODEX_AGENT_ID, pl_generation plan)"
      "ct_state t = Turn_reserved" "ct_lease_token t = None" "ct_requester_id t = act_id actor" "rv_prompt rv = Some p"
      "\<exists>x. authorize_conversation_turn E actor (pl_authorization plan) (clock 2) (turn_minimum policy) = Inr x"
    have "p = prompt" using a(9) assms(5) by simp
    then show thesis using that a by blast
  qed
  have prompt: "ev_room_id prompt = pl_room plan" "ev_actor_id prompt = act_id actor" "room_events d2 = room_events d @ [prompt]"
    "conversation_tasks d2 = conversation_tasks d"
    using *(1) by (auto simp: append_Inr prompt_event_def)
  have rows: "room_events d1 = room_events d @ [prompt]" "conversation_tasks d1 = conversation_tasks d @ [t]"
    using *(2-4) prompt(3,4) by (auto simp: record_request_def enter_conversation_def insert_conversation_def insert_turn_def
        set_conversation_def Let_def result_simps split: if_splits option.splits)
  have t: "ct_room_id t = ev_room_id prompt" "ct_agent_id t = CODEX_AGENT_ID" "turn_live t" "ct_expires_at t \<le> ct_authorization_expires_at t"
    using *(4-6) prompt(1) by (auto simp: turn_key_def turn_live_def insert_turn_def result_simps)
  have ok: "turns_ok d1" using reservation_kept [OF _ assms(4)] reachable_ok [OF assms(1-3)] by (simp add: run_ok_def db_ok_def)
  have "\<not> (ct_room_id x = ev_room_id prompt \<and> ct_agent_id x = CODEX_AGENT_ID)" if "x \<in> set (conversation_tasks d)" "turn_live x" for x
  proof
    assume "ct_room_id x = ev_room_id prompt \<and> ct_agent_id x = CODEX_AGENT_ID"
    then have "x = t" using single_live_turn [OF ok, of x t] that t(1-3) rows(2) by simp
    then show False using ok that(1) rows(2) by (simp add: turns_ok_def)
  qed
  moreover have "room_log d1 (ev_room_id prompt) = room_log d (ev_room_id prompt) @ [prompt]" using rows(1) by (simp add: room_log_def)
  moreover have "act_role actor = Human" "\<exists>token. from_timestamp E (act_expires_at actor) = Some token \<and>
      clock 2 + turn_minimum policy \<le> min expiry token"
    using *(9) reserve_prepare_Planned(3) [OF plan(1)] by (auto simp: authorize_Inr)
  moreover have "cp_enabled policy" by (rule prepare_cases [OF plan(1)])
  ultimately show ?thesis using rows(2) t prompt(2) *(6-8) by auto
qed

theorem reservation_effect_witness:
  "room_log reserved_db 8 = [talk_prompt] \<and> act_role talk_actor = Human \<and> (\<exists>t. conversation_tasks reserved_db = [t] \<and> ct_state t = Turn_reserved)"
  using reservation_effect [OF talk_ext_laws(2,1) reachable.start talk_reserved, of talk_prompt] by (auto simp: room_log_def)

subsection \<open>Replies\<close>

definition citable :: "ext \<Rightarrow> uuid \<Rightarrow> db \<Rightarrow> json \<Rightarrow> bool" where
  \<comment> \<open>an event addressed to the whole room, or a decision that rests on such events only\<close>
  "citable E room d citation \<longleftrightarrow>
     (\<exists>i. parse_uuid_json E citation = Some i \<and> (event_citable E room i d \<or> decision_citable E room i d))"

lemma citations_citable:
  assumes "validate_citations E policy t reply d = Inr u" "citation \<in> set cs" "jidx reply ''citations'' = JArr cs"
  shows "citable E (ct_room_id t) d citation"
proof -
  obtain sources ys where "traverse (check_citation E (ct_room_id t) sources d) cs = Inr ys"
    using assms(1,3) by (auto simp: validate_citations_def Let_def result_simps)
  then have "\<exists>y. check_citation E (ct_room_id t) sources d citation = Inr y"
    using assms(2) by (auto simp: traverse_Inr_iff list_all2_conv_all_nth in_set_conv_nth)
  then obtain source i where "find (\<lambda>s. jidx s ''sourceId'' = citation) sources = Some source" "uuid_field E source ''sourceId'' = Inr i"
    "event_citable E (ct_room_id t) i d \<or> decision_citable E (ct_room_id t) i d"
    by (auto simp: check_citation_def result_simps split: if_splits)
  moreover from this(1) have "jidx source ''sourceId'' = citation" by (auto simp: find_Some_iff)
  ultimately show ?thesis by (auto simp: citable_def uuid_field_def result_simps)
qed

lemma complete_Inr:
  assumes "complete_turn E policy event_id now t data d = Inr ((ack, reply), d')"
  obtains d1 where "append_event_in_transaction E event_id (reply_event t data now) d = Inr (reply, d1)"
    "validate_citations E policy t data d = Inr ()" "safe_numbers data" "\<exists>text. jidx data ''assistantText'' = JStr text \<and> length text \<le> 65536"
    "\<exists>cs. jidx data ''citations'' = JArr cs" "room_events d' = room_events d1"
    "agent_conversations d' = row_update (\<lambda>c. cv_conversation_id c = ct_conversation_id t)
       (\<lambda>c. c\<lparr>cv_state := Conv_ready, cv_active_task_id := None, cv_consumed_revision := ct_context_revision t,
              cv_updated_at := pg_time E now\<rparr>) (agent_conversations d)"
proof -
  from assms obtain d1 result ack_row effective usage sources where *:
    "append_event_in_transaction E event_id (reply_event t data now) d = Inr (reply, d1)"
    "validate_citations E policy t data d = Inr ()" "safe_numbers data" "\<exists>text. as_str (jidx data ''assistantText'') = Some text \<and> length text \<le> 65536"
    "disclose_all E policy t sources (complete_rows t
       (\<lambda>x. x\<lparr>ct_state := Turn_completed, ct_result := Some result, ct_reply_event_id := Some (ev_event_id reply),
              ct_receipt_acknowledgement := Some ack_row, ct_effective_settings := effective,
              ct_usage := usage, ct_updated_at := pg_time E now\<rparr>) (pg_time E now) d1) = Inr d'"
    by (auto simp: complete_turn_def Let_def result_simps complete_rows_def)
  obtain xs f where d': "d' = (complete_rows t f (pg_time E now) d1)\<lparr>conversation_disclosures := xs\<rparr>" using disclose_all_frame [OF *(5)] by blast
  have d1: "d1 = d\<lparr>room_events := room_events d @ [reply]\<rparr>" using *(1) by (simp add: append_Inr)
  obtain cs where "as_array (jidx data ''citations'') = Some cs" using *(2) by (auto simp: validate_citations_def result_simps)
  then have "\<exists>cs. jidx data ''citations'' = JArr cs" by (cases "jidx data ''citations''") auto
  moreover have "\<exists>text. jidx data ''assistantText'' = JStr text \<and> length text \<le> 65536"
    using *(4) by (cases "jidx data ''assistantText''") auto
  ultimately show thesis
    using that [OF *(1-3)] by (simp add: d' d1 complete_rows_def set_conversation_def set_turn_def)
qed

lemma reply_published:
  assumes "jsonb_ok E" "append_event_in_transaction E event_id (reply_event t data now) d = Inr (reply, d')" "safe_numbers data"
  shows "room_wide E reply" "ev_actor_id reply = CODEX_AGENT_ID" "ev_event_type reply = ''message.created''" "ct_room_id t = ev_room_id reply"
proof -
  have "exact (ne_payload (reply_event t data now))"
    using safe_exact [OF safe_jidx [OF assms(3)]] by (auto simp: reply_event_def intro!: exact_jobj)
  then have "ev_payload reply = ne_payload (reply_event t data now)" using append_exact [OF assms(1,2)] by blast
  then show "room_wide E reply" by (simp add: room_wide_def text_field_def reply_event_def wire_simps)
  show "ev_actor_id reply = CODEX_AGENT_ID" "ev_event_type reply = ''message.created''" "ct_room_id t = ev_room_id reply"
    using assms(2) by (auto simp: append_Inr reply_event_def)
qed

definition turn_face :: "turn_row \<Rightarrow> uuid \<times> turn_state \<times> uuid option" where
  "turn_face t = (ct_task_id t, ct_state t, ct_reply_event_id t)"

lemma row_update_hit: "x \<in> set rows \<Longrightarrow> p x \<Longrightarrow> f x \<in> set (row_update p f rows)"
  unfolding set_row_update by (rule bexI [of _ x]) simp_all

lemma row_update_face:
  assumes "x \<in> set rows" "\<And>y. g (f y) = g y"
  shows "\<exists>y \<in> set (row_update p f rows). g y = g x"
proof -
  have "(if p x then f x else x) \<in> set (row_update p f rows)" using assms(1) by (auto simp: set_row_update)
  moreover have "g (if p x then f x else x) = g x" using assms(2) by simp
  ultimately show ?thesis by blast
qed

lemma apply_rest:
  assumes "retain_update E now t update_id ordinal kind data d = Inr d1"
    "insert_update_request q (set_turn i (\<lambda>t. t\<lparr>ct_last_update_ordinal := n\<rparr>) d1) = Inr d'" "x \<in> set (conversation_tasks d)"
  shows "room_events d' = room_events d" "agent_conversations d' = agent_conversations d"
    "\<exists>x' \<in> set (conversation_tasks d'). turn_face x' = turn_face x"
proof -
  have d': "room_events d' = room_events d1" "agent_conversations d' = agent_conversations d1"
    "conversation_tasks d' = row_update (\<lambda>t. ct_task_id t = i) (\<lambda>t. t\<lparr>ct_last_update_ordinal := n\<rparr>) (conversation_tasks d1)"
    using assms(2) by (auto simp: insert_update_request_def result_simps set_turn_def)
  have d1: "room_events d1 = room_events d \<and> agent_conversations d1 = agent_conversations d \<and>
      (\<exists>y \<in> set (conversation_tasks d1). turn_face y = turn_face x)"
    using assms(1)
  proof (cases rule: retain_cases)
    case coalesced
    then show ?thesis using assms(3) by blast
  next
    case (kept v us)
    have "\<exists>y \<in> set (row_update (\<lambda>t'. ct_task_id t' = ct_task_id t) (\<lambda>t. t\<lparr>ct_last_progress_at := Some (pg_time E now)\<rparr>)
        (conversation_tasks d)). turn_face y = turn_face x"
      using assms(3) by (rule row_update_face) (simp add: turn_face_def)
    then show ?thesis using assms(3) by (simp add: kept(4) set_turn_def) blast
  qed
  then show "room_events d' = room_events d" "agent_conversations d' = agent_conversations d" using d' by simp_all
  from d1 obtain y where y: "y \<in> set (conversation_tasks d1)" "turn_face y = turn_face x" by blast
  show "\<exists>x' \<in> set (conversation_tasks d'). turn_face x' = turn_face x"
    unfolding d'(3) y(2) [symmetric] using y(1) by (rule row_update_face) (simp add: turn_face_def)
qed

text \<open>
  C15: What a completed turn does.  A report that publishes a reply ends the turn as completed with that reply; the
  reply is the next event of the turn's room, written by the agent and addressed to the whole room; the turn's
  conversation is ready again at the revision the turn was given; and everything the reply cites is
  something the whole room may see.
\<close>

theorem completion_effect:
  assumes "uuid_ok E" "jsonb_ok E" "reachable E d"
    "record_update E policy db_now clock event_id failure_id task lease request d = (Inr outcome, d')" "uo_event outcome = Some reply"
  shows "room_log d' (ev_room_id reply) = room_log d (ev_room_id reply) @ [reply] \<and> room_wide E reply \<and>
    ev_actor_id reply = CODEX_AGENT_ID \<and> ev_event_type reply = ''message.created'' \<and>
    (\<exists>t \<in> set (conversation_tasks d). ct_task_id t = task \<and> ct_room_id t = ev_room_id reply \<and>
       (\<exists>t' \<in> set (conversation_tasks d'). ct_task_id t' = task \<and> ct_state t' = Turn_completed \<and> ct_reply_event_id t' = Some (ev_event_id reply)) \<and>
       (\<exists>c \<in> set (agent_conversations d'). cv_conversation_id c = ct_conversation_id t \<and> cv_state c = Conv_ready \<and>
          cv_consumed_revision c = ct_context_revision t) \<and>
       (\<exists>cs. jidx (jidx request ''data'') ''citations'' = JArr cs \<and> (\<forall>citation \<in> set cs. citable E (ct_room_id t) d citation)))"
proof -
  obtain t c update_id where a: "admit_update E policy task lease request d = Inr ((t, c), update_id)"
    "apply_update E policy db_now clock event_id (t, c) lease update_id request d = Inr (outcome, d')"
    using assms(4,5) by (auto simp: record_update_def replay_update_def result_simps split: sum.splits option.splits if_splits)
  note t = task_in_transaction_Inr [OF admit_update_Inr(1) [OF a(1)]]
  obtain ordinal kind d1 d2 q where *:
    "carry_out E policy db_now (clock 1) event_id (t, c) update_id ordinal kind (jidx request ''data'') d =
       Inr (uo_response outcome, uo_event outcome, d1)"
    "retain_update E (clock 1) t update_id ordinal kind (jidx request ''data'') d1 = Inr d2"
    "insert_update_request q (set_turn (ct_task_id t) (\<lambda>t. t\<lparr>ct_last_update_ordinal := ordinal\<rparr>) d2) = Inr d'"
    by (rule apply_update_Inr [OF a(2)]) (rule that; assumption)
  obtain ack where complete: "complete_turn E policy event_id (clock 1) t (jidx request ''data'') d = Inr ((ack, reply), d1)"
    using *(1) assms(5) by (auto simp: carry_out_def result_simps split: if_splits)
  obtain d0 where d0: "append_event_in_transaction E event_id (reply_event t (jidx request ''data'') (clock 1)) d = Inr (reply, d0)"
    "validate_citations E policy t (jidx request ''data'') d = Inr ()" "safe_numbers (jidx request ''data'')"
    "\<exists>cs. jidx (jidx request ''data'') ''citations'' = JArr cs" "room_events d1 = room_events d0"
    "agent_conversations d1 = row_update (\<lambda>c. cv_conversation_id c = ct_conversation_id t)
       (\<lambda>c. c\<lparr>cv_state := Conv_ready, cv_active_task_id := None, cv_consumed_revision := ct_context_revision t,
              cv_updated_at := pg_time E (clock 1)\<rparr>) (agent_conversations d)"
    by (rule complete_Inr [OF complete])
  note reply = reply_published [OF assms(2) d0(1,3)]
  have "distinct (map ct_task_id (conversation_tasks d))" using reachable_turns [OF assms(1-3)] by (simp add: turns_ok_def)
  from complete_becomes [OF this t(1) complete] obtain t1 where t1: "becomes d t d1 t1" "ct_state t1 = Turn_completed"
    "ct_reply_event_id t1 = Some (ev_event_id reply)" by metis
  have after: "room_events d' = room_events d1" "agent_conversations d' = agent_conversations d1"
    "\<exists>x \<in> set (conversation_tasks d'). turn_face x = turn_face t1"
    using apply_rest [OF *(2,3), of t1] becomes_after(2) [OF t1(1)] by simp_all
  obtain cs where cs: "jidx (jidx request ''data'') ''citations'' = JArr cs" using d0(4) by blast
  have "cv_conversation_id c = ct_conversation_id t" using t(5) by (simp add: conversation_key_def turn_key_def)
  then have "\<exists>c \<in> set (agent_conversations d'). cv_conversation_id c = ct_conversation_id t \<and> cv_state c = Conv_ready \<and>
      cv_consumed_revision c = ct_context_revision t"
    unfolding after(2) d0(6) by (intro bexI [OF _ row_update_hit, OF _ t(4)]) simp_all
  moreover have "\<exists>x \<in> set (conversation_tasks d'). ct_task_id x = task \<and> ct_state x = Turn_completed \<and> ct_reply_event_id x = Some (ev_event_id reply)"
    using after(3) t1 t(2) by (simp add: becomes_def turn_face_def)
  moreover have "\<forall>citation \<in> set cs. citable E (ct_room_id t) d citation" using citations_citable [OF d0(2) _ cs] by blast
  moreover have "room_log d' (ev_room_id reply) = room_log d (ev_room_id reply) @ [reply]"
    using after(1) d0(5) append_frame(1) [OF d0(1)] by (simp add: room_log_def)
  ultimately show ?thesis using reply t(1,2) cs by blast
qed

theorem completion_effect_witness:
  "\<exists>d'. record_update talk_ext sample_policy 0 talk_clock 41 42 21 30 talk_report claimed_db =
       (Inr \<lparr>uo_response = talk_ack, uo_event = Some talk_reply\<rparr>, d') \<and>
     room_log d' 8 = [talk_prompt, talk_reply] \<and> citable talk_ext 8 claimed_db (juuid talk_ext 22)"
proof -
  obtain d' where d': "record_update talk_ext sample_policy 0 talk_clock 41 42 21 30 talk_report claimed_db =
      (Inr \<lparr>uo_response = talk_ack, uo_event = Some talk_reply\<rparr>, d')"
    by (rule talk_reported)
  have "ev_room_id talk_reply = 8" by (simp add: talk_reply_def)
  moreover have "room_log claimed_db 8 = [talk_prompt]" by (simp add: room_log_def)
  ultimately show ?thesis using completion_effect [OF talk_ext_laws(2,1) claimed_reachable d', of talk_reply] d' by auto
qed

end
