(* ===== verification/Strict_Json.thy ===== *)
theory Strict_Json
  imports Conversation_Protocol
begin

text \<open>
  The strict reading of documents in \<open>src/conversation_service.rs\<close>: no floating-point number and no key twice.
  The tokenizer is the crate \<open>serde_json\<close>.  A \<open>document\<close> is what its deserializer shows to the visitor, with the
  members of an object in the order of the text; \<open>read\<close> is the deserializer on a whole input, \<open>None\<close> when
  the text is malformed, nested too deeply or followed by anything but white space.
\<close>

datatype document =
    Doc_unit
  | Doc_bool bool
  | Doc_int int \<comment> \<open>\<open>visit_i64\<close> and \<open>visit_u64\<close>\<close>
  | Doc_f64 "64 word"
  | Doc_str string
  | Doc_seq "document list"
  | Doc_map "(string \<times> document) list"

fun strict_value :: "document \<Rightarrow> json option"
  and strict_seq :: "document list \<Rightarrow> json list \<Rightarrow> json list option"
  and strict_map :: "(string \<times> document) list \<Rightarrow> (string \<times> json) list \<Rightarrow> (string \<times> json) list option" where
  "strict_value Doc_unit = Some JNull"
| "strict_value (Doc_bool b) = Some (JBool b)"
| "strict_value (Doc_int n) = Some (JInt n)"
| "strict_value (Doc_f64 w) = None"
| "strict_value (Doc_str s) = Some (JStr s)"
| "strict_value (Doc_seq xs) = map_option JArr (strict_seq xs [])"
| "strict_value (Doc_map ms) = map_option JObj (strict_map ms [])"
| "strict_seq [] vs = Some vs"
| "strict_seq (x # xs) vs = Option.bind (strict_value x) (\<lambda>v. strict_seq xs (vs @ [v]))"
| "strict_map [] fs = Some fs"
| "strict_map ((k, x) # ms) fs =
     (if map_of fs k \<noteq> None then None
      else Option.bind (strict_value x) (\<lambda>v. strict_map ms (upd k v fs)))"

definition parse_strict_json :: "(string \<Rightarrow> document option) \<Rightarrow> string \<Rightarrow> conversation_error + json" where
  "parse_strict_json read bytes =
     rbind (ok_or InvalidTaskInput (read bytes)) (\<lambda>document. ok_or InvalidTaskInput (strict_value document))"

subsection \<open>What a strict document is\<close>

fun strict :: "document \<Rightarrow> bool" where
  \<comment> \<open>no floating-point number, and the keys of each object are distinct\<close>
  "strict (Doc_f64 w) = False"
| "strict (Doc_seq xs) = (\<forall>x \<in> set xs. strict x)"
| "strict (Doc_map ms) = (distinct (map fst ms) \<and> (\<forall>m \<in> set ms. strict (snd m)))"
| "strict _ = True"

fun plain_value :: "document \<Rightarrow> json" where
  \<comment> \<open>what \<open>serde_json\<close> itself makes of the document, where the last of several members with a key wins\<close>
  "plain_value Doc_unit = JNull"
| "plain_value (Doc_bool b) = JBool b"
| "plain_value (Doc_int n) = JInt n"
| "plain_value (Doc_f64 w) = JFloat w"
| "plain_value (Doc_str s) = JStr s"
| "plain_value (Doc_seq xs) = JArr (map plain_value xs)"
| "plain_value (Doc_map ms) = jobj (map (\<lambda>m. (fst m, plain_value (snd m))) ms)"

lemma strict_value_eq:
  "strict_value x = (if strict x then Some (plain_value x) else None)"
  "strict_seq xs vs = (if \<forall>x \<in> set xs. strict x then Some (vs @ map plain_value xs) else None)"
  "strict_map ms fs = (if distinct (map fst ms) \<and> fst ` set ms \<inter> fst ` set fs = {} \<and> (\<forall>m \<in> set ms. strict (snd m))
     then Some (fold (\<lambda>(k, v) m. upd k v m) (map (\<lambda>m. (fst m, plain_value (snd m))) ms) fs) else None)"
proof (induction x and xs vs and ms fs rule: strict_value_strict_seq_strict_map.induct)
  case (11 k x ms fs)
  have keys: "fst ` set (upd k v fs) = insert k (fst ` set fs)" for v by (simp add: keys_upd)
  show ?case
  proof (cases "map_of fs k")
    case None
    then have "k \<notin> fst ` set fs" by (simp add: map_of_eq_None_iff)
    then show ?thesis using 11 None keys by auto
  next
    case (Some v)
    then have "k \<in> fst ` set fs" by (metis map_of_eq_None_iff option.distinct(1))
    then show ?thesis using Some by simp
  qed
qed (auto simp: jobj_def)

lemma plain_value_wf: "wf_json (plain_value x)"
  by (induction x rule: plain_value.induct) (auto intro!: wf_jobj)

lemma plain_value_exact: "strict x \<Longrightarrow> exact (plain_value x)"
  by (induction x rule: plain_value.induct) (auto intro!: exact_jobj)

text \<open>
  C33: A body is read strictly.  It is accepted exactly when the deserializer reads it and no object repeats a key
  and no number is a floating-point number; the result is the value of the document, its objects have ordered and
  distinct keys and its numbers are integers; every other body is \<open>invalid_task_input\<close>.
\<close>

theorem parse_strict_json_spec:
  "parse_strict_json read bytes =
     (case read bytes of
        None \<Rightarrow> Inl InvalidTaskInput
      | Some x \<Rightarrow> if strict x then Inr (plain_value x) else Inl InvalidTaskInput) \<and>
   (\<forall>v. parse_strict_json read bytes = Inr v \<longrightarrow> wf_json v \<and> exact v)"
  using plain_value_wf plain_value_exact
  by (auto simp: parse_strict_json_def strict_value_eq split: option.splits if_splits)

theorem parse_strict_json_spec_witness:
  "parse_strict_json (\<lambda>_. Some (Doc_map [(''b'', Doc_int 1), (''a'', Doc_seq [Doc_str ''x''])])) [] =
     Inr (jobj [(''b'', JInt 1), (''a'', JArr [JStr ''x''])]) \<and>
   wf_json (jobj [(''b'', JInt 1), (''a'', JArr [JStr ''x''])]) \<and> exact (jobj [(''b'', JInt 1), (''a'', JArr [JStr ''x''])]) \<and>
   parse_strict_json (\<lambda>_. Some (Doc_map [(''a'', Doc_int 1), (''a'', Doc_int 1)])) [] = Inl InvalidTaskInput"
proof -
  let ?v = "jobj [(''b'', JInt 1), (''a'', JArr [JStr ''x''])]"
  have "parse_strict_json (\<lambda>_. Some (Doc_map [(''b'', Doc_int 1), (''a'', Doc_seq [Doc_str ''x''])])) [] = Inr ?v"
    using conjunct1 [OF parse_strict_json_spec [of "\<lambda>_. Some (Doc_map [(''b'', Doc_int 1), (''a'', Doc_seq [Doc_str ''x''])])" "[]"]] by simp
  moreover from this have "wf_json ?v \<and> exact ?v"
    using conjunct2 [OF parse_strict_json_spec [of "\<lambda>_. Some (Doc_map [(''b'', Doc_int 1), (''a'', Doc_seq [Doc_str ''x''])])" "[]"]] by blast
  moreover have "parse_strict_json (\<lambda>_. Some (Doc_map [(''a'', Doc_int 1), (''a'', Doc_int 1)])) [] = Inl InvalidTaskInput"
    using conjunct1 [OF parse_strict_json_spec [of "\<lambda>_. Some (Doc_map [(''a'', Doc_int 1), (''a'', Doc_int 1)])" "[]"]] by simp
  ultimately show ?thesis by blast
qed

end
