(* ===== verification/Service_Prelude.thy ===== *)
theory Service_Prelude
  imports Conversation_Protocol
begin

text \<open>
  What the HTTP surface, the catalog bridge and the configuration share: \<open>str::parse\<close> for unsigned integers, and
  the bounded tables of cursors, which are hash maps guarded by a mutex.  A hash map is an association list with
  distinct keys; \<open>pick\<close> is the key its iterator yields first, which Rust leaves open.
\<close>

definition parse_unsigned :: "nat \<Rightarrow> string \<Rightarrow> nat option" where
  \<comment> \<open>\<open>str::parse\<close> at a type of so many bits: one leading plus sign is allowed, a value out of range is an error\<close>
  "parse_unsigned w s =
     (let digits = (if s \<noteq> [] \<and> hd s = CHR ''+'' then tl s else s)
      in if digits = [] then None
         else Option.bind (digits_read 0 digits) (\<lambda>n. if n < 2 ^ w then Some n else None))"


lemma decimal_no_sign: "\<exists>c cs. decimal n = c # cs \<and> c \<noteq> CHR ''+''"
proof (induction n rule: decimal.induct)
  case (1 n)
  have head: "char_of (48 + d) \<noteq> CHR ''+''" if "d < 10" for d :: nat
  proof
    assume "char_of (48 + d) = CHR ''+''"
    then have "byte (char_of (48 + d) :: char) = (43 :: nat)" by simp
    with digit_byte [OF that] show False by simp
  qed
  show ?case
    using 1 head by (subst decimal.simps) auto
qed

lemma parse_unsigned_decimal: "parse_unsigned w (decimal n) = (if n < 2 ^ w then Some n else None)"
proof -
  obtain c cs where c: "decimal n = c # cs" "c \<noteq> CHR ''+''" using decimal_no_sign by blast
  then show ?thesis using digits_read_decimal [of n] by (simp add: parse_unsigned_def)
qed

lemma parse_unsigned_bound: "parse_unsigned w s = Some n \<Longrightarrow> n < 2 ^ w"
  by (auto simp: parse_unsigned_def Let_def split: bind_splits if_splits)

subsection \<open>Cursor tables\<close>

type_synonym 'v cursors = "(string \<times> 'v) list"

definition remember :: "('v cursors \<Rightarrow> string) \<Rightarrow> string \<Rightarrow> 'v \<Rightarrow> 'v cursors \<Rightarrow> 'v cursors" where
  \<comment> \<open>a full table first forgets the key the iterator yields\<close>
  "remember pick cursor v table =
     (let table = (if length table \<ge> 1024 then del (pick table) table else table)
      in (cursor, v) # del cursor table)"

definition picks_key :: "('v cursors \<Rightarrow> string) \<Rightarrow> bool" where
  \<comment> \<open>the iterator of a map that is not empty yields one of its keys\<close>
  "picks_key pick \<longleftrightarrow> (\<forall>table. table \<noteq> [] \<longrightarrow> pick table \<in> fst ` set table)"

definition table_ok :: "'v cursors \<Rightarrow> bool" where
  "table_ok table \<longleftrightarrow> distinct (map fst table) \<and> length table \<le> 1024"

lemma length_del: "distinct (map fst t) \<Longrightarrow> k \<in> fst ` set t \<Longrightarrow> length (del k t) = length t - 1"
proof (induction t)
  case (Cons p t)
  have "del k t = t" if "k \<notin> fst ` set t" using that by (auto simp: del_def filter_id_conv)
  with Cons show ?case by (cases "fst p = k") (auto simp: del_def neq_Nil_conv dest: in_set_conv_decomp [THEN iffD1])
qed simp

lemma distinct_del: "distinct (map fst t) \<Longrightarrow> distinct (map fst (del k t))"
  by (simp add: del_def distinct_map_filter)

lemma remember_lookup: "map_of (remember pick c v t) c = Some v"
  by (simp add: remember_def Let_def)

lemma remember_ok:
  assumes "picks_key pick" "table_ok t"
  shows "table_ok (remember pick c v t)"
proof -
  define t' where "t' = (if length t \<ge> 1024 then del (pick t) t else t)"
  have d: "distinct (map fst t')" using assms(2) by (simp add: t'_def table_ok_def distinct_del)
  have l: "length t' \<le> 1023"
  proof (cases "length t \<ge> 1024")
    case True
    then have "t \<noteq> []" by auto
    then have "pick t \<in> fst ` set t" using assms(1) by (simp add: picks_key_def)
    then show ?thesis using length_del [of t "pick t"] assms(2) True by (simp add: t'_def table_ok_def)
  qed (simp add: t'_def)
  have "length (del c t') \<le> length t'" by (simp add: del_def)
  moreover have "c \<notin> fst ` set (del c t')" by (auto simp: del_def)
  ultimately show ?thesis
    using d l distinct_del [of t' c] by (simp add: remember_def t'_def [symmetric] table_ok_def)
qed

end
