(* ===== verification/Conversation_Service.thy ===== *)
theory Conversation_Service
  imports Conversation_Store Strict_Json Service_Prelude
begin

text \<open>
  \<open>src/conversation_service.rs\<close>: the HTTP surface of the conversations, for browsers and for the agent gateway.
  A request is its method, its headers, its query and its body; a header whose bytes are not visible ASCII
  has the value \<open>None\<close>, and so has a body that cannot be received.  A response is its status, its JSON body if it
  has one, and the headers the service sets itself.  Handlers that call the store return the events they publish and
  the database; \<open>form\<close> is the decoder of query strings of the crate \<open>url\<close>.
\<close>

record http_request =
  hr_method :: string
  hr_headers :: "(string \<times> string option) list"
  hr_query :: "string option"
  hr_body :: "string option"

record http_response =
  rs_status :: nat
  rs_body :: "json option"
  rs_headers :: "(string \<times> string) list"

record 's conversation_integration =
  ig_policy :: conversation_policy
  ig_catalog :: "'s catalog option"
  ig_cursors :: "(string \<times> string) cursors"

definition integration_disabled :: "'s conversation_integration" where
  "integration_disabled = \<lparr>ig_policy = default_policy, ig_catalog = None, ig_cursors = []\<rparr>"

definition integration_new :: "conversation_policy \<Rightarrow> 's catalog option \<Rightarrow> conversation_error + 's conversation_integration" where
  "integration_new policy catalog =
     rbind (validate_policy policy) (\<lambda>_. Inr \<lparr>ig_policy = policy, ig_catalog = catalog, ig_cursors = []\<rparr>)"

definition header_value :: "http_request \<Rightarrow> string \<Rightarrow> string option" where
  "header_value r name = Option.bind (map_of (hr_headers r) name) (\<lambda>v. v)"

definition has_header :: "http_request \<Rightarrow> string \<Rightarrow> bool" where
  "has_header r name \<longleftrightarrow> map_of (hr_headers r) name \<noteq> None"

definition set_header :: "string \<Rightarrow> string \<Rightarrow> http_response \<Rightarrow> http_response" where
  "set_header name v r = r\<lparr>rs_headers := upd name v (rs_headers r)\<rparr>"

definition status_only :: "nat \<Rightarrow> http_response" where
  "status_only n = \<lparr>rs_status = n, rs_body = None, rs_headers = []\<rparr>"

definition json_response :: "nat \<Rightarrow> json \<Rightarrow> http_response" where
  "json_response n v = \<lparr>rs_status = n, rs_body = Some v, rs_headers = []\<rparr>"

fun error_status :: "conversation_error \<Rightarrow> nat" where
  "error_status InvalidTaskInput = 400"
| "error_status AuthenticationRequired = 401"
| "error_status Conversation_Forbidden = 403"
| "error_status SessionUnavailable = 404"
| "error_status ContextTooLarge = 413"
| "error_status RuntimeUnavailable = 503"
| "error_status _ = 409"

definition profile_error :: "conversation_error \<Rightarrow> http_response" where
  "profile_error error =
     json_response (error_status error) (jobj [(''profileVersion'', JStr PROFILE_VERSION), (''code'', JStr (error_code error)),
       (''message'', JStr (error_code error)), (''requestId'', JNull)])"

definition profile_response :: "conversation_error + json \<Rightarrow> http_response" where
  "profile_response result = (case result of Inl error \<Rightarrow> profile_error error | Inr v \<Rightarrow> json_response 200 v)"

definition not_found :: http_response where
  "not_found = profile_error SessionUnavailable"

subsection \<open>Authentication\<close>

definition origin_refused :: "websocket_policy \<Rightarrow> http_request \<Rightarrow> bool" where
  "origin_refused policy r \<longleftrightarrow> has_header r ''origin'' \<and>
     (case header_value r ''origin'' of None \<Rightarrow> True | Some origin \<Rightarrow> \<not> allows_origin policy origin)"

definition preflight_ok :: "http_request \<Rightarrow> bool" where
  "preflight_ok r \<longleftrightarrow> header_value r ''origin'' \<noteq> None \<and>
     header_value r ''access-control-request-method'' \<in> {Some ''GET'', Some ''POST''} \<and>
     list_all (\<lambda>h. to_ascii_lowercase h \<in> {''authorization'', ''content-type''})
       (filter (\<lambda>h. h \<noteq> []) (map trim (split_char (CHR '','')
         (case header_value r ''access-control-request-headers'' of None \<Rightarrow> [] | Some v \<Rightarrow> v))))"

definition preflight_response :: http_response where
  "preflight_response =
     set_header ''access-control-allow-headers'' ''authorization, content-type''
       (set_header ''access-control-allow-methods'' ''GET, POST, OPTIONS'' (status_only 204))"

definition expose :: "http_request \<Rightarrow> http_response \<Rightarrow> http_response" where
  \<comment> \<open>the headers every answer to a browser carries\<close>
  "expose r response =
     (let response = set_header ''cache-control'' ''no-store'' response
      in case header_value r ''origin'' of
           None \<Rightarrow> response
         | Some origin \<Rightarrow> set_header ''vary'' ''Origin'' (set_header ''access-control-allow-origin'' origin response))"

definition authenticate_browser ::
  "ext \<Rightarrow> 'k jwt_lib \<Rightarrow> 'k auth_validator \<Rightarrow> websocket_policy \<Rightarrow> http_request \<Rightarrow> (actor \<Rightarrow> http_response \<times> 'x) \<Rightarrow> 'x \<Rightarrow>
   http_response \<times> 'x" where
  \<comment> \<open>\<open>next\<close> is the rest of the service for an actor, \<open>unchanged\<close> its state before\<close>
  "authenticate_browser E L A policy r next unchanged =
     (if origin_refused policy r
      then (set_header ''cache-control'' ''no-store'' (profile_error Conversation_Forbidden), unchanged)
      else
        let (response, x) =
          (if hr_method r = ''OPTIONS''
           then (if preflight_ok r then preflight_response else profile_error Conversation_Forbidden, unchanged)
           else case authenticate_bearer E L A (header_value r ''authorization'') of
                  None \<Rightarrow> (profile_error AuthenticationRequired, unchanged)
                | Some actor \<Rightarrow>
                    if act_role actor \<noteq> Human then (profile_error Conversation_Forbidden, unchanged) else next actor)
        in (expose r response, x))"

definition authenticate_workload ::
  "'k jwt_lib \<Rightarrow> 'k auth_validator \<Rightarrow> int \<Rightarrow> http_request \<Rightarrow> http_response \<times> 'x \<Rightarrow> 'x \<Rightarrow> http_response \<times> 'x" where
  "authenticate_workload L A now r next unchanged =
     (if has_header r ''origin'' then (profile_error Conversation_Forbidden, unchanged)
      else
        let (response, x) =
          (case authenticate_agent_gateway_bearer L A now (header_value r ''authorization'') of
             Inr _ \<Rightarrow> next
           | Inl Unauthenticated \<Rightarrow> (profile_error AuthenticationRequired, unchanged)
           | Inl Forbidden_workload \<Rightarrow> (profile_error Conversation_Forbidden, unchanged))
        in (set_header ''cache-control'' ''no-store'' response, x))"

subsection \<open>Reading a request\<close>

definition canonical_uuid :: "ext \<Rightarrow> string \<Rightarrow> conversation_error + uuid" where
  "canonical_uuid E s =
     rbind (ok_or InvalidTaskInput (uuid_parse E s)) (\<lambda>u.
       if uuid_text E u \<noteq> s then Inl InvalidTaskInput else Inr u)"

definition lease_header :: "ext \<Rightarrow> http_request \<Rightarrow> conversation_error + uuid" where
  "lease_header E r =
     rbind (ok_or Conversation_Forbidden (header_value r ''x-thought-khoral-lease-token'')) (\<lambda>v.
       map_err (\<lambda>_. Conversation_Forbidden) (canonical_uuid E v))"

definition no_query :: "http_request \<Rightarrow> conversation_error + unit" where
  "no_query r = ensure InvalidTaskInput (hr_query r = None)"

definition json_content :: "http_request \<Rightarrow> bool" where
  "json_content r \<longleftrightarrow>
     (case header_value r ''content-type'' of
        None \<Rightarrow> False
      | Some v \<Rightarrow> trim (hd (split_char (CHR '';'') v)) = ''application/json'')"

definition json_body :: "(string \<Rightarrow> document option) \<Rightarrow> http_request \<Rightarrow> conversation_error + json" where
  "json_body read r =
     rbind (no_query r) (\<lambda>_.
     rbind (ensure InvalidTaskInput (json_content r)) (\<lambda>_.
     rbind (ok_or ContextTooLarge (hr_body r)) (\<lambda>bytes.
     rbind (ensure ContextTooLarge (length bytes \<le> 1048576)) (\<lambda>_.
       parse_strict_json read bytes))))"

subsection \<open>Handlers for browsers\<close>

definition published :: "room_event option \<Rightarrow> room_event list" where
  "published event = (case event of None \<Rightarrow> [] | Some e \<Rightarrow> [e])"

definition turn_handler ::
  "ext \<Rightarrow> 's conversation_integration \<Rightarrow> (room_participant list \<Rightarrow> room_participant list) \<times> presence \<Rightarrow> (nat \<Rightarrow> uuid) \<Rightarrow>
   (nat \<Rightarrow> timestamp) \<Rightarrow> timestamp \<Rightarrow> (string \<Rightarrow> document option) \<Rightarrow> actor \<Rightarrow> http_request \<Rightarrow> 's \<Rightarrow> db \<Rightarrow>
   http_response \<times> room_event list \<times> 's \<times> db" where
  \<comment> \<open>\<open>now\<close> stands in for an expiry out of the range of instants\<close>
  "turn_handler E integration state fresh clock now read actor r s d =
     (case rbind (json_body read r) (validate_turn_request E) of
        Inl error \<Rightarrow> (profile_error error, [], s, d)
      | Inr request \<Rightarrow>
          let catalog = (case ig_catalog integration of None \<Rightarrow> unavailable_catalog | Some c \<Rightarrow> c);
              expiry = (case from_timestamp E (act_expires_at actor) of None \<Rightarrow> now | Some t \<Rightarrow> t)
          in case reserve_inner E (ig_policy integration) (Some state) (Some catalog) fresh clock actor request expiry s d of
               (Inl error, s) \<Rightarrow> (profile_error error, [], s, d)
             | (Inr (outcome, d), s) \<Rightarrow> (json_response 202 (rv_accepted outcome), published (rv_prompt outcome), s, d))"

definition resolved_settings :: "ext \<Rightarrow> uuid \<Rightarrow> uuid \<Rightarrow> json \<Rightarrow> json" where
  "resolved_settings E room agent selected =
     jobj [(''profileVersion'', JStr PROFILE_VERSION), (''roomId'', juuid E room), (''agentId'', juuid E agent),
           (''selectedSettings'', selected)]"

definition catalog_accepts ::
  "ext \<Rightarrow> 's catalog \<Rightarrow> conversation_policy \<Rightarrow> json \<Rightarrow> 's \<Rightarrow> (conversation_error + unit) \<times> 's" where
  \<comment> \<open>the check under the timeout, with every error mapped\<close>
  "catalog_accepts E catalog policy selected s =
     (case validate_catalog_selection E catalog policy selected s of
        (Some (Inr _), s) \<Rightarrow> (Inr (), s)
      | (_, s) \<Rightarrow> (Inl RuntimeUnavailable, s))"

definition defaults_prepare ::
  "ext \<Rightarrow> 's conversation_integration \<Rightarrow> timestamp \<Rightarrow> (string \<times> string) option \<Rightarrow> actor \<Rightarrow> http_request \<Rightarrow>
   conversation_error + (uuid \<times> uuid \<times> timestamp \<times> 's catalog \<times> json)" where
  \<comment> \<open>\<open>defaults\<close> up to the catalog; \<open>None\<close> is a path that axum could not extract\<close>
  "defaults_prepare E integration now path actor r =
     rbind (ok_or InvalidTaskInput path) (\<lambda>(room, agent).
     rbind (no_query r) (\<lambda>_.
     rbind (canonical_uuid E room) (\<lambda>room_id.
     rbind (canonical_uuid E agent) (\<lambda>agent_id.
     rbind (ensure SessionUnavailable (agent_id = CODEX_AGENT_ID)) (\<lambda>_.
     rbind (ok_or AuthenticationRequired (from_timestamp E (act_expires_at actor))) (\<lambda>expiry.
     rbind (authorize_conversation_turn E actor expiry now 0) (\<lambda>_.
     rbind (ensure RuntimeUnavailable (cp_enabled (ig_policy integration))) (\<lambda>_.
     rbind (ok_or RuntimeUnavailable (ig_catalog integration)) (\<lambda>catalog.
     rbind (map_err (\<lambda>_. RuntimeUnavailable) (resolve_settings (ig_policy integration) None)) (\<lambda>selected.
       Inr (room_id, agent_id, expiry, catalog, selected)))))))))))"

definition defaults_handler ::
  "ext \<Rightarrow> 's conversation_integration \<Rightarrow> (nat \<Rightarrow> timestamp) \<Rightarrow> (string \<times> string) option \<Rightarrow> actor \<Rightarrow> http_request \<Rightarrow> 's \<Rightarrow>
   http_response \<times> 's" where
  "defaults_handler E integration clock path actor r s =
     (case defaults_prepare E integration (clock 0) path actor r of
        Inl error \<Rightarrow> (profile_error error, s)
      | Inr (room, agent, expiry, catalog, selected) \<Rightarrow>
          (case catalog_accepts E catalog (ig_policy integration) selected s of
             (Inl error, s) \<Rightarrow> (profile_error error, s)
           | (Inr _, s) \<Rightarrow>
               (profile_response
                  (rbind (authorize_conversation_turn E actor expiry (clock 1) 0) (\<lambda>_.
                   let view = resolved_settings E room agent selected
                   in rbind (validate_profile_value E ''resolved-settings'' view) (\<lambda>_. Inr view))), s)))"

definition conversation_handler ::
  "ext \<Rightarrow> 's conversation_integration \<Rightarrow> string \<Rightarrow> string \<Rightarrow> http_request \<Rightarrow> db \<Rightarrow> http_response" where
  "conversation_handler E integration room agent r d =
     profile_response
       (rbind (no_query r) (\<lambda>_.
        rbind (canonical_uuid E room) (\<lambda>room.
        rbind (canonical_uuid E agent) (\<lambda>agent.
          conversation_view E (ig_policy integration) room agent d))))"

definition task_view_handler ::
  "ext \<Rightarrow> 's conversation_integration \<Rightarrow> string \<Rightarrow> string \<Rightarrow> http_request \<Rightarrow> db \<Rightarrow> http_response" where
  "task_view_handler E integration room task r d =
     profile_response
       (rbind (no_query r) (\<lambda>_.
        rbind (canonical_uuid E room) (\<lambda>room.
        rbind (canonical_uuid E task) (\<lambda>task.
          task_view E (ig_policy integration) room task d))))"

subsection \<open>The models of the catalog\<close>

fun model_query :: "(string \<times> string) list \<Rightarrow> string list \<Rightarrow> nat \<Rightarrow> string option \<Rightarrow> conversation_error + (nat \<times> string option)" where
  \<comment> \<open>the loop over the parameters with the keys seen\<close>
  "model_query [] keys limit cursor = Inr (limit, cursor)"
| "model_query ((key, v) # pairs) keys limit cursor =
     (if key \<in> set keys then Inl InvalidTaskInput
      else if key = ''limit'' then
        rbind (ok_or InvalidTaskInput (parse_unsigned 64 v)) (\<lambda>limit.
          if \<not> (1 \<le> limit \<and> limit \<le> 100) then Inl InvalidTaskInput
          else model_query pairs (key # keys) limit cursor)
      else if key = ''cursor'' then
        (if v = [] \<or> char_count v > 256 then Inl InvalidTaskInput
         else model_query pairs (key # keys) limit (Some v))
      else Inl InvalidTaskInput)"

definition provider_cursor ::
  "conversation_policy \<Rightarrow> (string \<times> string) cursors \<Rightarrow> string option \<Rightarrow> conversation_error + string option" where
  "provider_cursor policy cursors cursor =
     (case cursor of
        None \<Rightarrow> Inr None
      | Some c \<Rightarrow>
          rbind (ok_or ConversationStale (map_of cursors c)) (\<lambda>(revision, provider).
            if revision \<noteq> cp_catalog_revision policy then Inl ConversationStale else Inr (Some provider)))"

definition narrow_model :: "conversation_policy \<Rightarrow> json \<Rightarrow> json option" where
  \<comment> \<open>\<open>retain_mut\<close>: a model the policy allows, with the efforts it allows; a matching model is an object\<close>
  "narrow_model policy model =
     (case find (\<lambda>allowed. jidx model ''id'' = JStr (cm_id allowed)) (cp_models policy) of
        None \<Rightarrow> None
      | Some allowed \<Rightarrow>
          (case as_array (jidx model ''supportedReasoningEfforts'') of
             None \<Rightarrow> None
           | Some efforts \<Rightarrow>
               let kept = filter (\<lambda>effort. list_ex (\<lambda>i. jidx effort ''id'' = JStr i) (cm_reasoning_efforts allowed)) efforts;
                   model = jset model ''supportedReasoningEfforts'' (JArr kept);
                   model = (if list_ex (\<lambda>i. jidx model ''defaultReasoningEffort'' = JStr i) (cm_reasoning_efforts allowed)
                            then model else jset model ''defaultReasoningEffort'' JNull)
               in if kept = [] then None else Some model))"

definition models_prepare ::
  "ext \<Rightarrow> (string \<Rightarrow> (string \<times> string) list) \<Rightarrow> 's conversation_integration \<Rightarrow> string \<Rightarrow> string \<Rightarrow> http_request \<Rightarrow>
   conversation_error + (nat \<times> string option \<times> 's catalog)" where
  "models_prepare E form integration room agent r =
     rbind (canonical_uuid E room) (\<lambda>_.
     rbind (canonical_uuid E agent) (\<lambda>agent.
     rbind (ensure Conversation_Forbidden (agent = CODEX_AGENT_ID)) (\<lambda>_.
     rbind (model_query (form (case hr_query r of None \<Rightarrow> [] | Some q \<Rightarrow> q)) [] 100 None) (\<lambda>(limit, cursor).
     rbind (ensure RuntimeUnavailable (cp_enabled (ig_policy integration))) (\<lambda>_.
     rbind (provider_cursor (ig_policy integration) (ig_cursors integration) cursor) (\<lambda>provider.
     rbind (ok_or RuntimeUnavailable (ig_catalog integration)) (\<lambda>catalog.
       Inr (limit, provider, catalog))))))))"

definition narrow_page :: "ext \<Rightarrow> conversation_policy \<Rightarrow> nat \<Rightarrow> json \<Rightarrow> conversation_error + json" where
  "narrow_page E policy limit page =
     rbind (validate_catalog E page policy) (\<lambda>_.
     rbind (ok_or RuntimeUnavailable (as_array (jidx page ''data''))) (\<lambda>data.
     rbind (ensure RuntimeUnavailable (length data \<le> limit)) (\<lambda>_.
       Inr (jset page ''data'' (JArr (List.map_filter (narrow_model policy) data))))))"

definition issue_cursor ::
  "ext \<Rightarrow> ((string \<times> string) cursors \<Rightarrow> string) \<Rightarrow> conversation_policy \<Rightarrow> uuid \<Rightarrow> json \<Rightarrow> (string \<times> string) cursors \<Rightarrow>
   json \<times> (string \<times> string) cursors" where
  \<comment> \<open>the provider's cursor is kept, the browser gets an opaque one\<close>
  "issue_cursor E pick policy fresh page cursors =
     (case as_str (jidx page ''nextCursor'') of
        None \<Rightarrow> (page, cursors)
      | Some next \<Rightarrow>
          (jset page ''nextCursor'' (juuid E fresh),
           remember pick (uuid_text E fresh) (cp_catalog_revision policy, next) cursors))"

definition models_handler ::
  "ext \<Rightarrow> (string \<Rightarrow> (string \<times> string) list) \<Rightarrow> ((string \<times> string) cursors \<Rightarrow> string) \<Rightarrow> uuid \<Rightarrow> 's conversation_integration \<Rightarrow>
   string \<Rightarrow> string \<Rightarrow> http_request \<Rightarrow> 's \<Rightarrow> http_response \<times> (string \<times> string) cursors \<times> 's" where
  "models_handler E form pick fresh integration room agent r s =
     (let policy = ig_policy integration; cursors = ig_cursors integration
      in case models_prepare E form integration room agent r of
           Inl error \<Rightarrow> (profile_error error, cursors, s)
         | Inr (limit, provider, catalog) \<Rightarrow>
             (case catalog CODEX_AGENT_ID provider limit s of
                (None, s) \<Rightarrow> (profile_error RuntimeUnavailable, cursors, s)
              | (Some (Inl error), s) \<Rightarrow> (profile_error error, cursors, s)
              | (Some (Inr page), s) \<Rightarrow>
                  (case narrow_page E policy limit page of
                     Inl error \<Rightarrow> (profile_error error, cursors, s)
                   | Inr page \<Rightarrow>
                       let (page, cursors) = issue_cursor E pick policy fresh page cursors
                       in (profile_response (rbind (validate_profile_value E ''catalog'' page) (\<lambda>_. Inr page)), cursors, s))))"

subsection \<open>Handlers for the agent gateway\<close>

definition claim_handler ::
  "ext \<Rightarrow> 's conversation_integration \<Rightarrow> (string \<Rightarrow> document option) \<Rightarrow> (nat \<Rightarrow> claim_input) \<Rightarrow> (nat \<Rightarrow> db \<Rightarrow> db) \<Rightarrow> http_request \<Rightarrow> db \<Rightarrow>
   http_response \<times> db" where
  "claim_handler E integration read inputs others r d =
     (case rbind (json_body read r) (\<lambda>request.
        rbind (ensure InvalidTaskInput
          ((case as_object request of None \<Rightarrow> False | Some fs \<Rightarrow> length fs = 2) \<and>
           jidx request ''agentId'' = juuid E CODEX_AGENT_ID)) (\<lambda>_.
          ok_or InvalidTaskInput (as_str (jidx request ''leaseOwner'')))) of
        Inl error \<Rightarrow> (profile_error error, d)
      | Inr owner \<Rightarrow>
          (case claim_turn E (ig_policy integration) owner inputs others d of
             (Inl error, d) \<Rightarrow> (profile_error error, d)
           | (Inr None, d) \<Rightarrow> (status_only 204, d)
           | (Inr (Some v), d) \<Rightarrow> (json_response 200 v, d)))"

definition task_and_lease :: "ext \<Rightarrow> string \<Rightarrow> http_request \<Rightarrow> conversation_error + (uuid \<times> uuid)" where
  "task_and_lease E task r =
     rbind (no_query r) (\<lambda>_.
     rbind (canonical_uuid E task) (\<lambda>task.
     rbind (lease_header E r) (\<lambda>lease. Inr (task, lease))))"

definition context_handler ::
  "ext \<Rightarrow> 's conversation_integration \<Rightarrow> timestamp \<Rightarrow> timestamp \<Rightarrow> uuid \<Rightarrow> string \<Rightarrow> http_request \<Rightarrow> db \<Rightarrow> http_response \<times> db" where
  "context_handler E integration db_now now failure_id task r d =
     (case task_and_lease E task r of
        Inl error \<Rightarrow> (profile_error error, d)
      | Inr (task, lease) \<Rightarrow>
          (case turn_packet E (ig_policy integration) db_now now failure_id task lease d of
             (result, d) \<Rightarrow> (profile_response result, d)))"

definition authority_of :: "json \<Rightarrow> json" where
  "authority_of packet =
     jobj [(''profileVersion'', JStr PROFILE_VERSION), (''taskId'', jidx packet ''taskId''),
           (''generation'', jidx (jidx packet ''conversation'') ''generation''),
           (''contextDigest'', jidx (jidx packet ''context'') ''digest''), (''expiresAt'', jidx packet ''expiresAt''),
           (''authorizationExpiresAt'', jidx packet ''authorizationExpiresAt'')]"

definition authority_handler ::
  "ext \<Rightarrow> 's conversation_integration \<Rightarrow> timestamp \<Rightarrow> timestamp \<Rightarrow> uuid \<Rightarrow> string \<Rightarrow> http_request \<Rightarrow> db \<Rightarrow> http_response \<times> db" where
  "authority_handler E integration db_now now failure_id task r d =
     (case task_and_lease E task r of
        Inl error \<Rightarrow> (profile_error error, d)
      | Inr (task, lease) \<Rightarrow>
          (case turn_packet E (ig_policy integration) db_now now failure_id task lease d of
             (result, d) \<Rightarrow> (profile_response (rbind result (\<lambda>packet. Inr (authority_of packet))), d)))"

definition receipt_handler :: "ext \<Rightarrow> 's conversation_integration \<Rightarrow> string \<Rightarrow> http_request \<Rightarrow> db \<Rightarrow> http_response" where
  "receipt_handler E integration task r d =
     profile_response
       (rbind (no_query r) (\<lambda>_.
        rbind (canonical_uuid E task) (\<lambda>task. receipt E (ig_policy integration) task d)))"

definition update_handler ::
  "ext \<Rightarrow> 's conversation_integration \<Rightarrow> (string \<Rightarrow> document option) \<Rightarrow> timestamp \<Rightarrow> (nat \<Rightarrow> timestamp) \<Rightarrow> uuid \<Rightarrow> uuid \<Rightarrow> string \<Rightarrow>
   http_request \<Rightarrow> db \<Rightarrow> http_response \<times> room_event list \<times> db" where
  "update_handler E integration read db_now clock event_id failure_id task r d =
     (case rbind (lease_header E r) (\<lambda>lease.
        rbind (json_body read r) (\<lambda>request.
        rbind (canonical_uuid E task) (\<lambda>task. Inr (task, lease, request)))) of
        Inl error \<Rightarrow> (profile_error error, [], d)
      | Inr (task, lease, request) \<Rightarrow>
          (case record_update E (ig_policy integration) db_now clock event_id failure_id task lease request d of
             (Inl error, d) \<Rightarrow> (profile_error error, [], d)
           | (Inr outcome, d) \<Rightarrow> (json_response 200 (uo_response outcome), published (uo_event outcome), d)))"

subsection \<open>The two surfaces\<close>

datatype browser_route =
    Turns
  | Conversation_of string string
  | Models_of string string
  | Defaults_of "(string \<times> string) option"
  | Task_of string string
  | Unknown_browser_route
  | Browser_rejection nat \<comment> \<open>the router's own answer: a method the route has not, a path that is not UTF-8\<close>

datatype workload_route =
    Claim_route
  | Context_route string
  | Updates_route string
  | Authority_route string
  | Receipt_route string
  | Unknown_workload_route
  | Workload_rejection nat

record 's service =
  sv_integration :: "'s conversation_integration"
  sv_provider :: 's
  sv_db :: db
  sv_published :: "room_event list"

record surroundings =
  \<comment> \<open>what a request meets: the people in the rooms, fresh identifiers, clocks, decoders and other transactions\<close>
  su_rooms :: "(room_participant list \<Rightarrow> room_participant list) \<times> presence"
  su_fresh :: "nat \<Rightarrow> uuid"
  su_clock :: "nat \<Rightarrow> timestamp"
  su_now :: timestamp
  su_db_now :: timestamp
  su_read :: "string \<Rightarrow> document option"
  su_form :: "string \<Rightarrow> (string \<times> string) list"
  su_pick :: "(string \<times> string) cursors \<Rightarrow> string"
  su_claims :: "nat \<Rightarrow> claim_input"
  su_others :: "nat \<Rightarrow> db \<Rightarrow> db"

definition serve_browser ::
  "ext \<Rightarrow> surroundings \<Rightarrow> browser_route \<Rightarrow> http_request \<Rightarrow> actor \<Rightarrow> 's service \<Rightarrow> http_response \<times> 's service" where
  "serve_browser E u route r actor sv =
     (case route of
        Turns \<Rightarrow>
          (case turn_handler E (sv_integration sv) (su_rooms u) (su_fresh u) (su_clock u) (su_now u) (su_read u) actor r
                  (sv_provider sv) (sv_db sv) of
             (response, events, s, d) \<Rightarrow>
               (response, sv\<lparr>sv_provider := s, sv_db := d, sv_published := sv_published sv @ events\<rparr>))
      | Conversation_of room agent \<Rightarrow> (conversation_handler E (sv_integration sv) room agent r (sv_db sv), sv)
      | Models_of room agent \<Rightarrow>
          (case models_handler E (su_form u) (su_pick u) (su_fresh u 0) (sv_integration sv) room agent r (sv_provider sv) of
             (response, cursors, s) \<Rightarrow>
               (response, sv\<lparr>sv_integration := (sv_integration sv)\<lparr>ig_cursors := cursors\<rparr>, sv_provider := s\<rparr>))
      | Defaults_of path \<Rightarrow>
          (case defaults_handler E (sv_integration sv) (su_clock u) path actor r (sv_provider sv) of
             (response, s) \<Rightarrow> (response, sv\<lparr>sv_provider := s\<rparr>))
      | Task_of room task \<Rightarrow> (task_view_handler E (sv_integration sv) room task r (sv_db sv), sv)
      | Unknown_browser_route \<Rightarrow> (not_found, sv)
      | Browser_rejection status \<Rightarrow> (status_only status, sv))"

definition browser_service ::
  "ext \<Rightarrow> 'k jwt_lib \<Rightarrow> 'k auth_validator \<Rightarrow> websocket_policy \<Rightarrow> surroundings \<Rightarrow> browser_route \<Rightarrow> http_request \<Rightarrow> 's service \<Rightarrow>
   http_response \<times> 's service" where
  \<comment> \<open>the route is what the router made of the method and the path\<close>
  "browser_service E L A policy u route r sv =
     authenticate_browser E L A policy r (\<lambda>actor. serve_browser E u route r actor sv) sv"

definition serve_workload ::
  "ext \<Rightarrow> surroundings \<Rightarrow> workload_route \<Rightarrow> http_request \<Rightarrow> 's service \<Rightarrow> http_response \<times> 's service" where
  "serve_workload E u route r sv =
     (case route of
        Claim_route \<Rightarrow>
          (case claim_handler E (sv_integration sv) (su_read u) (su_claims u) (su_others u) r (sv_db sv) of
             (response, d) \<Rightarrow> (response, sv\<lparr>sv_db := d\<rparr>))
      | Context_route task \<Rightarrow>
          (case context_handler E (sv_integration sv) (su_db_now u) (su_now u) (su_fresh u 0) task r (sv_db sv) of
             (response, d) \<Rightarrow> (response, sv\<lparr>sv_db := d\<rparr>))
      | Updates_route task \<Rightarrow>
          (case update_handler E (sv_integration sv) (su_read u) (su_db_now u) (su_clock u) (su_fresh u 0) (su_fresh u 1) task r (sv_db sv) of
             (response, events, d) \<Rightarrow> (response, sv\<lparr>sv_db := d, sv_published := sv_published sv @ events\<rparr>))
      | Authority_route task \<Rightarrow>
          (case authority_handler E (sv_integration sv) (su_db_now u) (su_now u) (su_fresh u 0) task r (sv_db sv) of
             (response, d) \<Rightarrow> (response, sv\<lparr>sv_db := d\<rparr>))
      | Receipt_route task \<Rightarrow> (receipt_handler E (sv_integration sv) task r (sv_db sv), sv)
      | Unknown_workload_route \<Rightarrow> (not_found, sv)
      | Workload_rejection status \<Rightarrow> (status_only status, sv))"

definition workload_service ::
  "ext \<Rightarrow> 'k jwt_lib \<Rightarrow> 'k auth_validator \<Rightarrow> int \<Rightarrow> surroundings \<Rightarrow> workload_route \<Rightarrow> http_request \<Rightarrow> 's service \<Rightarrow>
   http_response \<times> 's service" where
  "workload_service E L A now u route r sv =
     authenticate_workload L A now r (serve_workload E u route r sv) sv"

subsection \<open>Who is served\<close>

lemma set_header_simps [simp]:
  "rs_status (set_header k v r) = rs_status r" "rs_body (set_header k v r) = rs_body r"
  "map_of (rs_headers (set_header k v r)) = (map_of (rs_headers r))(k \<mapsto> v)"
  by (simp_all add: set_header_def)

lemma profile_error_simps [simp]: "rs_status (profile_error e) = error_status e" "rs_headers (profile_error e) = []"
  by (simp_all add: profile_error_def json_response_def)

lemma expose_simps [simp]:
  "rs_status (expose r x) = rs_status x" "map_of (rs_headers (expose r x)) ''cache-control'' = Some ''no-store''"
  by (auto simp: expose_def Let_def split: option.splits)

lemma expose_origin:
  assumes "map_of (rs_headers (expose r x)) ''access-control-allow-origin'' = Some origin"
    "map_of (rs_headers x) ''access-control-allow-origin'' = None"
  shows "header_value r ''origin'' = Some origin"
  using assms by (auto simp: expose_def Let_def split: option.splits)

lemma handler_headers:
  "rs_headers (fst (serve_browser E u route r actor sv)) = []"
  by (auto simp: serve_browser_def turn_handler_def json_response_def profile_error_def conversation_handler_def profile_response_def
      models_handler_def defaults_handler_def task_view_handler_def not_found_def status_only_def Let_def
      split: browser_route.splits sum.splits prod.splits option.splits)

text \<open>
  C18: A browser is served only as a person with a valid token, from an allowed origin.  Whatever the request
  changes, and whatever it is told besides that it may not, is for a bearer token of a human actor and an origin
  the policy allows, if it has one; every answer may not be cached, and only an allowed origin may read it.
\<close>

theorem browser_served:
  assumes "browser_service E L A policy u route r sv = (response, sv')"
  shows "map_of (rs_headers response) ''cache-control'' = Some ''no-store'' \<and>
    (\<forall>origin. map_of (rs_headers response) ''access-control-allow-origin'' = Some origin \<longrightarrow> allows_origin policy origin) \<and>
    (sv' \<noteq> sv \<or> rs_status response \<notin> {204, 401, 403} \<longrightarrow>
       (\<exists>actor. authenticate_bearer E L A (header_value r ''authorization'') = Some actor \<and> act_role actor = Human \<and>
          \<not> origin_refused policy r \<and> hr_method r \<noteq> ''OPTIONS'' \<and> sv' = snd (serve_browser E u route r actor sv)))"
proof (cases "origin_refused policy r")
  case True
  then show ?thesis using assms by (auto simp: browser_service_def authenticate_browser_def)
next
  case False
  have allowed: "allows_origin policy origin" if "header_value r ''origin'' = Some origin" for origin
    using that False by (auto simp: origin_refused_def has_header_def header_value_def split: option.splits)
  obtain x where x: "response = expose r (fst x)" "sv' = snd x"
    "x = (if hr_method r = ''OPTIONS''
       then (if preflight_ok r then preflight_response else profile_error Conversation_Forbidden, sv)
       else case authenticate_bearer E L A (header_value r ''authorization'') of
              None \<Rightarrow> (profile_error AuthenticationRequired, sv)
            | Some actor \<Rightarrow>
                if act_role actor \<noteq> Human then (profile_error Conversation_Forbidden, sv) else serve_browser E u route r actor sv)"
    using assms False by (auto simp: browser_service_def authenticate_browser_def Let_def split: prod.splits)
  have "map_of (rs_headers (fst x)) ''access-control-allow-origin'' = None"
    by (auto simp: handler_headers x(3) preflight_response_def status_only_def split: option.splits)
  then have "allows_origin policy origin"
    if "map_of (rs_headers response) ''access-control-allow-origin'' = Some origin" for origin
    using that expose_origin allowed x(1) by blast
  moreover have "map_of (rs_headers response) ''cache-control'' = Some ''no-store''" using x(1) by simp
  moreover have "\<exists>actor. authenticate_bearer E L A (header_value r ''authorization'') = Some actor \<and> act_role actor = Human \<and>
      \<not> origin_refused policy r \<and> hr_method r \<noteq> ''OPTIONS'' \<and> sv' = snd (serve_browser E u route r actor sv)"
    if "sv' \<noteq> sv \<or> rs_status response \<notin> {204, 401, 403}"
    using that False x by (auto simp: preflight_response_def status_only_def split: if_splits option.splits)
  ultimately show ?thesis by blast
qed

text \<open>
  C19: The agent gateway's surface serves nobody else.  Whatever a request changes or is told besides that it may not
  is for a request without an \<open>Origin\<close> header that carries the workload token of the agent gateway.
\<close>

theorem workload_served:
  assumes "workload_service E L A now u route r sv = (response, sv')" "sv' \<noteq> sv \<or> rs_status response \<notin> {401, 403}"
  shows "authenticate_agent_gateway_bearer L A now (header_value r ''authorization'') = Inr () \<and> \<not> has_header r ''origin'' \<and>
    sv' = snd (serve_workload E u route r sv) \<and> rs_status response = rs_status (fst (serve_workload E u route r sv)) \<and>
    rs_body response = rs_body (fst (serve_workload E u route r sv)) \<and>
    map_of (rs_headers response) ''cache-control'' = Some ''no-store''"
  using assms by (auto simp: workload_service_def authenticate_workload_def Let_def split: if_splits sum.splits prod.splits workload_error.splits)

subsection \<open>Which models are shown\<close>

lemma jidx_object: "jidx v k = JStr s \<Longrightarrow> \<exists>fs. v = JObj fs"
  by (cases v) (auto simp: jidx_def)

lemma jidx_jset_object: "jidx (jset (JObj fs) k x) k' = (if k' = k then x else jidx (JObj fs) k')"
  by (simp add: jidx_def)

lemma jset_object: "\<exists>fs'. jset (JObj fs) k x = JObj fs'"
  by simp

definition effort_allowed :: "conversation_model \<Rightarrow> json \<Rightarrow> bool" where
  "effort_allowed allowed effort \<longleftrightarrow> (\<exists>i \<in> set (cm_reasoning_efforts allowed). jidx effort ''id'' = JStr i)"

definition shown_model :: "conversation_policy \<Rightarrow> json \<Rightarrow> bool" where
  \<comment> \<open>the policy allows the model, all its efforts and its default\<close>
  "shown_model policy model \<longleftrightarrow>
     (\<exists>allowed \<in> set (cp_models policy). jidx model ''id'' = JStr (cm_id allowed) \<and>
        elements model ''supportedReasoningEfforts'' \<noteq> [] \<and>
        (\<forall>effort \<in> set (elements model ''supportedReasoningEfforts''). effort_allowed allowed effort) \<and>
        (jidx model ''defaultReasoningEffort'' = JNull \<or>
         (\<exists>i \<in> set (cm_reasoning_efforts allowed). jidx model ''defaultReasoningEffort'' = JStr i)))"

lemma narrow_model_shown:
  assumes "narrow_model policy model = Some model'"
  shows "shown_model policy model'" "jidx model' ''id'' = jidx model ''id''"
proof -
  obtain allowed efforts where a: "find (\<lambda>allowed. jidx model ''id'' = JStr (cm_id allowed)) (cp_models policy) = Some allowed"
    "as_array (jidx model ''supportedReasoningEfforts'') = Some efforts"
    using assms by (auto simp: narrow_model_def split: option.splits)
  then have m: "allowed \<in> set (cp_models policy)" "jidx model ''id'' = JStr (cm_id allowed)" by (auto simp: find_Some_iff)
  obtain fs where fs: "model = JObj fs" using jidx_object [OF m(2)] by blast
  let ?kept = "filter (\<lambda>effort. list_ex (\<lambda>i. jidx effort ''id'' = JStr i) (cm_reasoning_efforts allowed)) efforts"
  have "?kept \<noteq> []" using assms a by (auto simp: narrow_model_def Let_def split: if_splits)
  moreover have "elements model' ''supportedReasoningEfforts'' = ?kept" "jidx model' ''id'' = jidx model ''id''"
    "jidx model' ''defaultReasoningEffort'' = JNull \<or> (\<exists>i \<in> set (cm_reasoning_efforts allowed). jidx model' ''defaultReasoningEffort'' = JStr i)"
    using assms a fs by (auto simp: narrow_model_def Let_def elements_def jidx_jset_object list_ex_iff simp del: jset.simps split: if_splits)
      (auto simp: jidx_def split: if_splits)
  ultimately show "shown_model policy model'" "jidx model' ''id'' = jidx model ''id''"
    using m by (auto simp: shown_model_def effort_allowed_def list_ex_iff)
qed

lemma narrow_model_complete:
  assumes "distinct (map cm_id (cp_models policy))" "allowed \<in> set (cp_models policy)" "jidx model ''id'' = JStr (cm_id allowed)"
    "effort \<in> set (elements model ''supportedReasoningEfforts'')" "effort_allowed allowed effort"
  shows "narrow_model policy model \<noteq> None"
proof -
  have "find (\<lambda>a. jidx model ''id'' = JStr (cm_id a)) (cp_models policy) = Some allowed"
  proof -
    obtain x where x: "find (\<lambda>a. jidx model ''id'' = JStr (cm_id a)) (cp_models policy) = Some x"
      using assms(2,3) by (cases "find (\<lambda>a. jidx model ''id'' = JStr (cm_id a)) (cp_models policy)") (auto simp: find_None_iff)
    then have "x = allowed" using distinct_map_inj [OF assms(1)] assms(2,3) by (auto simp: find_Some_iff)
    with x show ?thesis by simp
  qed
  moreover obtain efforts where "as_array (jidx model ''supportedReasoningEfforts'') = Some efforts" "effort \<in> set efforts"
    using assms(4) by (cases "as_array (jidx model ''supportedReasoningEfforts'')") (auto simp: elements_def)
  ultimately show ?thesis
    using assms(5) by (auto simp: narrow_model_def Let_def effort_allowed_def filter_empty_conv list_ex_iff)
qed

lemma map_filter_set: "set (List.map_filter f xs) = {y. \<exists>x \<in> set xs. f x = Some y}"
  by (induction xs) (auto simp: List.map_filter_simps split: option.splits)

lemma map_filter_length: "length (List.map_filter f xs) \<le> length xs"
  by (induction xs) (auto simp: List.map_filter_simps split: option.splits)

lemma narrow_page_Inr:
  assumes "narrow_page E policy limit page = Inr page'"
  obtains data where "as_array (jidx page ''data'') = Some data" "length data \<le> limit" "validate_catalog E page policy = Inr ()"
    "elements page' ''data'' = List.map_filter (narrow_model policy) data" "jidx page' ''nextCursor'' = jidx page ''nextCursor''"
    "\<exists>fs. page' = JObj fs"
proof -
  from assms obtain data where d: "as_array (jidx page ''data'') = Some data" "length data \<le> limit" "validate_catalog E page policy = Inr ()"
    "page' = jset page ''data'' (JArr (List.map_filter (narrow_model policy) data))"
    by (auto simp: narrow_page_def result_simps)
  then obtain fs where "page = JObj fs" by (cases page) (auto simp: jidx_def)
  then have "elements page' ''data'' = List.map_filter (narrow_model policy) data" "jidx page' ''nextCursor'' = jidx page ''nextCursor''"
    "\<exists>fs. page' = JObj fs"
    using d(4) by (simp_all add: elements_def jidx_def)
  then show thesis by (rule that [OF d(1-3)])
qed


lemma cursors_bounded:
  assumes "picks_key pick" "table_ok (ig_cursors integration)" "models_handler E form pick fresh integration room agent r s = (response, cursors, s')"
  shows "table_ok cursors"
  using assms remember_ok by (auto simp: models_handler_def Let_def issue_cursor_def split: sum.splits prod.splits option.splits)

subsection \<open>Requests\<close>

definition sample_validator :: "nat auth_validator" where
  "sample_validator = \<lparr>auth_issuer = ''iss'', auth_audience = ''aud'', auth_keys = [(''k1'', 7)]\<rparr>"

definition sample_request :: http_request where
  "sample_request = \<lparr>hr_method = ''GET'', hr_headers = [(''authorization'', Some ''bearer tok''), (''origin'', Some ''https://a'')],
     hr_query = None, hr_body = Some []\<rparr>"

definition sample_surroundings :: surroundings where
  "sample_surroundings = \<lparr>su_rooms = (id, \<lambda>_. []), su_fresh = word_of_nat, su_clock = (\<lambda>_. 0), su_now = 0, su_db_now = 0,
     su_read = (\<lambda>_. None), su_form = (\<lambda>_. []), su_pick = (\<lambda>t. fst (hd t)),
     su_claims = (\<lambda>_. \<lparr>ci_db_now = 0, ci_now = 0, ci_token = 0, ci_failure_id = 0\<rparr>), su_others = (\<lambda>_ d. d)\<rparr>"

definition sample_service :: "unit service" where
  "sample_service = \<lparr>sv_integration = integration_disabled, sv_provider = (), sv_db = empty_db, sv_published = []\<rparr>"

lemma sample_authenticated:
  "\<exists>a. authenticate_bearer sample_ext sample_jwt sample_validator (Some ''bearer tok'') = Some a \<and> act_role a = Human"
proof -
  have tok: "bearer_token (Some ''bearer tok'') = Some ''tok''" "contains_ws ''tok'' = False"
    "chars_take 128 (trim ''  Maya '') = ''Maya''" "trim ''  Maya '' = ''Maya''"
    by code_simp+
  then show ?thesis
    by (simp add: authenticate_bearer_def authenticate_access_token_def key_for_def sample_jwt_def sample_validator_def decode_claims_def
        req_field_def opt_field_def display_name_for_def hyphenated_roundtrip i64_min_def i64_max_def Let_def)
qed

theorem browser_served_witness:
  "\<exists>response. browser_service sample_ext sample_jwt sample_validator \<lparr>wp_allowed_origins = [''https://a''], wp_authentication_timeout = 1\<rparr>
       sample_surroundings Unknown_browser_route sample_request sample_service = (response, sample_service) \<and>
     rs_status response = 404 \<and> map_of (rs_headers response) ''cache-control'' = Some ''no-store'' \<and>
     \<not> origin_refused \<lparr>wp_allowed_origins = [''https://a''], wp_authentication_timeout = 1\<rparr> sample_request"
proof -
  let ?p = "\<lparr>wp_allowed_origins = [''https://a''], wp_authentication_timeout = 1\<rparr>"
  have o: "\<not> origin_refused ?p sample_request"
    by (simp add: origin_refused_def sample_request_def header_value_def allows_origin_def)
  obtain a where a: "authenticate_bearer sample_ext sample_jwt sample_validator (Some ''bearer tok'') = Some a" "act_role a = Human"
    using sample_authenticated by blast
  have h: "header_value sample_request ''authorization'' = Some ''bearer tok''" "hr_method sample_request \<noteq> ''OPTIONS''"
    by (simp_all add: sample_request_def header_value_def)
  have b: "browser_service sample_ext sample_jwt sample_validator ?p sample_surroundings Unknown_browser_route sample_request sample_service =
      (expose sample_request not_found, sample_service)"
    using a h o by (simp add: browser_service_def authenticate_browser_def serve_browser_def)
  have "rs_status (expose sample_request not_found) = 404" by (simp add: not_found_def)
  with browser_served [OF b] b o show ?thesis by blast
qed

definition workload_jwt :: "nat jwt_lib" where
  "workload_jwt = sample_jwt\<lparr>jwt_decode := \<lambda>_ _ _. Some (jobj [(''aud'', JStr AGENT_GATEWAY_AUDIENCE),
     (''azp'', JStr AGENT_GATEWAY_CLIENT_ID), (''iat'', JInt 0), (''exp'', JInt 300)])\<rparr>"

lemma workload_authenticated: "authenticate_agent_gateway_bearer workload_jwt sample_validator 0 (Some ''bearer tok'') = Inr ()"
proof -
  have tok: "bearer_token (Some ''bearer tok'') = Some ''tok''" by code_simp
  show ?thesis
    by (simp add: authenticate_agent_gateway_bearer_def tok key_for_def workload_jwt_def sample_jwt_def sample_validator_def
        decode_workload_claims_def req_field_def opt_field_def has_expected_audience_def i64_min_def i64_max_def i64_saturating_sub_def
        MAX_WORKLOAD_TOKEN_LIFETIME_SECONDS_def)
qed

theorem workload_served_witness:
  "\<exists>response. workload_service sample_ext workload_jwt sample_validator 0 sample_surroundings Unknown_workload_route
       (sample_request\<lparr>hr_headers := [(''authorization'', Some ''bearer tok'')]\<rparr>) sample_service = (response, sample_service) \<and>
     rs_status response = 404 \<and> map_of (rs_headers response) ''cache-control'' = Some ''no-store''"
proof -
  let ?r = "sample_request\<lparr>hr_headers := [(''authorization'', Some ''bearer tok'')]\<rparr>"
  have h: "header_value ?r ''authorization'' = Some ''bearer tok''" "\<not> has_header ?r ''origin''"
    by (simp_all add: header_value_def has_header_def)
  have w: "workload_service sample_ext workload_jwt sample_validator 0 sample_surroundings Unknown_workload_route ?r sample_service =
      (set_header ''cache-control'' ''no-store'' not_found, sample_service)"
    using h workload_authenticated by (simp add: workload_service_def authenticate_workload_def serve_workload_def)
  have s: "rs_status (set_header ''cache-control'' ''no-store'' not_found) = 404" by (simp add: not_found_def)
  with workload_served [OF w] w show ?thesis by simp
qed

definition sample_effort :: "string \<Rightarrow> json" where
  "sample_effort i = jobj [(''id'', JStr i)]"

definition sample_page :: json where
  "sample_page = jobj [(''catalogRevision'', JStr ''c''), (''nextCursor'', JStr ''n''),
     (''data'', JArr [jobj [(''id'', JStr ''m''), (''defaultReasoningEffort'', JStr ''x''),
        (''supportedReasoningEfforts'', JArr [sample_effort ''e'', sample_effort ''x''])]])]"

definition paged_integration :: "unit conversation_integration" where
  "paged_integration = \<lparr>ig_policy = sample_policy, ig_catalog = Some (\<lambda>_ _ _ s. (Some (Inr sample_page), s)), ig_cursors = []\<rparr>"

lemma sample_page_safe: "safe_numbers sample_page"
  by (simp add: sample_page_def sample_effort_def jobj_def)

lemma sample_models_prepared:
  "models_prepare sample_ext (\<lambda>_. []) paged_integration (hyphenated_text 8) (hyphenated_text CODEX_AGENT_ID) sample_request =
     Inr (100, None, \<lambda>_ _ _ s. (Some (Inr sample_page), s))"
  by (simp add: models_prepare_def canonical_uuid_def hyphenated_roundtrip paged_integration_def provider_cursor_def)
    (simp add: sample_policy_def)

lemma sample_page_valid: "validate_catalog sample_ext sample_page sample_policy = Inr ()"
proof -
  have "validate_profile_value sample_ext ''catalog'' sample_page = Inr ()" using sample_page_safe by (simp add: validate_profile_value_def)
  moreover have "length (json_text sample_ext sample_page) \<le> 1048576" by (simp add: sample_ext_def)
  ultimately show ?thesis
    by (simp add: validate_catalog_def sample_page_def sample_policy_def sample_effort_def wire_simps)
qed

lemma sample_models:
  "\<exists>response cursors. models_handler sample_ext (\<lambda>_. []) (\<lambda>t. fst (hd t)) 5 paged_integration (hyphenated_text 8)
      (hyphenated_text CODEX_AGENT_ID) sample_request () = (response, cursors, ()) \<and> rs_status response = 200"
proof -
  let ?model = "jset (jset (jobj [(''id'', JStr ''m''), (''defaultReasoningEffort'', JStr ''x''),
        (''supportedReasoningEfforts'', JArr [sample_effort ''e'', sample_effort ''x''])]) ''supportedReasoningEfforts'' (JArr [sample_effort ''e'']))
      ''defaultReasoningEffort'' JNull"
  have model: "narrow_model sample_policy (jobj [(''id'', JStr ''m''), (''defaultReasoningEffort'', JStr ''x''),
        (''supportedReasoningEfforts'', JArr [sample_effort ''e'', sample_effort ''x''])]) = Some ?model"
    by (simp add: narrow_model_def sample_policy_def sample_effort_def wire_simps)
  let ?page = "jset sample_page ''data'' (JArr [?model])"
  have data: "jidx sample_page ''data'' = JArr [jobj [(''id'', JStr ''m''), (''defaultReasoningEffort'', JStr ''x''),
        (''supportedReasoningEfforts'', JArr [sample_effort ''e'', sample_effort ''x''])]]"
    by (simp add: sample_page_def wire_simps)
  have page: "narrow_page sample_ext sample_policy 100 sample_page = Inr ?page"
    by (simp add: narrow_page_def sample_page_valid data model List.map_filter_simps)
  have next_cursor: "jidx ?page ''nextCursor'' = JStr ''n''" by (simp add: sample_page_def wire_simps)
  have "safe_numbers (jset ?page ''nextCursor'' (juuid sample_ext 5))"
    by (simp add: sample_page_def sample_effort_def jobj_def)
  then have "validate_profile_value sample_ext ''catalog'' (jset ?page ''nextCursor'' (juuid sample_ext 5)) = Inr ()"
    by (simp add: validate_profile_value_def)
  then show ?thesis
    using sample_models_prepared page next_cursor
    by (simp add: models_handler_def issue_cursor_def profile_response_def json_response_def paged_integration_def)
qed


end
