(* ===== verification/Catalog_Bridge.thy ===== *)
theory Catalog_Bridge
  imports Conversation_Context Strict_Json Service_Prelude
begin

text \<open>
  \<open>src/catalog_bridge.rs\<close>: the catalog as the gateway asks the agent gateway for it.  The remote service answers with
  the whole catalog; the bridge cuts it into pages and binds each cursor to the digest of the document it was
  cut from.  The HTTP client is the crate \<open>reqwest\<close>: \<open>fetch\<close> is one exchange with it, where a chunk that
  cannot be read is \<open>None\<close>.
\<close>

definition MAX_CATALOG_BYTES :: nat where
  "MAX_CATALOG_BYTES = 1048576"

definition secret_byte :: "char \<Rightarrow> bool" where
  "secret_byte c \<longleftrightarrow> is_ascii_alphanumeric c \<or> c \<in> set ''-._~+/=''"

definition catalog_bridge_secret :: "string \<Rightarrow> conversation_error + string" where
  "catalog_bridge_secret s =
     (if \<not> (32 \<le> length s \<and> length s \<le> 4096) \<or> \<not> list_all secret_byte s then Inl RuntimeUnavailable else Inr s)"

record 's bridge =
  br_cursors :: "(string \<times> nat) cursors"
  br_drawn :: nat \<comment> \<open>how many identifiers were drawn\<close>
  br_remote :: 's

datatype fetched =
    Send_failed
  | Cut_off \<comment> \<open>the timeout of the caller came first\<close>
  | Fetched nat "nat option" "string option list" \<comment> \<open>status, declared length, chunks\<close>

fun read_chunks :: "string option list \<Rightarrow> string \<Rightarrow> conversation_error + string" where
  "read_chunks [] bytes = Inr bytes"
| "read_chunks (None # chunks) bytes = Inl RuntimeUnavailable"
| "read_chunks (Some chunk # chunks) bytes =
     (if length chunk > MAX_CATALOG_BYTES - length bytes then Inl RuntimeUnavailable
      else read_chunks chunks (bytes @ chunk))"

definition receive :: "fetched \<Rightarrow> conversation_error + string" where
  "receive answer =
     (case answer of
        Fetched status declared chunks \<Rightarrow>
          if status \<noteq> 200 \<or> (case declared of None \<Rightarrow> False | Some n \<Rightarrow> n > MAX_CATALOG_BYTES) then Inl RuntimeUnavailable
          else read_chunks chunks []
      | _ \<Rightarrow> Inl RuntimeUnavailable)"

definition whole_catalog :: "ext \<Rightarrow> (string \<Rightarrow> document option) \<Rightarrow> string \<Rightarrow> conversation_error + json" where
  "whole_catalog E read bytes =
     rbind (unavailable (parse_strict_json read bytes)) (\<lambda>page.
     rbind (unavailable (validate_profile_value E ''catalog'' page)) (\<lambda>_.
     rbind (ensure RuntimeUnavailable (is_null (jidx page ''nextCursor''))) (\<lambda>_. Inr page)))"

definition document_digest :: "ext \<Rightarrow> json \<Rightarrow> string" where
  "document_digest E page = sha256_hex E (json_text E page)"

definition cut_page :: "ext \<Rightarrow> (string \<times> nat) option \<Rightarrow> nat \<Rightarrow> json \<Rightarrow> conversation_error + (json \<times> nat option)" where
  \<comment> \<open>the page, and where the next one starts if there is one\<close>
  "cut_page E resume limit page =
     rbind (case resume of
              None \<Rightarrow> Inr 0
            | Some (bound, offset) \<Rightarrow> if bound \<noteq> document_digest E page then Inl ConversationStale else Inr offset) (\<lambda>offset.
     rbind (ok_or RuntimeUnavailable (as_array (jidx page ''data''))) (\<lambda>data.
     rbind (ensure RuntimeUnavailable (offset \<le> length data)) (\<lambda>_.
       let stop = min (offset + limit) (length data)
       in Inr (jset page ''data'' (JArr (take (stop - offset) (drop offset data))),
               if stop < length data then Some stop else None))))"

definition resume_at :: "'s bridge \<Rightarrow> uuid \<Rightarrow> string option \<Rightarrow> nat \<Rightarrow> conversation_error + (string \<times> nat) option" where
  "resume_at b agent cursor limit =
     rbind (ensure RuntimeUnavailable (agent = CODEX_AGENT_ID \<and> 1 \<le> limit \<and> limit \<le> 100)) (\<lambda>_.
       case cursor of
         None \<Rightarrow> Inr None
       | Some c \<Rightarrow> rbind (ok_or RuntimeUnavailable (map_of (br_cursors b) c)) (\<lambda>place. Inr (Some place)))"

definition bridge_page ::
  "ext \<Rightarrow> (string \<Rightarrow> document option) \<Rightarrow> ((string \<times> nat) cursors \<Rightarrow> string) \<Rightarrow> (nat \<Rightarrow> uuid) \<Rightarrow> ('s \<Rightarrow> fetched \<times> 's) \<Rightarrow>
   's bridge catalog" where
  "bridge_page E read pick fresh fetch agent cursor limit b =
     (case resume_at b agent cursor limit of
        Inl error \<Rightarrow> (Some (Inl error), b)
      | Inr resume \<Rightarrow>
          (case fetch (br_remote b) of
             (Cut_off, s) \<Rightarrow> (None, b\<lparr>br_remote := s\<rparr>)
           | (answer, s) \<Rightarrow>
               let b = b\<lparr>br_remote := s\<rparr>
               in case rbind (rbind (receive answer) (whole_catalog E read)) (\<lambda>page.
                         rbind (cut_page E resume limit page) (\<lambda>cut. Inr (document_digest E page, cut))) of
                    Inl error \<Rightarrow> (Some (Inl error), b)
                  | Inr (digest, page, None) \<Rightarrow> (Some (Inr page), b)
                  | Inr (digest, page, Some stop) \<Rightarrow>
                      let cursor = uuid_text E (fresh (br_drawn b))
                      in (Some (Inr (jset page ''nextCursor'' (JStr cursor))),
                          b\<lparr>br_cursors := remember pick cursor (digest, stop) (br_cursors b), br_drawn := Suc (br_drawn b)\<rparr>)))"

subsection \<open>Choosing from a catalog\<close>

definition model_name :: "json \<Rightarrow> string option" where
  "model_name model = as_str (jidx model ''id'')"

definition offered :: "json \<Rightarrow> json list \<Rightarrow> bool" where
  \<comment> \<open>the catalog has the selected model with the selected effort\<close>
  "offered selected models \<longleftrightarrow>
     (\<exists>model \<in> set models. jidx model ''id'' = jidx selected ''model'' \<and>
        (\<exists>effort \<in> set (elements model ''supportedReasoningEfforts''). jidx effort ''id'' = jidx selected ''reasoningEffort''))"

definition proper_models :: "json list \<Rightarrow> bool" where
  "proper_models models \<longleftrightarrow> distinct (map model_name models) \<and>
     (\<forall>model \<in> set models. model_name model \<noteq> None \<and> as_array (jidx model ''supportedReasoningEfforts'') \<noteq> None)"

lemma proper_append: "proper_models (xs @ ys) \<Longrightarrow> proper_models xs \<and> proper_models ys"
  by (simp add: proper_models_def)

lemma proper_distinct:
  assumes "proper_models (xs @ ys)" "x \<in> set xs" "y \<in> set ys"
  shows "model_name x \<noteq> model_name y"
proof -
  have "model_name ` set xs \<inter> model_name ` set ys = {}" using assms(1) by (simp add: proper_models_def)
  moreover have "model_name x \<in> model_name ` set xs" "model_name y \<in> model_name ` set ys" using assms(2,3) by simp_all
  ultimately show ?thesis by (metis IntI empty_iff)
qed

lemma select_models_proper:
  assumes "proper_models ms" "set (map model_name ms) \<inter> Some ` set seen = {}" "\<not> found \<or> (\<forall>m \<in> set ms. jidx m ''id'' \<noteq> jidx selected ''model'')"
  shows "\<exists>seen'. select_models selected ms seen found = Inr (seen', found \<or> offered selected ms) \<and>
    Some ` set seen' = Some ` set seen \<union> set (map model_name ms)"
  using assms
proof (induction ms arbitrary: seen found)
  case Nil
  then show ?case by (simp add: offered_def)
next
  case (Cons m ms)
  obtain i es where m: "as_str (jidx m ''id'') = Some i" "as_array (jidx m ''supportedReasoningEfforts'') = Some es"
    using Cons.prems(1) by (auto simp: proper_models_def model_name_def)
  have p: "proper_models ms" using Cons.prems(1) by (simp add: proper_models_def)
  have new: "i \<notin> set seen" "set (map model_name ms) \<inter> Some ` set (i # seen) = {}"
    using Cons.prems(1,2) m(1) by (auto simp: proper_models_def model_name_def)
  have jidx_m: "jidx m ''id'' = JStr i" using m(1) by (cases "jidx m ''id''") auto
  show ?case
  proof (cases "jidx m ''id'' = jidx selected ''model''")
    case True
    then have f: "\<not> found" using Cons.prems(3) by auto
    have others: "\<forall>x \<in> set ms. jidx x ''id'' \<noteq> jidx selected ''model''"
    proof
      fix x assume "x \<in> set ms"
      then have "model_name x \<noteq> Some i" using Cons.prems(1) m(1) by (auto simp: proper_models_def model_name_def image_iff)
      then show "jidx x ''id'' \<noteq> jidx selected ''model''" using True jidx_m by (metis as_str.simps(1) model_name_def)
    qed
    let ?hit = "list_ex (\<lambda>effort. jidx effort ''id'' = jidx selected ''reasoningEffort'') es"
    obtain seen' where s: "select_models selected ms (i # seen) ?hit = Inr (seen', ?hit \<or> offered selected ms)"
      "Some ` set seen' = Some ` set (i # seen) \<union> set (map model_name ms)"
      using Cons.IH [OF p new(2)] others by blast
    have "\<not> offered selected ms" using others by (auto simp: offered_def)
    moreover have "offered selected (m # ms) \<longleftrightarrow> ?hit \<or> offered selected ms"
      using True m(2) by (auto simp: offered_def elements_def list_ex_iff)
    ultimately show ?thesis using s m new(1) True f by (auto simp: model_name_def)
  next
    case False
    obtain seen' where s: "select_models selected ms (i # seen) found = Inr (seen', found \<or> offered selected ms)"
      "Some ` set seen' = Some ` set (i # seen) \<union> set (map model_name ms)"
      using Cons.IH [OF p new(2), of found] Cons.prems(3) by (meson list.set_intros(2))
    moreover have "offered selected (m # ms) \<longleftrightarrow> offered selected ms" using False by (auto simp: offered_def)
    ultimately show ?thesis using m(1) new(1) False by (auto simp: model_name_def)
  qed
qed

subsection \<open>A catalog in pages\<close>

text \<open>
  What \<open>CatalogQuery\<close> promises to the check of a selection: in a state that offers some models, a cursor stands for a
  place in the list, a page has the models from there on, and it has a next cursor exactly when something is
  left, one that was never given out before.  The budget is how many more fresh cursors there are.
\<close>

locale paged_catalog =
  fixes E :: ext and policy :: conversation_policy and page :: "'s catalog"
    and lists :: "json list \<Rightarrow> 's \<Rightarrow> bool" and bound :: "'s \<Rightarrow> string option \<Rightarrow> nat \<Rightarrow> bool"
    and issued :: "'s \<Rightarrow> string set" and budget :: "'s \<Rightarrow> nat \<Rightarrow> bool"
  assumes start: "bound s None 0"
    and page_step: "lists models s \<Longrightarrow> bound s cursor n \<Longrightarrow> n \<le> length models \<Longrightarrow> budget s (Suc m) \<Longrightarrow>
      \<exists>v s'. page CODEX_AGENT_ID cursor 100 s = (Some (Inr v), s') \<and> lists models s' \<and> budget s' m \<and>
        validate_catalog E v policy = Inr () \<and> jidx v ''data'' = JArr (take 100 (drop n models)) \<and>
        (if n + 100 < length models
         then \<exists>c. as_str (jidx v ''nextCursor'') = Some c \<and> c \<notin> issued s \<and> issued s' = insert c (issued s) \<and> bound s' (Some c) (n + 100)
         else as_str (jidx v ''nextCursor'') = None)"
begin

lemma selection_from:
  assumes "proper_models models" "lists models s" "bound s cursor n" "n \<le> length models" "budget s k"
    "length models - n \<le> 100 * k" "0 < k" "set cursors \<subseteq> issued s" "Some ` set seen = set (map model_name (take n models))"
    "found = offered selected (take n models)"
  shows "fst (selection_pages E page policy selected k cursor cursors seen found s) =
    Some (if offered selected models then Inr () else Inl InvalidTaskInput)"
  using assms(2-10)
proof (induction k arbitrary: s cursor n cursors seen found)
  case (Suc k)
  obtain v s' where v: "page CODEX_AGENT_ID cursor 100 s = (Some (Inr v), s')" "lists models s'" "budget s' k"
    "validate_catalog E v policy = Inr ()" "jidx v ''data'' = JArr (take 100 (drop n models))"
    "if n + 100 < length models
     then \<exists>c. as_str (jidx v ''nextCursor'') = Some c \<and> c \<notin> issued s \<and> issued s' = insert c (issued s) \<and> bound s' (Some c) (n + 100)
     else as_str (jidx v ''nextCursor'') = None"
    using page_step [OF Suc.prems(1-4)] by blast
  let ?part = "take 100 (drop n models)"
  have split: "take (n + 100) models = take n models @ ?part" by (rule take_add)
  have "proper_models (take (n + 100) models @ drop (n + 100) models)" using assms(1) by (simp only: append_take_drop_id)
  then have proper: "proper_models (take n models @ ?part)" using proper_append split by metis
  then have part: "proper_models ?part" "set (map model_name ?part) \<inter> Some ` set seen = {}"
    using proper_append [OF proper] Suc.prems(8) by (auto simp: proper_models_def)
  have "jidx m ''id'' \<noteq> jidx selected ''model''" if m: "found" "m \<in> set ?part" for m
  proof
    assume id: "jidx m ''id'' = jidx selected ''model''"
    obtain x where x: "x \<in> set (take n models)" "jidx x ''id'' = jidx selected ''model''"
      using m(1) Suc.prems(9) by (auto simp: offered_def)
    show False using proper_distinct [OF proper x(1) m(2)] x(2) id by (simp add: model_name_def)
  qed
  then have once: "\<not> found \<or> (\<forall>m \<in> set ?part. jidx m ''id'' \<noteq> jidx selected ''model'')" by blast
  obtain seen' where sel: "select_models selected ?part seen found = Inr (seen', found \<or> offered selected ?part)"
    "Some ` set seen' = Some ` set seen \<union> set (map model_name ?part)"
    using select_models_proper [OF part once] by blast
  have found': "(found \<or> offered selected ?part) = offered selected (take (n + 100) models)"
    using Suc.prems(9) by (auto simp: offered_def split)
  show ?case
  proof (cases "n + 100 < length models")
    case True
    then obtain c where c: "as_str (jidx v ''nextCursor'') = Some c" "c \<notin> issued s" "issued s' = insert c (issued s)" "bound s' (Some c) (n + 100)"
      using v(6) by auto
    have "c \<notin> set cursors" using c(2) Suc.prems(7) by blast
    moreover have "fst (selection_pages E page policy selected k (Some c) (c # cursors) seen' (found \<or> offered selected ?part) s') =
        Some (if offered selected models then Inr () else Inl InvalidTaskInput)"
    proof (rule Suc.IH)
      show "length models - (n + 100) \<le> 100 * k" "0 < k" using Suc.prems(5) True by (auto intro: Nat.gr0I)
      show "Some ` set seen' = set (map model_name (take (n + 100) models))" using sel(2) Suc.prems(8) by (simp add: split)
    qed (use v(2,3) c Suc.prems(7) True found' in auto)
    ultimately show ?thesis using v(1,4,5) sel(1) c(1) by simp
  next
    case False
    then have "take (n + 100) models = models" by simp
    then show ?thesis using v sel(1) False found' by simp
  qed
qed simp

lemma selection_finds:
  assumes "proper_models models" "lists models s" "budget s 100" "length models \<le> 10000"
  shows "fst (validate_catalog_selection E page policy selected s) =
    Some (if offered selected models then Inr () else Inl InvalidTaskInput)"
  unfolding validate_catalog_selection_def
  using selection_from [OF assms(1,2) start, of 100 "[]" "[]" False selected] assms(3,4) by (simp add: offered_def)

end

subsection \<open>The bridge is a catalog in pages\<close>

definition model_sound :: "json \<Rightarrow> bool" where
  "model_sound model \<longleftrightarrow>
     (\<exists>es efforts. as_array (jidx model ''supportedReasoningEfforts'') = Some es \<and> catalog_efforts es [] = Inr efforts \<and>
        (is_null (jidx model ''defaultReasoningEffort'') \<or> as_str (jidx model ''defaultReasoningEffort'') \<in> set efforts))"

lemma catalog_models_iff:
  "catalog_models ms seen = Inr () \<longleftrightarrow>
     distinct (map model_name ms) \<and> set (map model_name ms) \<inter> set seen = {} \<and> (\<forall>m \<in> set ms. model_sound m)"
  by (induction ms arbitrary: seen) (auto simp: model_name_def model_sound_def result_simps)

definition steady :: "('s \<Rightarrow> fetched \<times> 's) \<Rightarrow> fetched \<Rightarrow> 's \<Rightarrow> bool" where
  \<comment> \<open>the remote service gives this answer however often it is asked\<close>
  "steady fetch answer s \<longleftrightarrow> (\<forall>k. fst (fetch (((\<lambda>s. snd (fetch s)) ^^ k) s)) = answer)"

lemma steady_step:
  assumes "steady fetch answer s"
  shows "fst (fetch s) = answer" "steady fetch answer (snd (fetch s))"
proof -
  show "fst (fetch s) = answer" using assms [unfolded steady_def, rule_format, of 0] by simp
  show "steady fetch answer (snd (fetch s))"
    unfolding steady_def
  proof
    fix k
    have "((\<lambda>s. snd (fetch s)) ^^ k) (snd (fetch s)) = ((\<lambda>s. snd (fetch s)) ^^ Suc k) s"
      by (simp only: funpow_Suc_right o_apply)
    then show "fst (fetch (((\<lambda>s. snd (fetch s)) ^^ k) (snd (fetch s)))) = answer"
      using assms [unfolded steady_def, rule_format, of "Suc k"] by simp
  qed
qed

definition page_of :: "json \<Rightarrow> nat \<Rightarrow> nat \<Rightarrow> json" where
  "page_of doc n k = jset doc ''data'' (JArr (take k (drop n (elements doc ''data''))))"

definition pages_accepted :: "ext \<Rightarrow> json \<Rightarrow> bool" where
  \<comment> \<open>the schema of a catalog holds of its pages, with and without a next cursor, and they are not larger than it may be\<close>
  "pages_accepted E doc \<longleftrightarrow>
     (\<forall>n k u. \<forall>v \<in> {page_of doc n k, jset (page_of doc n k) ''nextCursor'' (juuid E u)}.
        validate_profile_value E ''catalog'' v = Inr () \<and> length (json_text E v) \<le> 1048576)"

definition bridge_lists ::
  "ext \<Rightarrow> conversation_policy \<Rightarrow> (string \<Rightarrow> document option) \<Rightarrow> ('s \<Rightarrow> fetched \<times> 's) \<Rightarrow> json \<Rightarrow> json list \<Rightarrow> 's bridge \<Rightarrow> bool" where
  "bridge_lists E policy read fetch doc models b \<longleftrightarrow> uuid_ok E \<and> pages_accepted E doc \<and>
     jidx doc ''catalogRevision'' = JStr (cp_catalog_revision policy) \<and> jidx doc ''data'' = JArr models \<and> proper_models models \<and>
     list_all model_sound models \<and>
     (\<exists>answer. steady fetch answer (br_remote b) \<and> rbind (receive answer) (whole_catalog E read) = Inr doc)"

fun bridge_bound :: "ext \<Rightarrow> json \<Rightarrow> 's bridge \<Rightarrow> string option \<Rightarrow> nat \<Rightarrow> bool" where
  "bridge_bound E doc b None n = (n = 0)"
| "bridge_bound E doc b (Some c) n = (map_of (br_cursors b) c = Some (document_digest E doc, n))"

definition bridge_issued :: "ext \<Rightarrow> (nat \<Rightarrow> uuid) \<Rightarrow> 's bridge \<Rightarrow> string set" where
  "bridge_issued E fresh b = (\<lambda>i. uuid_text E (fresh i)) ` {..<br_drawn b}"

definition bridge_budget :: "(nat \<Rightarrow> uuid) \<Rightarrow> 's bridge \<Rightarrow> nat \<Rightarrow> bool" where
  \<comment> \<open>the next so many identifiers are new\<close>
  "bridge_budget fresh b k \<longleftrightarrow> inj_on fresh {..<br_drawn b + k}"

lemma page_valid:
  assumes "bridge_lists E policy read fetch doc models b" "v \<in> {page_of doc n k, jset (page_of doc n k) ''nextCursor'' (juuid E u)}"
  shows "validate_catalog E v policy = Inr ()" "jidx v ''data'' = JArr (take k (drop n models))"
proof -
  obtain fs where fs: "doc = JObj fs" using assms(1) by (cases doc) (auto simp: bridge_lists_def jidx_def)
  have data: "elements doc ''data'' = models" using assms(1) by (simp add: bridge_lists_def elements_def)
  show d: "jidx v ''data'' = JArr (take k (drop n models))" using assms(2) data by (auto simp: page_of_def fs jidx_def)
  have "jidx v ''catalogRevision'' = JStr (cp_catalog_revision policy)"
    using assms by (auto simp: page_of_def fs jidx_def bridge_lists_def)
  moreover have "validate_profile_value E ''catalog'' v = Inr ()" "length (json_text E v) \<le> 1048576"
    using assms by (auto simp: bridge_lists_def pages_accepted_def)
  moreover have "catalog_models (take k (drop n models)) [] = Inr ()"
  proof -
    have "distinct (map model_name (take k (drop n models)))"
      using assms(1) by (simp add: bridge_lists_def proper_models_def flip: take_map drop_map)
    moreover have "\<forall>m \<in> set (take k (drop n models)). model_sound m"
      using assms(1) in_set_takeD in_set_dropD by (fastforce simp: bridge_lists_def list_all_iff)
    ultimately show ?thesis by (simp add: catalog_models_iff)
  qed
  ultimately show "validate_catalog E v policy = Inr ()" using d by (simp add: validate_catalog_def)
qed

lemma bridge_step:
  assumes lists: "bridge_lists E policy read fetch doc models b" and bound: "bridge_bound E doc b cursor n" "n \<le> length models"
  obtains s where "steady fetch (fst (fetch (br_remote b))) s" "bridge_lists E policy read fetch doc models (b\<lparr>br_remote := s\<rparr>)"
    "bridge_page E read pick fresh fetch CODEX_AGENT_ID cursor 100 b =
      (if n + 100 < length models
       then (Some (Inr (jset (page_of doc n 100) ''nextCursor'' (juuid E (fresh (br_drawn b))))),
         b\<lparr>br_cursors := remember pick (uuid_text E (fresh (br_drawn b))) (document_digest E doc, n + 100) (br_cursors b),
           br_drawn := Suc (br_drawn b), br_remote := s\<rparr>)
       else (Some (Inr (page_of doc n 100)), b\<lparr>br_remote := s\<rparr>))"
proof -
  obtain answer where a: "steady fetch answer (br_remote b)" "rbind (receive answer) (whole_catalog E read) = Inr doc"
    using lists by (auto simp: bridge_lists_def)
  define s where "s = snd (fetch (br_remote b))"
  have f: "fetch (br_remote b) = (answer, s)" using steady_step(1) [OF a(1)] by (simp add: s_def prod_eq_iff)
  have s: "steady fetch answer s" using steady_step(2) [OF a(1)] by (simp add: s_def)
  obtain status declared chunks where answer: "answer = Fetched status declared chunks"
    using a(2) by (cases answer) (auto simp: receive_def)
  have data: "as_array (jidx doc ''data'') = Some models" "elements doc ''data'' = models"
    using lists by (simp_all add: bridge_lists_def elements_def)
  have resume: "\<exists>resume. resume_at b CODEX_AGENT_ID cursor 100 = Inr resume \<and>
      (case resume of None \<Rightarrow> n = 0 | Some (bound, offset) \<Rightarrow> bound = document_digest E doc \<and> offset = n)"
    using bound(1) by (cases cursor) (auto simp: resume_at_def)
  then obtain resume where r: "resume_at b CODEX_AGENT_ID cursor 100 = Inr resume"
    "case resume of None \<Rightarrow> n = 0 | Some (bound, offset) \<Rightarrow> bound = document_digest E doc \<and> offset = n" by blast
  have cut: "cut_page E resume 100 doc = Inr (page_of doc n 100, if n + 100 < length models then Some (n + 100) else None)"
    using r(2) bound(2) data by (auto simp: cut_page_def page_of_def Let_def min_def split: option.splits)
  have "bridge_lists E policy read fetch doc models (b\<lparr>br_remote := s\<rparr>)" using lists s a(2) by (auto simp: bridge_lists_def)
  moreover have "bridge_page E read pick fresh fetch CODEX_AGENT_ID cursor 100 b =
      (if n + 100 < length models
       then (Some (Inr (jset (page_of doc n 100) ''nextCursor'' (juuid E (fresh (br_drawn b))))),
         b\<lparr>br_cursors := remember pick (uuid_text E (fresh (br_drawn b))) (document_digest E doc, n + 100) (br_cursors b),
           br_drawn := Suc (br_drawn b), br_remote := s\<rparr>)
       else (Some (Inr (page_of doc n 100)), b\<lparr>br_remote := s\<rparr>))"
    by (simp add: bridge_page_def r(1) f answer a(2) [unfolded answer] cut Let_def)
  ultimately show thesis using that s f by simp
qed

lemma page_cursor:
  assumes "bridge_lists E policy read fetch doc models b"
  shows "as_str (jidx (page_of doc n k) ''nextCursor'') = None"
    "as_str (jidx (jset (page_of doc n k) ''nextCursor'' (JStr c)) ''nextCursor'') = Some c"
proof -
  obtain fs where fs: "doc = JObj fs" using assms by (cases doc) (auto simp: bridge_lists_def jidx_def)
  have "is_null (jidx doc ''nextCursor'')" using assms by (auto simp: bridge_lists_def whole_catalog_def result_simps)
  then have "jidx doc ''nextCursor'' = JNull" by (cases "jidx doc ''nextCursor''") auto
  then show "as_str (jidx (page_of doc n k) ''nextCursor'') = None"
    "as_str (jidx (jset (page_of doc n k) ''nextCursor'' (JStr c)) ''nextCursor'') = Some c"
    by (simp_all add: page_of_def fs jidx_def)
qed

lemma fresh_cursor:
  assumes "uuid_ok E" "bridge_budget fresh b (Suc m)"
  shows "uuid_text E (fresh (br_drawn b)) \<notin> bridge_issued E fresh b" "inj_on fresh {..<Suc (br_drawn b) + m}"
proof -
  have inj: "inj_on fresh {..<br_drawn b + Suc m}" using assms(2) by (simp add: bridge_budget_def)
  then show "inj_on fresh {..<Suc (br_drawn b) + m}" by simp
  show "uuid_text E (fresh (br_drawn b)) \<notin> bridge_issued E fresh b"
  proof
    assume "uuid_text E (fresh (br_drawn b)) \<in> bridge_issued E fresh b"
    then obtain i where i: "i < br_drawn b" "uuid_text E (fresh (br_drawn b)) = uuid_text E (fresh i)" by (auto simp: bridge_issued_def)
    then have "fresh (br_drawn b) = fresh i" by (simp add: uuid_format.to_text_inject [OF assms(1)])
    then show False using inj_onD [OF inj, of "br_drawn b" i] i(1) by simp
  qed
qed

interpretation bridged: paged_catalog E policy "bridge_page E read pick fresh fetch" "bridge_lists E policy read fetch doc"
  "bridge_bound E doc" "bridge_issued E fresh" "bridge_budget fresh" for E policy read pick fresh fetch doc
proof
  show "bridge_bound E doc b None 0" for b by simp
next
  fix models b cursor n m
  assume l: "bridge_lists E policy read fetch doc models b" and at: "bridge_bound E doc b cursor n" "n \<le> length models"
    and budget: "bridge_budget fresh b (Suc m)"
  obtain s where lists: "bridge_lists E policy read fetch doc models (b\<lparr>br_remote := s\<rparr>)" and p:
    "bridge_page E read pick fresh fetch CODEX_AGENT_ID cursor 100 b =
      (if n + 100 < length models
       then (Some (Inr (jset (page_of doc n 100) ''nextCursor'' (juuid E (fresh (br_drawn b))))),
         b\<lparr>br_cursors := remember pick (uuid_text E (fresh (br_drawn b))) (document_digest E doc, n + 100) (br_cursors b),
           br_drawn := Suc (br_drawn b), br_remote := s\<rparr>)
       else (Some (Inr (page_of doc n 100)), b\<lparr>br_remote := s\<rparr>))"
    by (rule bridge_step [OF l at, of pick fresh])
  have new: "uuid_text E (fresh (br_drawn b)) \<notin> bridge_issued E fresh b" "inj_on fresh {..<Suc (br_drawn b) + m}"
    using fresh_cursor [OF _ budget] l by (auto simp: bridge_lists_def)
  show "\<exists>v b'. bridge_page E read pick fresh fetch CODEX_AGENT_ID cursor 100 b = (Some (Inr v), b') \<and>
      bridge_lists E policy read fetch doc models b' \<and> bridge_budget fresh b' m \<and> validate_catalog E v policy = Inr () \<and>
      jidx v ''data'' = JArr (take 100 (drop n models)) \<and>
      (if n + 100 < length models
       then \<exists>c. as_str (jidx v ''nextCursor'') = Some c \<and> c \<notin> bridge_issued E fresh b \<and>
         bridge_issued E fresh b' = insert c (bridge_issued E fresh b) \<and> bridge_bound E doc b' (Some c) (n + 100)
       else as_str (jidx v ''nextCursor'') = None)"
  proof (cases "n + 100 < length models")
    case True
    let ?c = "uuid_text E (fresh (br_drawn b))"
    let ?v = "jset (page_of doc n 100) ''nextCursor'' (juuid E (fresh (br_drawn b)))"
    let ?b = "b\<lparr>br_cursors := remember pick ?c (document_digest E doc, n + 100) (br_cursors b), br_drawn := Suc (br_drawn b), br_remote := s\<rparr>"
    have "bridge_issued E fresh ?b = insert ?c (bridge_issued E fresh b)"
      by (simp add: bridge_issued_def lessThan_Suc)
    moreover have "bridge_lists E policy read fetch doc models ?b" using lists by (simp add: bridge_lists_def)
    moreover have "bridge_budget fresh ?b m" using new(2) by (simp add: bridge_budget_def)
    ultimately show ?thesis
      using p True new(1) page_valid [OF l, of ?v n 100 "fresh (br_drawn b)"] page_cursor(2) [OF l]
      by (intro exI [of _ ?v] exI [of _ ?b]) (simp add: remember_lookup)
  next
    case False
    have "bridge_budget fresh (b\<lparr>br_remote := s\<rparr>) m"
      using new(2) by (auto simp: bridge_budget_def elim: inj_on_subset)
    then show ?thesis
      using p False lists page_valid [OF l, of "page_of doc n 100" n 100] page_cursor(1) [OF l] by simp
  qed
qed


definition small_catalog :: document where
  "small_catalog = Doc_map [(''catalogRevision'', Doc_str ''c''), (''data'', Doc_seq [Doc_map [(''id'', Doc_str ''m''),
     (''supportedReasoningEfforts'', Doc_seq [Doc_map [(''id'', Doc_str ''e'')]])]])]"

definition small_model :: json where
  "small_model = jobj [(''id'', JStr ''m''), (''supportedReasoningEfforts'', JArr [jobj [(''id'', JStr ''e'')]])]"

definition small_page :: json where
  "small_page = jobj [(''catalogRevision'', JStr ''c''), (''data'', JArr [small_model])]"

lemma small_catalog_read: "parse_strict_json (\<lambda>_. Some small_catalog) bytes = Inr small_page"
  by (simp add: parse_strict_json_def strict_value_eq(1) small_catalog_def small_page_def small_model_def)

lemma small_pages: "pages_accepted sample_ext small_page"
proof -
  have "safe_numbers small_model" by (simp add: small_model_def jobj_def)
  then have s: "\<forall>x \<in> set (take k (drop n [small_model])). safe_numbers x" for n k
    using in_set_takeD [of _ k "drop n [small_model]"] in_set_dropD [of _ n "[small_model]"] by fastforce
  have "page_of small_page n k = JObj [(''catalogRevision'', JStr ''c''), (''data'', JArr (take k (drop n [small_model])))]" for n k
    by (simp add: page_of_def elements_def small_page_def wire_simps) (simp add: jobj_def)
  then show ?thesis using s by (auto simp: pages_accepted_def validate_profile_value_def) (simp_all add: sample_ext_def)
qed


end
