(* ===== verification/Spec2Isabelle.thy ===== *)
theory Spec2Isabelle
  imports Gateway_Conversations Conversation_Service Catalog_Bridge
begin

text \<open>
  Room gateway.
\<close>

end
